(* ===== verification/Go_Prelude.thy ===== *)
theory Go_Prelude
  imports Main "HOL-Library.Sublist" "HOL-Library.Signed_Division"
begin

text \<open>
  The prelude of the development: what the Go code of the volume provisioner uses of the
  language and of its standard library, and the lemmas about it that every component shares.

  \<^item> Go \<open>error\<close> values (\<open>error\<close>), run-time panics (\<open>panic\<close>) and the four ways a Go
    call can end (\<open>outcome\<close>): a value, a non-nil error, a panic, or the end of the process
    (\<open>logger.Fatal\<close> and \<open>os.Exit\<close>).
  \<^item> Stateful code: \<open>('s, 'a) go\<close> is a function from a state to the outcome and the next
    state, where \<open>None\<close> means that the call does not return. \<open>go_bind\<close> is the
    \<open>if err != nil { return nil, err }\<close> idiom, \<open>go_try\<close> hands the error to the rest of the
    function instead.
  \<^item> What a function keeps of the state, and that it returns: \<open>keeps\<close> with the locale \<open>frame\<close>, and
    \<open>go_total\<close>.

  The functions of packages \<open>strings\<close>, \<open>time\<close> and \<open>context\<close> and the \<open>int64\<close> arithmetic are in
  \<open>Go_Library\<close>.
\<close>

named_theorems go_simps \<open>equations that run the steps of a Go function\<close>
named_theorems go_frame \<open>rules that show that a Go function keeps a relation on states\<close>
named_theorems go_total \<open>rules that show that a Go function returns\<close>

section \<open>Errors and outcomes\<close>

text \<open>
  An \<open>error\<close> of \<open>fmt.Errorf\<close> or \<open>errors.Errorf\<close> is kept as its format string with its
  arguments. Sentinel errors (package variables compared by identity) are constructors of
  their own: the two packages that declare an \<open>errNotFound\<close> declare two different errors.
\<close>

datatype error =
    ErrNotFound \<comment> \<open>\<open>provisioner.errNotFound\<close>\<close>
  | FssErrNotFound \<comment> \<open>\<open>fss.errNotFound\<close>\<close>
  | ErrWaitTimeout \<comment> \<open>\<open>wait.ErrWaitTimeout\<close>\<close>
  | Servicefailure int string string \<comment> \<open>\<open>common.servicefailure\<close>: status, code, message\<close>
  | IgnoredError string \<comment> \<open>\<open>controller.IgnoredError\<close>\<close>
  | DeadlineExceeded \<comment> \<open>\<open>context.DeadlineExceeded\<close>\<close>
  | Aggregate "(string \<times> string \<times> string) list" \<comment> \<open>\<open>field.ErrorList\<close>: type, field, detail\<close>
  | WithMessage error string \<comment> \<open>\<open>errors.withMessage\<close>\<close>
  | WithStack error \<comment> \<open>\<open>errors.withStack\<close>\<close>
  | Errorf string "fmt_arg list"
  | OtherError string \<comment> \<open>an error of the operating system or of a library\<close>
and fmt_arg = FmtS string | FmtE error | FmtI int | FmtL "string list"

datatype panic = NilDereference | IndexOutOfRange | DivideByZero | NilMapWrite | CloseOfClosedChannel | TypeAssertion | PanicError error

datatype 'a outcome = Ok 'a | Err error | Panic panic | Exit int

type_synonym ('s, 'a) go = "'s \<Rightarrow> ('a outcome \<times> 's) option"

definition ret :: "'a \<Rightarrow> ('s, 'a) go" where
  "ret x s = Some (Ok x, s)"

definition fail :: "error \<Rightarrow> ('s, 'a) go" where
  "fail e s = Some (Err e, s)"

definition panics :: "panic \<Rightarrow> ('s, 'a) go" where
  "panics p s = Some (Panic p, s)"

definition exits :: "int \<Rightarrow> ('s, 'a) go" where
  "exits n s = Some (Exit n, s)"

definition go_bind :: "('s, 'a) go \<Rightarrow> ('a \<Rightarrow> ('s, 'b) go) \<Rightarrow> ('s, 'b) go" where
  "go_bind m f s = (case m s of
       None \<Rightarrow> None
     | Some (Ok x, s') \<Rightarrow> f x s'
     | Some (Err e, s') \<Rightarrow> Some (Err e, s')
     | Some (Panic p, s') \<Rightarrow> Some (Panic p, s')
     | Some (Exit n, s') \<Rightarrow> Some (Exit n, s'))"

definition go_try :: "('s, 'a) go \<Rightarrow> (error + 'a \<Rightarrow> ('s, 'b) go) \<Rightarrow> ('s, 'b) go" where
  "go_try m f s = (case m s of
       None \<Rightarrow> None
     | Some (Ok x, s') \<Rightarrow> f (Inr x) s'
     | Some (Err e, s') \<Rightarrow> f (Inl e) s'
     | Some (Panic p, s') \<Rightarrow> Some (Panic p, s')
     | Some (Exit n, s') \<Rightarrow> Some (Exit n, s'))"

definition gets :: "('s \<Rightarrow> 'a) \<Rightarrow> ('s, 'a) go" where
  "gets f s = Some (Ok (f s), s)"

definition modifies :: "('s \<Rightarrow> 's) \<Rightarrow> ('s, unit) go" where
  "modifies f s = Some (Ok (), f s)"

definition of_result :: "error + 'a \<Rightarrow> ('s, 'a) go" where
  "of_result r = (case r of Inl e \<Rightarrow> fail e | Inr x \<Rightarrow> ret x)"

definition deref :: "'a option \<Rightarrow> ('s, 'a) go" where
  \<comment> \<open>\<open>*p\<close>: reading through a nil pointer panics\<close>
  "deref p = (case p of None \<Rightarrow> panics NilDereference | Some x \<Rightarrow> ret x)"

definition index :: "'a list \<Rightarrow> nat \<Rightarrow> ('s, 'a) go" where
  \<comment> \<open>\<open>xs[i]\<close>: reading out of range panics\<close>
  "index xs i = (if i < length xs then ret (xs ! i) else panics IndexOutOfRange)"

lemma ret_apply [go_simps]: "ret x s = Some (Ok x, s)" by (simp add: ret_def)
lemma fail_apply [go_simps]: "fail e s = Some (Err e, s)" by (simp add: fail_def)
lemma panics_apply [go_simps]: "panics p s = Some (Panic p, s)" by (simp add: panics_def)
lemma exits_apply [go_simps]: "exits n s = Some (Exit n, s)" by (simp add: exits_def)
lemma gets_apply [go_simps]: "gets f s = Some (Ok (f s), s)" by (simp add: gets_def)
lemma modifies_apply [go_simps]: "modifies f s = Some (Ok (), f s)" by (simp add: modifies_def)

lemma go_bind_ret [go_simps]: "go_bind (ret x) f = f x"
  by (rule ext) (simp add: go_bind_def ret_def)

lemma go_bind_fail [go_simps]: "go_bind (fail e) f = fail e"
  by (rule ext) (simp add: go_bind_def fail_def)

lemma go_bind_panics [go_simps]: "go_bind (panics p) f = panics p"
  by (rule ext) (simp add: go_bind_def panics_def)

lemma go_bind_gets [go_simps]: "go_bind (gets g) f s = f (g s) s"
  by (simp add: go_bind_def gets_def)

lemma go_bind_modifies [go_simps]: "go_bind (modifies g) f s = f () (g s)"
  by (simp add: go_bind_def modifies_def)

lemma go_bind_assoc: "go_bind (go_bind m f) g = go_bind m (\<lambda>x. go_bind (f x) g)"
  by (rule ext) (simp add: go_bind_def split: option.splits prod.splits outcome.splits)

lemma go_bind_Ok: "m s = Some (Ok x, s') \<Longrightarrow> go_bind m f s = f x s'"
  by (simp add: go_bind_def)

lemma go_bind_Err: "m s = Some (Err e, s') \<Longrightarrow> go_bind m f s = Some (Err e, s')"
  by (simp add: go_bind_def)

lemma go_try_Ok: "m s = Some (Ok x, s') \<Longrightarrow> go_try m f s = f (Inr x) s'"
  by (simp add: go_try_def)

lemma go_try_Err: "m s = Some (Err e, s') \<Longrightarrow> go_try m f s = f (Inl e) s'"
  by (simp add: go_try_def)

lemma go_bind_eq_Ok:
  "go_bind m f s = Some (Ok y, s'') \<longleftrightarrow> (\<exists>x s'. m s = Some (Ok x, s') \<and> f x s' = Some (Ok y, s''))"
  by (auto simp: go_bind_def split: option.splits prod.splits outcome.splits)

lemma go_bind_cases:
  assumes "go_bind m f s = Some (r, s'')"
  obtains (ok) x s' where "m s = Some (Ok x, s')" and "f x s' = Some (r, s'')"
    | (err) e where "m s = Some (Err e, s'')" and "r = Err e"
    | (panic) p where "m s = Some (Panic p, s'')" and "r = Panic p"
    | (exit) n where "m s = Some (Exit n, s'')" and "r = Exit n"
  using assms by (auto simp: go_bind_def split: option.splits prod.splits outcome.splits)

lemma go_try_cases:
  assumes "go_try m f s = Some (r, s'')"
  obtains (ok) x s' where "m s = Some (Ok x, s')" and "f (Inr x) s' = Some (r, s'')"
    | (err) e s' where "m s = Some (Err e, s')" and "f (Inl e) s' = Some (r, s'')"
    | (panic) p where "m s = Some (Panic p, s'')" and "r = Panic p"
    | (exit) n where "m s = Some (Exit n, s'')" and "r = Exit n"
  using assms by (auto simp: go_try_def split: option.splits prod.splits outcome.splits)

lemma of_result_simps [go_simps]:
  "of_result (Inl e) = fail e" "of_result (Inr x) = ret x"
  by (simp_all add: of_result_def)

lemma deref_simps [go_simps]:
  "deref None = panics NilDereference" "deref (Some x) = ret x"
  by (simp_all add: deref_def)

lemma deref_cases:
  assumes "go_bind (deref p) f w = Some (r, w')"
  obtains (some) x where "p = Some x" "f x w = Some (r, w')" | (nil) "p = None" "w' = w" "r = Panic NilDereference"
  using assms by (cases p) (auto simp: go_simps)

section \<open>Frames: what a function keeps of the state\<close>

text \<open>
  \<open>keeps R m\<close>: whenever \<open>m\<close> returns, in whatever way, the state before and the state after
  are related by \<open>R\<close>. For a reflexive and transitive \<open>R\<close> it composes.
\<close>

definition keeps :: "('s \<Rightarrow> 's \<Rightarrow> bool) \<Rightarrow> ('s, 'a) go \<Rightarrow> bool" where
  "keeps R m \<longleftrightarrow> (\<forall>s r s'. m s = Some (r, s') \<longrightarrow> R s s')"

lemma keepsD: "keeps R m \<Longrightarrow> m s = Some (r, s') \<Longrightarrow> R s s'"
  by (auto simp: keeps_def)

lemma keepsI: "(\<And>s r s'. m s = Some (r, s') \<Longrightarrow> R s s') \<Longrightarrow> keeps R m"
  by (auto simp: keeps_def)

definition go_total :: "('s, 'a) go \<Rightarrow> bool" where
  "go_total m \<longleftrightarrow> (\<forall>s. m s \<noteq> None)"

lemma go_totalE: "go_total m \<Longrightarrow> \<exists>r s'. m s = Some (r, s')"
  by (metis go_total_def not_None_eq surj_pair)

locale frame =
  fixes R :: "'s \<Rightarrow> 's \<Rightarrow> bool"
  assumes refl: "R s s"
    and trans: "R s t \<Longrightarrow> R t u \<Longrightarrow> R s u"
begin

lemma keeps_pure:
  "keeps R (ret x)" "keeps R (fail e)" "keeps R (panics p)" "keeps R (exits n)" "keeps R (gets f)"
  by (auto simp: keeps_def go_simps refl)

lemma keeps_deref: "keeps R (deref p)"
  by (cases p) (simp_all add: go_simps keeps_pure)

lemma keeps_of_result: "keeps R (of_result x)"
  by (cases x) (simp_all add: go_simps keeps_pure)

lemma keeps_index: "keeps R (index xs i)"
  by (simp add: index_def keeps_pure)

lemma keeps_bind: "keeps R m \<Longrightarrow> (\<And>x. keeps R (f x)) \<Longrightarrow> keeps R (go_bind m f)"
  by (rule keepsI, erule go_bind_cases) (blast intro: trans dest: keepsD)+

lemma keeps_try: "keeps R m \<Longrightarrow> (\<And>x. keeps R (f x)) \<Longrightarrow> keeps R (go_try m f)"
  by (rule keepsI, erule go_try_cases) (blast intro: trans dest: keepsD)+

lemma keeps_if: "keeps R m \<Longrightarrow> keeps R m' \<Longrightarrow> keeps R (if b then m else m')"
  by simp

lemma keeps_option:
  "keeps R m \<Longrightarrow> (\<And>x. keeps R (f x)) \<Longrightarrow> keeps R (case p of None \<Rightarrow> m | Some x \<Rightarrow> f x)"
  by (cases p) simp_all

lemma keeps_sum:
  "(\<And>x. keeps R (f x)) \<Longrightarrow> (\<And>x. keeps R (g x)) \<Longrightarrow> keeps R (case p of Inl x \<Rightarrow> f x | Inr x \<Rightarrow> g x)"
  by (cases p) simp_all

lemma keeps_prod: "(\<And>x y. keeps R (f x y)) \<Longrightarrow> keeps R (case p of (x, y) \<Rightarrow> f x y)"
  by (cases p) simp_all

lemmas keeps_rules = keeps_pure keeps_deref keeps_of_result keeps_index keeps_bind keeps_try
  keeps_if keeps_option keeps_sum keeps_prod

end

lemma total_pure [go_total]:
  "go_total (ret x)" "go_total (fail e)" "go_total (panics p)" "go_total (exits n)"
  "go_total (gets f)" "go_total (modifies g)"
  by (simp_all add: go_total_def go_simps)

lemma total_deref [go_total]: "go_total (deref p)"
  by (cases p) (simp_all add: go_simps total_pure)

lemma total_of_result [go_total]: "go_total (of_result x)"
  by (cases x) (simp_all add: go_simps total_pure)

lemma total_index [go_total]: "go_total (index xs i)"
  by (simp add: index_def total_pure)

lemma total_bind [go_total]: "go_total m \<Longrightarrow> (\<And>x. go_total (f x)) \<Longrightarrow> go_total (go_bind m f)"
  by (auto simp: go_total_def go_bind_def split: option.splits prod.splits outcome.splits)

lemma total_try [go_total]: "go_total m \<Longrightarrow> (\<And>x. go_total (f x)) \<Longrightarrow> go_total (go_try m f)"
  by (auto simp: go_total_def go_try_def split: option.splits prod.splits outcome.splits)

lemma total_if [go_total]: "go_total m \<Longrightarrow> go_total m' \<Longrightarrow> go_total (if b then m else m')"
  by simp

lemma total_option [go_total]:
  "go_total m \<Longrightarrow> (\<And>x. go_total (f x)) \<Longrightarrow> go_total (case p of None \<Rightarrow> m | Some x \<Rightarrow> f x)"
  by (cases p) simp_all

lemma total_sum [go_total]:
  "(\<And>x. go_total (f x)) \<Longrightarrow> (\<And>x. go_total (g x)) \<Longrightarrow>
    go_total (case p of Inl x \<Rightarrow> f x | Inr x \<Rightarrow> g x)"
  by (cases p) simp_all

end
