(* ===== verification/Quantity.thy ===== *)
theory Quantity
  imports Go_Library Complex_Main
begin

text \<open>
  Resource quantities (\<open>k8s.io/apimachinery/pkg/api/resource\<close>, vendored): the storage sizes that
  the block provisioner rounds and compares. A quantity is an \<open>int64\<close> with a decimal scale, or,
  when it does not fit, an arbitrary precision decimal of \<open>gopkg.in/inf.v0\<close>. The model has the two
  operations the provisioner calls, \<open>Value\<close> and \<open>Cmp\<close>, with the routines below them; the cached
  string form of a quantity is left out.
\<close>

section \<open>Representation\<close>

record int64Amount =
  amtValue :: int64
  amtScale :: int

record Dec =
  decUnscaled :: int
  decScale :: int

record Quantity =
  qtyI :: int64Amount
  qtyD :: "Dec option"
  qtyFormat :: string

definition NewQuantity :: "int64 \<Rightarrow> string \<Rightarrow> Quantity" where
  "NewQuantity v fmt = \<lparr>qtyI = \<lparr>amtValue = v, amtScale = 0\<rparr>, qtyD = None, qtyFormat = fmt\<rparr>"

section \<open>Arithmetic on int64 (math.go)\<close>

definition mostNegative :: int64 where
  "mostNegative = - (2 ^ 63)"

definition int64MultiplyScale :: "int64 \<Rightarrow> int64 \<Rightarrow> int64 \<times> bool" where
  "int64MultiplyScale a b =
     (if a = 0 \<or> a = 1 then (wrap64 (a * b), True)
      else if a = mostNegative \<and> b \<noteq> 1 then (0, False)
      else let c = wrap64 (a * b) in (c, quo64 c b = a))"

fun scale_loop :: "nat \<Rightarrow> int64 \<Rightarrow> int64 \<times> bool" where
  "scale_loop 0 v = (v, True)"
| "scale_loop (Suc n) v =
     (case int64MultiplyScale v 10 of (v', ok) \<Rightarrow> if ok then scale_loop n v' else (0, False))"

definition positiveScaleInt64 :: "int64 \<Rightarrow> int \<Rightarrow> int64 \<times> bool" where
  "positiveScaleInt64 base scale =
     (if scale = 0 then (base, True)
      else if scale = 1 then int64MultiplyScale base 10
      else if scale = 2 then int64MultiplyScale base 100
      else if scale = 3 then int64MultiplyScale base 1000
      else if scale = 6 then int64MultiplyScale base 1000000
      else if scale = 9 then int64MultiplyScale base 1000000000
      else scale_loop (nat scale) base)"

text \<open>
  \<open>negative_loop n value fraction\<close> is the loop of \<open>negativeScaleInt64\<close> with \<open>n\<close> rounds left.
\<close>

fun negative_loop :: "int64 \<Rightarrow> nat \<Rightarrow> int64 \<Rightarrow> bool \<Rightarrow> int64 \<times> bool" where
  "negative_loop base 0 v fraction =
     (if fraction then (if 0 < base then wrap64 (v + 1) else wrap64 (v - 1), False) else (v, True))"
| "negative_loop base (Suc n) v fraction =
     (let fraction' = (fraction \<or> v smod 10 \<noteq> 0); v' = quo64 v 10
      in if v' = 0
         then (if fraction' then (if 0 < base then 1 else -1, False) else (0, True))
         else negative_loop base n v' fraction')"

definition negativeScaleInt64 :: "int64 \<Rightarrow> int \<Rightarrow> int64 \<times> bool" where
  "negativeScaleInt64 base scale =
     (if scale = 0 then (base, True) else negative_loop base (nat scale) base False)"

definition pow10Int64 :: "int64 \<Rightarrow> int64" where
  "pow10Int64 b = (if 0 \<le> b \<and> b \<le> 18 then 10 ^ nat b else 0)"

definition divideByScaleInt64 :: "int64 \<Rightarrow> int \<Rightarrow> int64 \<times> int64 \<times> bool" where
  "divideByScaleInt64 base scale =
     (if scale = 0 then (base, 0, True)
      else if 18 \<le> scale then (0, base, False)
      else let divisor = pow10Int64 scale in (quo64 base divisor, base smod divisor, True))"

section \<open>Decimals (inf.v0 and scale\_int.go)\<close>

definition rescale :: "Dec \<Rightarrow> int \<Rightarrow> Dec" where
  "rescale x newScale =
     (let shift = newScale - decScale x
      in if shift < 0 then \<lparr>decUnscaled = decUnscaled x sdiv 10 ^ nat (- shift), decScale = newScale\<rparr>
         else if 0 < shift then \<lparr>decUnscaled = decUnscaled x * 10 ^ nat shift, decScale = newScale\<rparr>
         else x)"

definition upscale :: "Dec \<Rightarrow> Dec \<Rightarrow> Dec \<times> Dec" where
  "upscale a b =
     (if decScale a = decScale b then (a, b)
      else if decScale b < decScale a then (a, rescale b (decScale a))
      else (rescale a (decScale b), b))"

definition int_cmp :: "int \<Rightarrow> int \<Rightarrow> int" where
  \<comment> \<open>\<open>big.Int.Cmp\<close>\<close>
  "int_cmp a b = (if a = b then 0 else if a < b then -1 else 1)"

definition Dec_Cmp :: "Dec \<Rightarrow> Dec \<Rightarrow> int" where
  "Dec_Cmp x y = (case upscale x y of (xx, yy) \<Rightarrow> int_cmp (decUnscaled xx) (decUnscaled yy))"

text \<open>
  \<open>int64(math.Pow10(n))\<close>: exact up to \<open>10 ^ 18\<close>; larger values do not fit, and the conversion
  gives the most negative \<open>int64\<close> on amd64.
\<close>

definition int64_Pow10 :: "nat \<Rightarrow> int64" where
  "int64_Pow10 n = (if n \<le> 18 then 10 ^ n else mostNegative)"

definition scaledValue :: "int \<Rightarrow> int \<Rightarrow> int \<Rightarrow> int64" where
  "scaledValue unscaled scale newScale =
     (let dif = scale - newScale
      in if dif = 0 then wrap64 unscaled
         else if dif < 0 then wrap64 (wrap64 unscaled * int64_Pow10 (nat (- dif)))
         else if unscaled < 2 ^ 63 - 1 \<and> dif < 19 then
           (let divide = int64_Pow10 (nat dif);
                result = quo64 (wrap64 unscaled) divide;
                md = wrap64 unscaled smod divide
            in if md \<noteq> 0 then wrap64 (result + 1) else result)
         else
           (let divisor = 10 ^ nat dif
            in if unscaled mod divisor \<noteq> 0 then wrap64 (wrap64 (unscaled div divisor) + 1)
               else wrap64 (unscaled div divisor)))"

section \<open>Operations on quantities\<close>

definition AsScaledInt64 :: "int64Amount \<Rightarrow> int \<Rightarrow> int64 \<times> bool" where
  "AsScaledInt64 a scale =
     (if amtScale a < scale then (fst (negativeScaleInt64 (amtValue a) (scale - amtScale a)), True)
      else positiveScaleInt64 (amtValue a) (amtScale a - scale))"

definition AsDec :: "int64Amount \<Rightarrow> Dec" where
  "AsDec a = \<lparr>decUnscaled = amtValue a, decScale = - amtScale a\<rparr>"

definition Amount_Cmp :: "int64Amount \<Rightarrow> int64Amount \<Rightarrow> int" where
  "Amount_Cmp a b =
     (if amtScale a = amtScale b then int_cmp (amtValue a) (amtValue b)
      else if amtScale b < amtScale a then
        (case divideByScaleInt64 (amtValue b) (amtScale a - amtScale b) of (result, remainder, exact) \<Rightarrow>
          if \<not> exact then Dec_Cmp (AsDec a) (AsDec b)
          else if result = amtValue a then
            (if remainder = 0 then 0 else if 0 < remainder then -1 else 1)
          else int_cmp (amtValue a) result)
      else
        (case divideByScaleInt64 (amtValue a) (amtScale b - amtScale a) of (result, remainder, exact) \<Rightarrow>
          if \<not> exact then Dec_Cmp (AsDec a) (AsDec b)
          else if result = amtValue b then
            (if remainder = 0 then 0 else if 0 < remainder then 1 else -1)
          else int_cmp result (amtValue b)))"

definition Quantity_AsDec :: "Quantity \<Rightarrow> Dec" where
  \<comment> \<open>the code also stores the decimal in the quantity, which does not change its value\<close>
  "Quantity_AsDec q = (case qtyD q of Some d \<Rightarrow> d | None \<Rightarrow> AsDec (qtyI q))"

definition Quantity_Cmp :: "Quantity \<Rightarrow> Quantity \<Rightarrow> int" where
  "Quantity_Cmp q y =
     (if qtyD q = None \<and> qtyD y = None then Amount_Cmp (qtyI q) (qtyI y)
      else Dec_Cmp (Quantity_AsDec q) (Quantity_AsDec y))"

definition ScaledValue :: "Quantity \<Rightarrow> int \<Rightarrow> int64" where
  "ScaledValue q scale =
     (case qtyD q of
        None \<Rightarrow> fst (AsScaledInt64 (qtyI q) scale)
      | Some d \<Rightarrow> scaledValue (decUnscaled d) (decScale d) (- scale))"

definition Value :: "Quantity \<Rightarrow> int64" where
  "Value q = ScaledValue q 0"

lemma Value_NewQuantity [simp]: "Value (NewQuantity v fmt) = v"
  by (simp add: Value_def ScaledValue_def NewQuantity_def AsScaledInt64_def positiveScaleInt64_def)

section \<open>Comparison is comparison of the values\<close>

text \<open>The number a quantity stands for.\<close>

definition dec_val :: "Dec \<Rightarrow> rat" where
  "dec_val d = of_int (decUnscaled d) * 10 powi (- decScale d)"

definition amount_val :: "int64Amount \<Rightarrow> rat" where
  "amount_val a = of_int (amtValue a) * 10 powi amtScale a"

definition quantity_val :: "Quantity \<Rightarrow> rat" where
  "quantity_val q = (case qtyD q of None \<Rightarrow> amount_val (qtyI q) | Some d \<Rightarrow> dec_val d)"

definition quantity_wf :: "Quantity \<Rightarrow> bool" where
  "quantity_wf q \<longleftrightarrow> in64 (amtValue (qtyI q))"

definition rat_cmp :: "rat \<Rightarrow> rat \<Rightarrow> int" where
  "rat_cmp a b = (if a = b then 0 else if a < b then -1 else 1)"

lemma rat_cmp_greater: "rat_cmp a b = 1 \<longleftrightarrow> b < a"
  by (simp add: rat_cmp_def)

lemma rat_cmp_scale: "0 < p \<Longrightarrow> rat_cmp (of_int x * p) (of_int y * p) = int_cmp x y"
  by (simp add: rat_cmp_def int_cmp_def)

lemma dec_val_AsDec [simp]: "dec_val (AsDec a) = amount_val a"
  by (simp add: dec_val_def AsDec_def amount_val_def)

lemma powi_shift:
  assumes "s \<le> t"
  shows "of_int u * 10 powi t = (of_int (u * 10 ^ nat (t - s)) * 10 powi s :: rat)"
proof -
  have "(10::rat) powi t = 10 powi (t - s + s)" by simp
  also have "\<dots> = 10 powi (t - s) * 10 powi s" by (rule power_int_add) simp
  also have "(10::rat) powi (t - s) = 10 ^ nat (t - s)"
    using assms by (simp add: power_int_def)
  finally show ?thesis by simp
qed

lemma Dec_Cmp_correct: "Dec_Cmp x y = rat_cmp (dec_val x) (dec_val y)"
proof -
  let ?X = "decUnscaled x" and ?Y = "decUnscaled y" and ?sx = "decScale x" and ?sy = "decScale y"
  consider "?sx = ?sy" | "?sy < ?sx" | "?sx < ?sy" by linarith
  then show ?thesis
  proof cases
    case 1
    then show ?thesis by (simp add: Dec_Cmp_def upscale_def dec_val_def rat_cmp_scale)
  next
    case 2
    then have "dec_val y = of_int (?Y * 10 ^ nat (?sx - ?sy)) * 10 powi (- ?sx)"
      using powi_shift [of "- ?sx" "- ?sy" ?Y] by (simp add: dec_val_def)
    with 2 show ?thesis
      by (simp add: Dec_Cmp_def upscale_def rescale_def rat_cmp_scale dec_val_def [of x] del: of_int_mult)
  next
    case 3
    then have "dec_val x = of_int (?X * 10 ^ nat (?sy - ?sx)) * 10 powi (- ?sy)"
      using powi_shift [of "- ?sy" "- ?sx" ?X] by (simp add: dec_val_def)
    with 3 show ?thesis
      by (simp add: Dec_Cmp_def upscale_def rescale_def rat_cmp_scale dec_val_def [of y] del: of_int_mult)
  qed
qed

text \<open>Division by a power of ten decides the comparison at different scales.\<close>

lemma smod_bounds:
  fixes B D :: int
  assumes "0 < D"
  shows "- D < B smod D" and "B smod D < D"
  using smod_int_range [of D B] assms by (auto simp: abs_if split: if_splits)

definition quot_cmp :: "int \<Rightarrow> int \<Rightarrow> int \<Rightarrow> int" where
  "quot_cmp A q r =
     (if q = A then (if r = 0 then 0 else if 0 < r then -1 else 1) else int_cmp A q)"

lemma quot_cmp_correct:
  fixes A D q r :: int
  assumes "0 < D" and r: "- D < r" "r < D"
  shows "quot_cmp A q r = int_cmp (A * D) (q * D + r)"
proof -
  consider "A = q" | "A + 1 \<le> q" | "q + 1 \<le> A" by linarith
  then show ?thesis
  proof cases
    case 2
    then have "(A + 1) * D \<le> q * D" using assms(1) by (intro mult_right_mono) auto
    with 2 r show ?thesis by (auto simp: quot_cmp_def int_cmp_def distrib_right)
  next
    case 3
    then have "(q + 1) * D \<le> A * D" using assms(1) by (intro mult_right_mono) auto
    with 3 r show ?thesis by (auto simp: quot_cmp_def int_cmp_def distrib_right)
  qed (auto simp: quot_cmp_def int_cmp_def)
qed

lemma cmp_by_quotient:
  fixes A B D :: int
  assumes "0 < D"
  shows "quot_cmp A (B sdiv D) (B smod D) = int_cmp (A * D) B"
  using quot_cmp_correct [OF assms smod_bounds [OF assms, of B], of A "B sdiv D"]
  by (simp add: sdiv_mult_smod_eq)

lemma sdiv_in64: "in64 b \<Longrightarrow> 1 < d \<Longrightarrow> in64 (b sdiv d)"
proof -
  assume b: "in64 b" and d: "1 < d"
  have "\<bar>b sdiv d\<bar> \<le> \<bar>b\<bar> div d"
    using d by (auto simp: signed_divide_int_def abs_mult sgn_if pos_imp_zdiv_nonneg_iff)
  also have "\<dots> \<le> \<bar>b\<bar> div 2"
    using d by (intro zdiv_mono2) auto
  finally show ?thesis using b by (auto simp: in64_def)
qed

lemma int_cmp_swap: "int_cmp a b = - int_cmp b a"
  by (simp add: int_cmp_def)

lemma rat_cmp_swap: "rat_cmp a b = - rat_cmp b a"
  by (simp add: rat_cmp_def)

lemma divideByScale_exact:
  assumes "in64 b" and "0 < d" and "divideByScaleInt64 b d = (res, rmd, True)"
  shows "res = b sdiv 10 ^ nat d" and "rmd = b smod 10 ^ nat d"
proof -
  have d: "d < 18" and eq: "res = quo64 b (10 ^ nat d)" "rmd = b smod 10 ^ nat d"
    using assms(2,3) by (auto simp: divideByScaleInt64_def Let_def pow10Int64_def split: if_splits)
  have "(1::int) < 10 ^ nat d"
    using assms(2) by (intro one_less_power) auto
  then have "in64 (b sdiv 10 ^ nat d)" by (rule sdiv_in64 [OF assms(1)])
  with eq show "res = b sdiv 10 ^ nat d" "rmd = b smod 10 ^ nat d"
    by (simp_all add: quo64_def wrap64_id)
qed

lemma Amount_Cmp_greater_scale:
  assumes "in64 (amtValue b)" and "amtScale b < amtScale a"
    and div: "divideByScaleInt64 (amtValue b) (amtScale a - amtScale b) = (res, rmd, True)"
  shows "quot_cmp (amtValue a) res rmd = rat_cmp (amount_val a) (amount_val b)"
proof -
  let ?D = "10 ^ nat (amtScale a - amtScale b) :: int"
  have "amount_val a = of_int (amtValue a * ?D) * 10 powi amtScale b"
    using powi_shift [of "amtScale b" "amtScale a"] assms(2) by (simp add: amount_val_def)
  then have "rat_cmp (amount_val a) (amount_val b) = int_cmp (amtValue a * ?D) (amtValue b)"
    by (simp add: amount_val_def [of b] rat_cmp_scale del: of_int_mult)
  also have "\<dots> = quot_cmp (amtValue a) (amtValue b sdiv ?D) (amtValue b smod ?D)"
    by (rule cmp_by_quotient [symmetric]) simp
  also have "\<dots> = quot_cmp (amtValue a) res rmd"
    using divideByScale_exact [OF assms(1) _ div] assms(2) by simp
  finally show ?thesis by simp
qed

lemma Amount_Cmp_correct:
  assumes "in64 (amtValue a)" and "in64 (amtValue b)"
  shows "Amount_Cmp a b = rat_cmp (amount_val a) (amount_val b)"
proof -
  consider "amtScale a = amtScale b" | "amtScale b < amtScale a" | "amtScale a < amtScale b"
    by linarith
  then show ?thesis
  proof cases
    case 1
    then show ?thesis by (simp add: Amount_Cmp_def amount_val_def rat_cmp_scale)
  next
    case 2
    obtain res rmd ex where div:
      "divideByScaleInt64 (amtValue b) (amtScale a - amtScale b) = (res, rmd, ex)"
      by (metis prod_cases3)
    show ?thesis
      using 2 div Amount_Cmp_greater_scale [OF assms(2) 2, of res rmd]
      by (cases ex) (simp_all add: Amount_Cmp_def Dec_Cmp_correct quot_cmp_def)
  next
    case 3
    obtain res rmd ex where div:
      "divideByScaleInt64 (amtValue a) (amtScale b - amtScale a) = (res, rmd, ex)"
      by (metis prod_cases3)
    have "ex \<Longrightarrow> (if res = amtValue b then (if rmd = 0 then 0 else if 0 < rmd then 1 else -1)
          else int_cmp res (amtValue b)) = rat_cmp (amount_val a) (amount_val b)"
      using Amount_Cmp_greater_scale [OF assms(1) 3, of res rmd] div
      by (simp add: rat_cmp_swap [of "amount_val a"] int_cmp_swap [of res] quot_cmp_def split: if_splits)
    then show ?thesis
      using 3 div by (cases ex) (simp_all add: Amount_Cmp_def Dec_Cmp_correct)
  qed
qed

lemma Quantity_Cmp_correct:
  assumes "quantity_wf q" and "quantity_wf y"
  shows "Quantity_Cmp q y = rat_cmp (quantity_val q) (quantity_val y)"
  using assms Amount_Cmp_correct [of "qtyI q" "qtyI y"]
  by (cases "qtyD q"; cases "qtyD y")
    (simp_all add: Quantity_Cmp_def Quantity_AsDec_def quantity_val_def quantity_wf_def Dec_Cmp_correct)

section \<open>Value rounds up\<close>

text \<open>The overflow test of \<open>int64MultiplyScale\<close>: dividing the wrapped product gives it away.\<close>

lemma wrap64_far:
  assumes "\<not> in64 x"
  shows "2 ^ 63 \<le> \<bar>wrap64 x - x\<bar>"
proof -
  have "(2::int) ^ 64 dvd wrap64 x - x"
    using wrap64_cong [of x] by (simp add: mod_eq_dvd_iff)
  moreover have "wrap64 x - x \<noteq> 0" using assms in64_wrap64 [of x] by (metis eq_iff_diff_eq_0)
  ultimately have "2 ^ 64 \<le> \<bar>wrap64 x - x\<bar>"
    by (metis abs_dvd_iff abs_of_nonneg dvd_imp_le_int zero_le_numeral zero_le_power)
  then show ?thesis by simp
qed

lemma int64MultiplyScale_ok:
  assumes "in64 a" and "1 < b" and "b \<le> 1000000000"
  shows "int64MultiplyScale a b = (v, True) \<Longrightarrow> v = a * b"
    and "in64 (a * b) \<Longrightarrow> int64MultiplyScale a b = (a * b, True)"
proof -
  have b64: "in64 b" using assms by (simp add: in64_def)
  have sdiv: "a * b sdiv b = a"
    using assms(2) by (simp add: signed_divide_int_def abs_mult sgn_mult sgn_mult_abs)
  show "v = a * b" if "int64MultiplyScale a b = (v, True)"
  proof (cases "a = 0 \<or> a = 1")
    case True
    then show ?thesis using that b64 by (auto simp: int64MultiplyScale_def wrap64_id)
  next
    case False
    then have v: "v = wrap64 (a * b)" and q: "quo64 (wrap64 (a * b)) b = a"
      using that by (auto simp: int64MultiplyScale_def Let_def split: if_splits)
    let ?c = "wrap64 (a * b)"
    have "?c sdiv b = a" using q sdiv_in64 [OF in64_wrap64 assms(2)] by (simp add: quo64_def wrap64_id)
    then have "?c - a * b = ?c smod b" using sdiv_mult_smod_eq [of ?c b] by simp
    then have "\<bar>?c - a * b\<bar> < 1000000000" using smod_bounds [of b ?c] assms by linarith
    then have "in64 (a * b)" using wrap64_far [of "a * b"] by fastforce
    then show ?thesis using v by (simp add: wrap64_id)
  qed
  show "int64MultiplyScale a b = (a * b, True)" if "in64 (a * b)"
    using that assms sdiv
    by (auto simp: int64MultiplyScale_def Let_def wrap64_id quo64_def mostNegative_def in64_def)
qed

lemma scale_loop_ok: "in64 (v * 10 ^ n) \<Longrightarrow> in64 v \<Longrightarrow> 0 \<le> v \<Longrightarrow> scale_loop n v = (v * 10 ^ n, True)"
proof (induction n arbitrary: v)
  case (Suc n)
  have le: "v * 10 \<le> v * 10 ^ Suc n"
    using Suc.prems(3) by (intro mult_left_mono) auto
  then have v10: "in64 (v * 10)" using Suc.prems by (simp add: in64_def)
  then have "int64MultiplyScale v 10 = (v * 10, True)"
    using Suc.prems by (intro int64MultiplyScale_ok) auto
  then show ?case using Suc.IH [of "v * 10"] Suc.prems v10 by (simp add: mult.assoc)
qed simp

lemma positiveScaleInt64_ok:
  assumes "in64 (v * 10 ^ nat n)" and "in64 v" and "0 \<le> v" and "0 \<le> n"
  shows "positiveScaleInt64 v n = (v * 10 ^ nat n, True)"
  using assms scale_loop_ok [OF assms(1-3)] int64MultiplyScale_ok(2) [of v]
  by (auto simp: positiveScaleInt64_def)

lemma negative_loop_ceiling:
  assumes "0 < base" and "0 \<le> v" and "in64 v" and "v div 10 ^ n < 2 ^ 62"
  shows "fst (negative_loop base n v f) =
    v div 10 ^ n + (if f \<or> v mod 10 ^ n \<noteq> 0 then 1 else 0)"
  using assms(2-)
proof (induction n arbitrary: v f)
  case 0
  then show ?case using assms(1) by (simp add: wrap64_id in64_def)
next
  case (Suc n)
  have quo: "quo64 v 10 = v div 10"
    using Suc.prems by (auto simp: quo64_def sdiv_nonneg in64_def intro!: wrap64_id)
  have smod: "v smod 10 = v mod 10"
    using Suc.prems by (simp add: signed_modulo_int_def sgn_if)
  have div: "v div (10 * 10 ^ n) = v div 10 div 10 ^ n" by (simp add: zdiv_zmult2_eq)
  have md: "v mod (10 * 10 ^ n) = 10 * (v div 10 mod 10 ^ n) + v mod 10"
    by (simp add: zmod_zmult2_eq)
  show ?case
  proof (cases "v div 10 = 0")
    case True
    then show ?thesis using assms(1) Suc.prems by (auto simp: quo smod div md Let_def)
  next
    case False
    have "in64 (v div 10)" and "0 \<le> v div 10" using Suc.prems by (auto simp: in64_def)
    then have "fst (negative_loop base n (v div 10) (f \<or> v mod 10 \<noteq> 0)) =
        v div 10 div 10 ^ n + (if (f \<or> v mod 10 \<noteq> 0) \<or> v div 10 mod 10 ^ n \<noteq> 0 then 1 else 0)"
      using Suc.IH Suc.prems(3) div by simp
    moreover have "10 * (v div 10 mod 10 ^ n) + v mod 10 = 0 \<longleftrightarrow>
        v div 10 mod 10 ^ n = 0 \<and> v mod 10 = 0"
      by (simp add: add_nonneg_eq_0_iff)
    ultimately show ?thesis using False by (simp add: quo smod div md Let_def)
  qed
qed

lemma ceiling_divide_nat:
  fixes u D :: int
  assumes "0 < D"
  shows "\<lceil>of_int u / (of_int D :: rat)\<rceil> = u div D + (if u mod D \<noteq> 0 then 1 else 0)"
  using assms ceiling_divide_eq_div [where 'a = rat, of u D]
  by (simp add: zdiv_zminus1_eq_if zmod_zminus1_eq_if)

lemma powi_minus_divide:
  assumes "0 \<le> n"
  shows "of_int u * 10 powi (- n) = of_int u / (of_int (10 ^ nat n) :: rat)"
  using assms by (simp add: power_int_minus divide_inverse) (simp add: power_int_def)

lemma scaled_nonneg_iff: "0 \<le> of_int u * (10 powi n :: rat) \<longleftrightarrow> 0 \<le> u"
proof -
  have "\<not> (10::rat) powi n \<le> 0" by (simp add: not_le)
  then show ?thesis by (auto simp only: zero_le_mult_iff of_int_0_le_iff of_int_le_0_iff not_le)
qed

lemma fits_imp_small_scale:
  fixes u :: int
  assumes "0 < u" and "u * 10 ^ n < 2 ^ 63"
  shows "n \<le> 18"
proof (rule ccontr)
  assume "\<not> n \<le> 18"
  then have "(10::int) ^ 19 \<le> 10 ^ n" by (intro power_increasing) auto
  also have "\<dots> \<le> u * 10 ^ n" using assms(1) by simp
  finally show False using assms(2) by simp
qed

lemma scaledValue_up:
  assumes "0 \<le> u" and "in64 \<lceil>of_int u * 10 powi (- s) :: rat\<rceil>" and "s < 0"
  shows "scaledValue u s 0 = \<lceil>of_int u * 10 powi (- s) :: rat\<rceil>"
proof -
  have eq: "of_int u * 10 powi (- s) = (of_int (u * 10 ^ nat (- s)) :: rat)"
    using assms(3) by (simp add: power_int_def)
  then have fits: "in64 (u * 10 ^ nat (- s))"
    using assms(2) by (simp only: ceiling_of_int)
  have le: "u * 1 \<le> u * 10 ^ nat (- s)" using assms(1) by (intro mult_left_mono) auto
  then have u64: "in64 u" using fits assms(1) by (simp add: in64_def)
  show ?thesis
  proof (cases "u = 0")
    case False
    then have "nat (- s) \<le> 18"
      using fits_imp_small_scale [of u "nat (- s)"] fits assms(1) by (simp add: in64_def)
    then show ?thesis
      unfolding eq using assms(3) fits u64
      by (simp add: scaledValue_def int64_Pow10_def wrap64_id del: of_int_mult)
  qed (use assms(3) in \<open>simp add: scaledValue_def\<close>)
qed

lemma scaledValue_down:
  assumes "0 \<le> u" and "in64 \<lceil>of_int u * 10 powi (- s) :: rat\<rceil>" and "0 < s"
  shows "scaledValue u s 0 = \<lceil>of_int u * 10 powi (- s) :: rat\<rceil>"
proof -
  let ?D = "10 ^ nat s :: int"
  have "of_int u * 10 powi (- s) = of_int u / (of_int ?D :: rat)"
    using assms(3) by (intro powi_minus_divide) simp
  then have ceil: "\<lceil>of_int u * 10 powi (- s) :: rat\<rceil> = u div ?D + (if u mod ?D \<noteq> 0 then 1 else 0)"
    by (simp only: ceiling_divide_nat zero_less_power zero_less_numeral)
  have "0 \<le> u div ?D" using assms(1) by (simp add: pos_imp_zdiv_nonneg_iff)
  then have floor64: "in64 (u div ?D)"
    using assms(2) ceil by (auto simp: in64_def split: if_splits)
  show ?thesis
  proof (cases "u < 2 ^ 63 - 1 \<and> s < 19")
    case True
    then have "in64 u" using assms(1) by (simp add: in64_def)
    moreover have "int64_Pow10 (nat s) = ?D" using True by (auto simp: int64_Pow10_def)
    moreover have "u sdiv ?D = u div ?D" "u smod ?D = u mod ?D"
      using assms(1) by (simp_all add: sdiv_nonneg signed_modulo_int_def sgn_if)
    ultimately show ?thesis
      using assms(3) True ceil assms(2) floor64
      by (auto simp: scaledValue_def Let_def quo64_def wrap64_id)
  next
    case False
    then show ?thesis
      using assms(3) ceil assms(2) floor64 by (auto simp: scaledValue_def Let_def wrap64_id)
  qed
qed

lemma scaledValue_ceiling:
  assumes "0 \<le> u" and "in64 \<lceil>of_int u * 10 powi (- s) :: rat\<rceil>"
  shows "scaledValue u s 0 = \<lceil>of_int u * 10 powi (- s) :: rat\<rceil>"
  using assms scaledValue_up [OF assms] scaledValue_down [OF assms]
  by (cases s "0 :: int" rule: linorder_cases) (simp_all add: scaledValue_def wrap64_id)

lemma AsScaledInt64_ceiling:
  assumes "0 \<le> amtValue a" and "in64 (amtValue a)" and "in64 \<lceil>amount_val a\<rceil>"
  shows "fst (AsScaledInt64 a 0) = \<lceil>amount_val a\<rceil>"
proof (cases "amtScale a < 0")
  case True
  let ?D = "10 ^ nat (- amtScale a) :: int" and ?v = "amtValue a"
  have "amount_val a = of_int ?v / of_int ?D"
    using True powi_minus_divide [of "- amtScale a" ?v] by (simp only: amount_val_def minus_minus)
  then have ceil: "\<lceil>amount_val a\<rceil> = ?v div ?D + (if ?v mod ?D \<noteq> 0 then 1 else 0)"
    by (simp only: ceiling_divide_nat zero_less_power zero_less_numeral)
  have "(10::int) ^ 1 \<le> ?D" using True by (intro power_increasing) auto
  then have "?v div ?D \<le> ?v div 10" using assms(1) by (intro zdiv_mono2) auto
  moreover have "?v div 10 < 2 ^ 62" using assms(2) by (auto simp: in64_def)
  ultimately have small: "?v div ?D < 2 ^ 62" by linarith
  show ?thesis
  proof (cases "?v = 0")
    case True
    then show ?thesis
      using \<open>amtScale a < 0\<close> ceil
      by (cases "nat (- amtScale a)")
        (auto simp: AsScaledInt64_def negativeScaleInt64_def Let_def quo64_def)
  next
    case False
    then have "fst (negative_loop ?v (nat (- amtScale a)) ?v False) = \<lceil>amount_val a\<rceil>"
      using negative_loop_ceiling [OF _ assms(1,2) small] assms(1) ceil by simp
    then show ?thesis
      using \<open>amtScale a < 0\<close> by (simp add: AsScaledInt64_def negativeScaleInt64_def)
  qed
next
  case False
  have eq: "amount_val a = of_int (amtValue a * 10 ^ nat (amtScale a))"
    using False by (simp add: amount_val_def power_int_def)
  then have "in64 (amtValue a * 10 ^ nat (amtScale a))"
    using assms(3) by (simp only: ceiling_of_int)
  then show ?thesis
    unfolding eq using False positiveScaleInt64_ok [of "amtValue a" "amtScale a"] assms
    by (simp add: AsScaledInt64_def del: of_int_mult)
qed

lemma Value_ceiling:
  assumes "quantity_wf q" and "0 \<le> quantity_val q" and "in64 \<lceil>quantity_val q\<rceil>"
  shows "Value q = \<lceil>quantity_val q\<rceil>"
proof (cases "qtyD q")
  case None
  have "0 \<le> amtValue (qtyI q)"
    using assms(2) None by (simp add: quantity_val_def amount_val_def scaled_nonneg_iff)
  then show ?thesis
    using assms AsScaledInt64_ceiling [of "qtyI q"] None
    by (simp add: Value_def ScaledValue_def quantity_val_def quantity_wf_def)
next
  case (Some d)
  have "0 \<le> decUnscaled d"
    using assms(2) Some by (simp add: quantity_val_def dec_val_def scaled_nonneg_iff)
  then show ?thesis
    using assms scaledValue_ceiling [of "decUnscaled d" "decScale d"] Some
    by (simp add: Value_def ScaledValue_def quantity_val_def dec_val_def)
qed

end
