(* ===== verification/Api_Types.thy ===== *)
theory Api_Types
  imports Quantity
begin

text \<open>
  The data the provisioner exchanges with Kubernetes and with the OCI services: the fields that its
  code reads or writes of the types of \<open>k8s.io/api/core/v1\<close>, of the controller library and of the
  OCI SDK. A nilable pointer is an \<open>option\<close>. Enumerations of the SDK are strings, as in Go.
\<close>

section \<open>Kubernetes\<close>

type_synonym strmap = "string \<rightharpoonup> string"

record PersistentVolumeClaim =
  pvcName :: string
  pvcUID :: string
  pvcAnnotations :: strmap
  pvcSelector :: "strmap option" \<comment> \<open>\<open>Spec.Selector\<close>: nil, or its \<open>MatchLabels\<close>\<close>
  pvcAccessModes :: "string list"
  pvcRequests :: "string \<rightharpoonup> Quantity" \<comment> \<open>\<open>Spec.Resources.Requests\<close>\<close>

record VolumeOptions =
  optReclaimPolicy :: string
  optPVName :: string
  optMountOptions :: "string list"
  optPVC :: "PersistentVolumeClaim option"
  optParameters :: strmap

datatype PersistentVolumeSource =
    FlexVolume (flexDriver: string) (flexFSType: string)
  | NFS (nfsServer: string) (nfsPath: string) (nfsReadOnly: bool)

text \<open>
  The maps of a volume's metadata are written by the code, so a nil map (\<open>None\<close>), which panics on a
  write, differs from an empty one.
\<close>

record PersistentVolume =
  pvName :: string
  pvAnnotations :: "strmap option"
  pvLabels :: "strmap option"
  pvReclaimPolicy :: string
  pvAccessModes :: "string list"
  pvCapacity :: "string \<rightharpoonup> Quantity"
  pvSource :: PersistentVolumeSource
  pvMountOptions :: "string list"

record Node =
  nodeLabels :: strmap

definition map_get :: "strmap option \<Rightarrow> string \<Rightarrow> string option" where
  \<comment> \<open>\<open>v, ok := m[k]\<close>: a nil map reads as empty\<close>
  "map_get m k = (case m of None \<Rightarrow> None | Some f \<Rightarrow> f k)"

definition map_get0 :: "strmap option \<Rightarrow> string \<Rightarrow> string" where
  \<comment> \<open>\<open>m[k]\<close>: a missing key reads as the empty string\<close>
  "map_get0 m k = (case map_get m k of None \<Rightarrow> [] | Some v \<Rightarrow> v)"

definition map_put :: "string \<Rightarrow> string \<Rightarrow> strmap option \<Rightarrow> ('s, strmap option) go" where
  \<comment> \<open>\<open>m[k] = v\<close>\<close>
  "map_put k v m = (case m of None \<Rightarrow> panics NilMapWrite | Some f \<Rightarrow> ret (Some (f(k \<mapsto> v))))"

abbreviation ReadWriteOnce :: string where "ReadWriteOnce \<equiv> ''ReadWriteOnce''"
abbreviation ReadOnlyMany :: string where "ReadOnlyMany \<equiv> ''ReadOnlyMany''"
abbreviation ReadWriteMany :: string where "ReadWriteMany \<equiv> ''ReadWriteMany''"
abbreviation ResourceStorage :: string where "ResourceStorage \<equiv> ''storage''"

text \<open>\<open>metav1.LabelZoneFailureDomain\<close> of the kubelet's API package.\<close>

abbreviation kubeLabelZoneFailureDomain :: string where
  "kubeLabelZoneFailureDomain \<equiv> ''failure-domain.beta.kubernetes.io/zone''"

section \<open>OCI\<close>

record AvailabilityDomain =
  adName :: "string option"
  adCompartmentId :: "string option"

record CreateVolumeDetails =
  cvdAvailabilityDomain :: "string option"
  cvdCompartmentId :: "string option"
  cvdDisplayName :: "string option"
  cvdSizeInMBs :: "int option"
  cvdSourceDetails :: "string option" \<comment> \<open>\<open>VolumeSourceFromVolumeBackupDetails{Id}\<close>\<close>

record Volume =
  volId :: "string option"
  volLifecycleState :: string

record DeleteVolumeResponse =
  dvRawResponse :: "int option" \<comment> \<open>the status code of the raw response, if there is one\<close>

record CreateFileSystemDetails =
  cfsCompartmentId :: "string option"
  cfsAvailabilityDomain :: "string option"
  cfsDisplayName :: "string option"

record FileSystem =
  fsId :: "string option"
  fsLifecycleState :: string

record FileSystemSummary =
  fssumId :: "string option"
  fssumDisplayName :: "string option"
  fssumLifecycleState :: string

record MountTarget =
  mtId :: "string option"
  mtPrivateIpIds :: "string list"
  mtExportSetId :: "string option"
  mtLifecycleState :: string

record CreateExportDetails =
  ceExportSetId :: "string option"
  ceFileSystemId :: "string option"
  cePath :: "string option"

record Export =
  exId :: "string option"
  exFileSystemId :: "string option"
  exExportSetId :: "string option"
  exPath :: "string option"
  exLifecycleState :: string

record ExportSummary =
  exsId :: "string option"
  exsExportSetId :: "string option"
  exsFileSystemId :: "string option"
  exsLifecycleState :: string

record ListExportsResponse =
  leItems :: "ExportSummary list"
  leOpcNextPage :: "string option"

record PrivateIp =
  ipAddress :: "string option"

record InstanceMetadata =
  mdCompartmentOCID :: string
  mdRegion :: string

lemma map_get_simps [simp]: "map_get None k = None" "map_get (Some f) k = f k"
  by (simp_all add: map_get_def)

lemma map_put_Some [go_simps]: "map_put k v (Some f) = ret (Some (f(k \<mapsto> v)))"
  by (simp add: map_put_def)

lemma map_put_None [go_simps]: "map_put k v None = panics NilMapWrite"
  by (simp add: map_put_def)

end
