(* ===== verification/Config.thy ===== *)
theory Config
  imports Go_Prelude
begin

text \<open>
  The configuration file of the provisioner: \<open>pkg/oci/client/config.go\<close> and
  \<open>pkg/oci/client/config_validate.go\<close>, with the vendored \<open>field.ErrorList.ToAggregate\<close>.
  Reading the file and decoding its YAML are parameters.
\<close>

section \<open>The configuration\<close>

record AuthConfig =
  authTenancyOCID :: string
  authUserOCID :: string
  authCompartmentOCID :: string
  authPrivateKey :: string
  authFingerprint :: string
  authRegion :: string
  authPrivateKeyPassphrase :: string

record Config =
  cfgAuth :: AuthConfig
  cfgUseInstancePrincipals :: bool
  cfgCompartmentOCID :: string

definition zeroAuthConfig :: AuthConfig where
  "zeroAuthConfig = \<lparr>authTenancyOCID = [], authUserOCID = [], authCompartmentOCID = [],
     authPrivateKey = [], authFingerprint = [], authRegion = [], authPrivateKeyPassphrase = []\<rparr>"

definition zeroConfig :: Config where
  "zeroConfig = \<lparr>cfgAuth = zeroAuthConfig, cfgUseInstancePrincipals = False, cfgCompartmentOCID = []\<rparr>"

section \<open>Validation\<close>

record field_Error =
  feType :: string
  feField :: string
  feDetail :: string

definition Forbidden :: "string \<Rightarrow> string \<Rightarrow> field_Error" where
  "Forbidden path detail = \<lparr>feType = ''FieldValueForbidden'', feField = path, feDetail = detail\<rparr>"

definition Required :: "string \<Rightarrow> string \<Rightarrow> field_Error" where
  "Required path detail = \<lparr>feType = ''FieldValueRequired'', feField = path, feDetail = detail\<rparr>"

definition Child :: "string \<Rightarrow> string \<Rightarrow> string" where
  "Child path name = path @ ''.'' @ name"

definition principals_msg :: string where
  "principals_msg = ''cannot be used when useInstancePrincipals is enabled''"

definition validateAuthConfig :: "Config \<Rightarrow> string \<Rightarrow> field_Error list" where
  "validateAuthConfig c fldPath =
     (if cfgUseInstancePrincipals c then
        (if authRegion (cfgAuth c) \<noteq> [] then [Forbidden (Child fldPath ''region'') principals_msg] else [])
      @ (if authTenancyOCID (cfgAuth c) \<noteq> [] then [Forbidden (Child fldPath ''tenancy'') principals_msg] else [])
      @ (if authUserOCID (cfgAuth c) \<noteq> [] then [Forbidden (Child fldPath ''user'') principals_msg] else [])
      @ (if authPrivateKey (cfgAuth c) \<noteq> [] then [Forbidden (Child fldPath ''key'') principals_msg] else [])
      @ (if authFingerprint (cfgAuth c) \<noteq> [] then [Forbidden (Child fldPath ''fingerprint'') principals_msg] else [])
      else
        (if authRegion (cfgAuth c) = [] then [Required (Child fldPath ''region'') []] else [])
      @ (if authTenancyOCID (cfgAuth c) = [] then [Required (Child fldPath ''tenancy'') []] else [])
      @ (if authUserOCID (cfgAuth c) = [] then [Required (Child fldPath ''user'') []] else [])
      @ (if authPrivateKey (cfgAuth c) = [] then [Required (Child fldPath ''key'') []] else [])
      @ (if authFingerprint (cfgAuth c) = [] then [Required (Child fldPath ''fingerprint'') []] else []))"

definition ValidateConfig :: "Config \<Rightarrow> field_Error list" where
  "ValidateConfig c = validateAuthConfig c ''auth''"

text \<open>
  \<open>ToAggregate\<close> drops an error whose message was seen before; an empty list becomes a nil error.
  The two error types of the validation have the canonical texts of \<open>field.ErrorType.String\<close>.
\<close>

definition field_Error_msg :: "field_Error \<Rightarrow> string" where
  "field_Error_msg e =
     feField e @ '': '' @ (if feType e = ''FieldValueForbidden'' then ''Forbidden'' else ''Required value'')
       @ (if feDetail e = [] then [] else '': '' @ feDetail e)"

fun dedup_msgs :: "string list \<Rightarrow> field_Error list \<Rightarrow> field_Error list" where
  "dedup_msgs seen [] = []"
| "dedup_msgs seen (e # es) =
     (if field_Error_msg e \<in> set seen then dedup_msgs seen es
      else e # dedup_msgs (field_Error_msg e # seen) es)"

definition ToAggregate :: "field_Error list \<Rightarrow> error option" where
  "ToAggregate errs =
     (case dedup_msgs [] errs of
        [] \<Rightarrow> None
      | es \<Rightarrow> Some (Aggregate (map (\<lambda>e. (feType e, feField e, feDetail e)) es)))"

definition Validate :: "Config \<Rightarrow> error option" where
  "Validate c = ToAggregate (ValidateConfig c)"

section \<open>Loading\<close>

definition Complete :: "Config \<Rightarrow> Config" where
  "Complete c =
     (if cfgCompartmentOCID c = [] \<and> authCompartmentOCID (cfgAuth c) \<noteq> []
      then c\<lparr>cfgCompartmentOCID := authCompartmentOCID (cfgAuth c)\<rparr> else c)"

text \<open>
  \<open>LoadConfig\<close>: the reader is nil or yields its bytes or an error. \<open>yaml.Unmarshal(b, &cfg)\<close> gets
  a pointer to the pointer \<open>cfg\<close>, so it can leave \<open>cfg\<close> nil (\<open>None\<close>), and then
  \<open>cfg.Complete()\<close> dereferences it.
\<close>

definition LoadConfig ::
  "(string \<Rightarrow> Config \<Rightarrow> error + Config option) \<Rightarrow> (error + string) option \<Rightarrow> Config outcome" where
  "LoadConfig yaml_Unmarshal r =
     (case r of
        None \<Rightarrow> Err (Errorf ''no configuration file given'' [])
      | Some (Inl e) \<Rightarrow> Err e
      | Some (Inr b) \<Rightarrow>
          (case yaml_Unmarshal b zeroConfig of
             Inl e \<Rightarrow> Err e
           | Inr None \<Rightarrow> Panic NilDereference
           | Inr (Some cfg) \<Rightarrow> Ok (Complete cfg)))"

section \<open>Correctness\<close>

lemma dedup_msgs_Nil: "dedup_msgs [] es = [] \<longleftrightarrow> es = []"
  by (cases es) auto

lemma dedup_msgs_distinct:
  "distinct (map field_Error_msg es) \<Longrightarrow> set (map field_Error_msg es) \<inter> set seen = {} \<Longrightarrow>
    dedup_msgs seen es = es"
  by (induction seen es rule: dedup_msgs.induct) auto

lemma ToAggregate_None [simp]: "ToAggregate es = None \<longleftrightarrow> es = []"
  using dedup_msgs_Nil [of es] by (cases "dedup_msgs [] es") (auto simp: ToAggregate_def)

text \<open>The five credentials that direct authentication needs and instance principals exclude.\<close>

definition credentials :: "Config \<Rightarrow> (string \<times> string) list" where
  "credentials c =
     [(''region'', authRegion (cfgAuth c)), (''tenancy'', authTenancyOCID (cfgAuth c)),
      (''user'', authUserOCID (cfgAuth c)), (''key'', authPrivateKey (cfgAuth c)),
      (''fingerprint'', authFingerprint (cfgAuth c))]"

text \<open>The validation as a specification: one error for each credential on the wrong side.\<close>

lemma ValidateConfig_spec:
  "ValidateConfig c =
     (if cfgUseInstancePrincipals c
      then map (\<lambda>(n, v). Forbidden (''auth.'' @ n) principals_msg) (filter (\<lambda>(n, v). v \<noteq> []) (credentials c))
      else map (\<lambda>(n, v). Required (''auth.'' @ n) []) (filter (\<lambda>(n, v). v = []) (credentials c)))"
  by (simp add: ValidateConfig_def validateAuthConfig_def credentials_def Child_def)

lemma distinct_map_filter_fst:
  assumes "distinct (map fst xs)" and "\<And>n m. g n = g m \<Longrightarrow> n = m"
  shows "distinct (map (\<lambda>(n, v). g n) (filter P xs))"
  using assms by (induction xs) force+

lemma credentials_distinct: "distinct (map fst (credentials c))"
  by (simp add: credentials_def)

lemma field_Error_msg_Forbidden: "field_Error_msg (Forbidden p d) = p @ '': Forbidden'' @ (if d = [] then [] else '': '' @ d)"
  by (simp add: field_Error_msg_def Forbidden_def)

lemma field_Error_msg_Required: "field_Error_msg (Required p d) = p @ '': Required value'' @ (if d = [] then [] else '': '' @ d)"
  by (simp add: field_Error_msg_def Required_def)

lemma ValidateConfig_msgs_distinct: "distinct (map field_Error_msg (ValidateConfig c))"
proof -
  let ?F = "\<lambda>n. field_Error_msg (Forbidden (''auth.'' @ n) principals_msg)"
  let ?R = "\<lambda>n. field_Error_msg (Required (''auth.'' @ n) [])"
  have "distinct (map (\<lambda>(n, v). ?F n) (filter (\<lambda>(n, v). v \<noteq> []) (credentials c)))"
    by (rule distinct_map_filter_fst [OF credentials_distinct])
      (simp only: field_Error_msg_Forbidden append_same_eq same_append_eq)
  moreover have "distinct (map (\<lambda>(n, v). ?R n) (filter (\<lambda>(n, v). v = []) (credentials c)))"
    by (rule distinct_map_filter_fst [OF credentials_distinct])
      (simp only: field_Error_msg_Required append_same_eq same_append_eq)
  ultimately show ?thesis
    by (simp add: ValidateConfig_spec comp_def case_prod_unfold)
qed

lemma Validate_Aggregate:
  "Validate c = Some e \<longleftrightarrow> ValidateConfig c \<noteq> [] \<and>
     e = Aggregate (map (\<lambda>e. (feType e, feField e, feDetail e)) (ValidateConfig c))"
  using dedup_msgs_distinct [OF ValidateConfig_msgs_distinct [of c], of "[]"]
  by (cases "ValidateConfig c") (auto simp: Validate_def ToAggregate_def)

lemma Complete_idem [simp]: "Complete (Complete c) = Complete c"
  by (simp add: Complete_def)

lemma Validate_Complete [simp]: "Validate (Complete c) = Validate c"
  by (simp add: Validate_def ValidateConfig_def validateAuthConfig_def Complete_def)

end
