(* ===== verification/Polling.thy ===== *)
theory Polling
  imports Go_Library
begin

text \<open>
  The polling loop of \<open>k8s.io/apimachinery/pkg/util/wait\<close> (vendored): \<open>PollImmediate\<close>,
  \<open>WaitFor\<close> and the goroutine of \<open>poller\<close> that drives it, with the ticker and the timer of
  package \<open>time\<close>. The state holds the clock and a stream of choices that resolves what Go leaves
  open: which ready case a \<open>select\<close> takes, and the values of \<open>math/rand\<close>.

  Timers fire when they are due. The poller's goroutine drains its ticker at every tick and
  drops the tick when the loop is not receiving, so the tick a receive gets is the first one after
  the receive starts. When the timer and a tick are due at the same instant, the choice stream
  decides which case the \<open>select\<close> takes; the closed channel is seen by the next receive.

  A closure's captured variable (such as \<open>fs\<close> in \<open>awaitFileSystem\<close>) is the value \<open>v\<close> that the
  condition takes and returns beside its \<open>done\<close> flag.
\<close>

section \<open>Clock and choices\<close>

record clocked =
  clock :: time
  choices :: "nat \<Rightarrow> nat"

definition advance_to :: "time \<Rightarrow> 'x clocked_scheme \<Rightarrow> 'x clocked_scheme" where
  "advance_to t s = s\<lparr>clock := t\<rparr>"

definition draw :: "'x clocked_scheme \<Rightarrow> nat \<times> 'x clocked_scheme" where
  "draw s = (choices s 0, s\<lparr>choices := (\<lambda>i. choices s (Suc i))\<rparr>)"

definition rand_Int :: "('x clocked_scheme, nat) go" where
  \<comment> \<open>\<open>rand.Int()\<close>: a non-negative \<open>int\<close>\<close>
  "rand_Int s = (case draw s of (n, s') \<Rightarrow> Some (Ok (n mod 2 ^ 63), s'))"

section \<open>The poller's goroutine\<close>

text \<open>
  \<open>poller_recv\<close> is one receive \<open>_, open := <-c\<close> on the channel of \<open>poller(interval, timeout)\<close>
  started at \<open>t0\<close>, when the last tick taken from the ticker was number \<open>j\<close>. It returns
  \<open>open\<close>, the number of the last tick taken, and the state at the time the receive returns.
\<close>

definition next_tick :: "duration \<Rightarrow> time \<Rightarrow> nat \<Rightarrow> time \<Rightarrow> nat" where
  "next_tick interval t0 j now = max (Suc j) (Suc (nat ((now - t0) div interval)))"

definition poller_recv ::
  "duration \<Rightarrow> duration \<Rightarrow> time \<Rightarrow> nat \<Rightarrow> 'x clocked_scheme \<Rightarrow> bool \<times> nat \<times> 'x clocked_scheme" where
  "poller_recv interval timeout t0 j s =
     (let k = next_tick interval t0 j (clock s); tick = t0 + int k * interval; after = t0 + timeout
      in if timeout = 0 then (True, k, advance_to tick s)
         else if after \<le> clock s then (False, j, s)
         else if tick < after then (True, k, advance_to tick s)
         else if after < tick then (False, j, advance_to after s)
         else case draw s of (c, s') \<Rightarrow>
           if even c then (True, k, advance_to tick s') else (False, j, advance_to after s'))"

section \<open>WaitFor and PollImmediate\<close>

type_synonym ('s, 'v) condition = "'v \<Rightarrow> ('s, bool \<times> 'v) go"

partial_function (option) WaitFor ::
  "duration \<Rightarrow> duration \<Rightarrow> time \<Rightarrow> ('x clocked_scheme, 'v) condition \<Rightarrow> nat \<Rightarrow> 'v \<Rightarrow>
     'x clocked_scheme \<Rightarrow> ('v outcome \<times> 'x clocked_scheme) option" where
  "WaitFor interval timeout t0 fn j v s =
     (case poller_recv interval timeout t0 j s of (open, j', s1) \<Rightarrow>
       (case fn v s1 of
          None \<Rightarrow> None
        | Some (Ok (done, v'), s2) \<Rightarrow>
            if done then Some (Ok v', s2)
            else if \<not> open then Some (Err ErrWaitTimeout, s2)
            else WaitFor interval timeout t0 fn j' v' s2
        | Some (Err e, s2) \<Rightarrow> Some (Err e, s2)
        | Some (Panic p, s2) \<Rightarrow> Some (Panic p, s2)
        | Some (Exit n, s2) \<Rightarrow> Some (Exit n, s2)))"

definition PollImmediate ::
  "duration \<Rightarrow> duration \<Rightarrow> ('x clocked_scheme, 'v) condition \<Rightarrow> 'v \<Rightarrow> ('x clocked_scheme, 'v) go" where
  "PollImmediate interval timeout condition v =
     go_bind (condition v) (\<lambda>(done, v').
       if done then ret v'
       else (\<lambda>s. WaitFor interval timeout (clock s) condition 0 v' s))"

section \<open>Termination\<close>

lemma next_tick_gt: "j < next_tick interval t0 j now"
  by (simp add: next_tick_def)

lemma poller_recv_open:
  assumes "poller_recv interval timeout t0 j s = (True, k, s')" and "timeout \<noteq> 0"
  shows "j < k" and "int k * interval \<le> timeout" and "clock s' = t0 + int k * interval"
  using assms next_tick_gt [of j interval t0 "clock s"]
  by (auto simp: poller_recv_def Let_def advance_to_def draw_def split: if_splits)

lemma poller_recv_closed:
  assumes "poller_recv interval timeout t0 j s = (False, k, s')"
  shows "k = j" and "t0 + timeout \<le> clock s'"
  using assms
  by (auto simp: poller_recv_def Let_def advance_to_def draw_def split: if_splits)

text \<open>
  With a positive interval and a timeout other than 0, the loop receives at most
  \<open>timeout div interval\<close> ticks before the channel is closed, so it returns whenever the condition
  does.
\<close>

lemma tick_bound:
  assumes "0 < interval" and "int k * interval \<le> timeout"
  shows "k \<le> nat (timeout div interval)"
proof -
  have "int k * interval div interval \<le> timeout div interval"
    using assms by (intro zdiv_mono1)
  with assms(1) show ?thesis by simp
qed

lemma WaitFor_total:
  assumes "0 < interval" and "timeout \<noteq> 0" and "\<And>v. go_total (fn v)"
  shows "WaitFor interval timeout t0 fn j v s \<noteq> None"
proof (induction "nat (timeout div interval) - j" arbitrary: j v s rule: less_induct)
  case less
  obtain opn k s1 where recv: "poller_recv interval timeout t0 j s = (opn, k, s1)"
    by (metis prod_cases3)
  have fn: "fn v s1 \<noteq> None" using assms(3) by (simp add: go_total_def)
  have "nat (timeout div interval) - k < nat (timeout div interval) - j" if opn
  proof -
    have "poller_recv interval timeout t0 j s = (True, k, s1)" using recv that by simp
    note open_facts = poller_recv_open [OF this assms(2)]
    have "k \<le> nat (timeout div interval)" by (rule tick_bound [OF assms(1) open_facts(2)])
    with open_facts(1) show ?thesis by simp
  qed
  then have "opn \<Longrightarrow> WaitFor interval timeout t0 fn k v' s2 \<noteq> None" for v' s2
    using less.hyps by blast
  then show ?case
    using fn by (subst WaitFor.simps) (auto simp: recv split: option.split outcome.split)
qed

lemma PollImmediate_total [go_total]:
  assumes "0 < interval" and "timeout \<noteq> 0" and "\<And>v. go_total (fn v)"
  shows "go_total (PollImmediate interval timeout fn v)"
  unfolding PollImmediate_def
proof (rule total_bind [OF assms(3)])
  fix x
  show "go_total (case x of (done, v') \<Rightarrow>
      if done then ret v' else (\<lambda>s. WaitFor interval timeout (clock s) fn 0 v' s))"
    using WaitFor_total [OF assms] by (auto simp: go_total_def go_simps split: prod.splits)
qed

section \<open>Rules for the loop\<close>

text \<open>
  Between two evaluations of the condition only the clock and the choices of the state change, and
  the clock never goes back: \<open>runtime_step\<close>.
\<close>

definition runtime_step :: "'x clocked_scheme \<Rightarrow> 'x clocked_scheme \<Rightarrow> bool" where
  "runtime_step s s' \<longleftrightarrow> (\<exists>t c. clock s \<le> t \<and> s' = s\<lparr>choices := c, clock := t\<rparr>)"

lemma runtime_step_refl [simp]: "runtime_step s s"
  unfolding runtime_step_def by (rule exI [of _ "clock s"], rule exI [of _ "choices s"]) simp

lemma runtime_step_draw: "draw s = (n, s') \<Longrightarrow> runtime_step s s'"
  unfolding runtime_step_def draw_def by (rule exI [of _ "clock s"]) auto

lemma runtime_step_advance: "clock s \<le> t \<Longrightarrow> runtime_step s (advance_to t s)"
  unfolding runtime_step_def advance_to_def
  by (rule exI [of _ t], rule exI [of _ "choices s"]) simp

lemma runtime_step_draw_advance:
  "draw s = (n, s1) \<Longrightarrow> clock s \<le> t \<Longrightarrow> runtime_step s (advance_to t s1)"
  unfolding runtime_step_def advance_to_def draw_def by (rule exI [of _ t]) auto

lemma next_tick_time:
  assumes "0 < interval"
  shows "now \<le> t0 + int (next_tick interval t0 j now) * interval"
proof -
  let ?q = "(now - t0) div interval"
  have "now - t0 = ?q * interval + (now - t0) mod interval"
    by simp
  moreover have "(now - t0) mod interval < interval"
    using assms by simp
  moreover have "(?q + 1) * interval = ?q * interval + interval"
    by (simp add: distrib_right)
  ultimately have "now - t0 < (?q + 1) * interval"
    by linarith
  also have "\<dots> \<le> int (next_tick interval t0 j now) * interval"
    using assms by (intro mult_right_mono) (auto simp: next_tick_def)
  finally show ?thesis by simp
qed

lemma poller_recv_runtime_step:
  assumes "0 < interval" and "poller_recv interval timeout t0 j s = (opn, k, s')"
  shows "runtime_step s s'"
  using assms(2) next_tick_time [OF assms(1), of "clock s" t0 j]
  by (auto simp: poller_recv_def Let_def split: if_splits prod.splits
      intro: runtime_step_advance runtime_step_draw_advance)

text \<open>
  The rule of the loop. \<open>I\<close> is an invariant of the captured variable and the state; \<open>Q\<close> holds of
  every way the loop can end. A run that ends with \<open>ErrWaitTimeout\<close> evaluated the condition once
  more after the channel was closed, at \<open>t0 + timeout\<close> or later.
\<close>

definition cond_ends ::
  "('v outcome \<Rightarrow> 's \<Rightarrow> bool) \<Rightarrow> ('v \<Rightarrow> 's \<Rightarrow> bool) \<Rightarrow> (bool \<times> 'v) outcome \<Rightarrow> 's \<Rightarrow> bool" where
  "cond_ends Q I r s \<longleftrightarrow> (case r of
       Ok (done, v) \<Rightarrow> if done then Q (Ok v) s else I v s
     | Err e \<Rightarrow> Q (Err e) s | Panic p \<Rightarrow> Q (Panic p) s | Exit n \<Rightarrow> Q (Exit n) s)"

lemma WaitFor_rule:
  assumes "WaitFor interval timeout t0 fn j v s = Some (r, s')"
    and "0 < interval"
    and "I v s"
    and ticks: "\<And>v s s1. I v s \<Longrightarrow> runtime_step s s1 \<Longrightarrow> I v s1"
    and conds: "\<And>v s r s1. I v s \<Longrightarrow> fn v s = Some (r, s1) \<Longrightarrow> cond_ends Q I r s1"
    and tmo: "\<And>v s v' s1. I v s \<Longrightarrow> t0 + timeout \<le> clock s \<Longrightarrow> fn v s = Some (Ok (False, v'), s1) \<Longrightarrow>
      Q (Err ErrWaitTimeout) s1"
  shows "Q r s'"
proof -
  let ?P = "\<lambda>iv tm t fn' j v s y. iv = interval \<and> tm = timeout \<and> t = t0 \<and> fn' = fn \<and> I v s \<longrightarrow>
    Q (fst y) (snd y)"
  have "?P interval timeout t0 fn j v s (r, s')"
  proof (rule WaitFor.raw_induct [where P = ?P, OF _ assms(1)])
    fix W iv tm t fn' j v s y
    assume IH: "\<And>iv tm t fn' j v s y. W iv tm t fn' j v s = Some y \<Longrightarrow> ?P iv tm t fn' j v s y"
      and eq: "(case poller_recv iv tm t j s of (open, j', s1) \<Rightarrow>
       (case fn' v s1 of
          None \<Rightarrow> None
        | Some (Ok (done, v'), s2) \<Rightarrow>
            if done then Some (Ok v', s2)
            else if \<not> open then Some (Err ErrWaitTimeout, s2)
            else W iv tm t fn' j' v' s2
        | Some (Err e, s2) \<Rightarrow> Some (Err e, s2)
        | Some (Panic p, s2) \<Rightarrow> Some (Panic p, s2)
        | Some (Exit n, s2) \<Rightarrow> Some (Exit n, s2))) = Some y"
    show "?P iv tm t fn' j v s y"
    proof
      assume hyp: "iv = interval \<and> tm = timeout \<and> t = t0 \<and> fn' = fn \<and> I v s"
      obtain opn k s1 where recv: "poller_recv interval timeout t0 j s = (opn, k, s1)"
        by (metis prod_cases3)
      have I1: "I v s1"
        using hyp ticks poller_recv_runtime_step [OF assms(2) recv] by blast
      obtain r2 s2 where fn: "fn v s1 = Some (r2, s2)"
        using eq hyp recv by (auto split: option.splits)
      have ends: "cond_ends Q I r2 s2" by (rule conds [OF I1 fn])
      have late: "\<not> opn \<Longrightarrow> t0 + timeout \<le> clock s1"
        using recv poller_recv_closed(2) by metis
      show "Q (fst y) (snd y)"
      proof (cases "\<exists>v'. r2 = Ok (False, v')")
        case True
        then obtain v' where r2: "r2 = Ok (False, v')" ..
        show ?thesis
        proof (cases opn)
          case True
          then have "W interval timeout t0 fn k v' s2 = Some y"
            using eq hyp recv fn r2 by simp
          then show ?thesis using IH [of interval timeout t0 fn k v' s2 y] ends r2
            by (simp add: cond_ends_def)
        next
          case False
          then have "y = (Err ErrWaitTimeout, s2)"
            using eq hyp recv fn r2 by simp
          then show ?thesis using tmo [OF I1 late [OF False]] fn r2 by simp
        qed
      next
        case False
        then show ?thesis
          using eq hyp recv fn ends
          by (auto simp: cond_ends_def split: outcome.splits prod.splits if_splits)
      qed
    qed
  qed
  then show ?thesis using assms(3) by simp
qed

lemma PollImmediate_rule:
  assumes run: "PollImmediate interval timeout fn v s = Some (r, s')"
    and "0 < interval"
    and "I v s"
    and ticks: "\<And>v s s1. I v s \<Longrightarrow> runtime_step s s1 \<Longrightarrow> I v s1"
    and conds: "\<And>v s r s1. I v s \<Longrightarrow> fn v s = Some (r, s1) \<Longrightarrow> cond_ends Q I r s1"
    and tmo: "\<And>v0 s0 v1 t v s v' s1. I v0 s0 \<Longrightarrow> fn v0 s0 = Some (Ok (False, v1), t) \<Longrightarrow>
      I v s \<Longrightarrow> clock t + timeout \<le> clock s \<Longrightarrow> fn v s = Some (Ok (False, v'), s1) \<Longrightarrow>
      Q (Err ErrWaitTimeout) s1"
  shows "Q r s'"
proof -
  obtain r1 s1 where fn: "fn v s = Some (r1, s1)"
    using run by (auto simp: PollImmediate_def go_bind_def split: option.splits)
  have ends: "cond_ends Q I r1 s1" by (rule conds [OF assms(3) fn])
  show ?thesis
  proof (cases "\<exists>v'. r1 = Ok (False, v')")
    case True
    then obtain v' where r1: "r1 = Ok (False, v')" ..
    then have "WaitFor interval timeout (clock s1) fn 0 v' s1 = Some (r, s')"
      using run fn by (simp add: PollImmediate_def go_bind_def)
    then show ?thesis
      by (rule WaitFor_rule [where I = I and Q = Q])
        (use assms ends r1 fn in \<open>auto simp: cond_ends_def\<close>)
  next
    case False
    then show ?thesis
      using run fn ends
      by (auto simp: PollImmediate_def go_bind_def go_simps cond_ends_def
          split: outcome.splits prod.splits if_splits)
  qed
qed

lemma keeps_PollImmediate:
  assumes "frame R" and "\<And>s s'. runtime_step s s' \<Longrightarrow> R s s'"
    and "0 < interval" and "\<And>v. keeps R (fn v)"
  shows "keeps R (PollImmediate interval timeout fn v)"
proof (rule keepsI)
  fix s0 r s' assume run: "PollImmediate interval timeout fn v s0 = Some (r, s')"
  show "R s0 s'"
    by (rule PollImmediate_rule [OF run assms(3), where I = "\<lambda>_. R s0" and Q = "\<lambda>_. R s0"])
      (auto simp: cond_ends_def frame.refl [OF assms(1)] split: outcome.split prod.split
        intro: frame.trans [OF assms(1)] assms(2) dest: keepsD [OF assms(4)])
qed

section \<open>How often the condition is evaluated\<close>

text \<open>
  \<open>\<mu>\<close> counts evaluations: a step of the runtime leaves it alone, an evaluation adds at most one.
\<close>

lemma WaitFor_count:
  assumes "0 < interval" and "timeout \<noteq> 0"
    and ticks: "\<And>s s1. runtime_step s s1 \<Longrightarrow> \<mu> s1 = (\<mu> s :: nat)"
    and conds: "\<And>v s r s1. fn v s = Some (r, s1) \<Longrightarrow> \<mu> s1 \<le> Suc (\<mu> s)"
    and "WaitFor interval timeout t0 fn j v s = Some (r, s')"
  shows "\<mu> s' \<le> \<mu> s + Suc (nat (timeout div interval) - j)"
  using assms(5)
proof (induction "nat (timeout div interval) - j" arbitrary: j v s rule: less_induct)
  case less
  obtain opn k s1 where recv: "poller_recv interval timeout t0 j s = (opn, k, s1)"
    by (metis prod_cases3)
  obtain r2 s2 where fn: "fn v s1 = Some (r2, s2)"
    using less.prems by (subst (asm) WaitFor.simps) (auto simp: recv split: option.splits)
  have \<mu>2: "\<mu> s2 \<le> Suc (\<mu> s)"
    using conds [OF fn] ticks [OF poller_recv_runtime_step [OF assms(1) recv]] by simp
  show ?case
  proof (cases "opn \<and> (\<exists>v'. r2 = Ok (False, v'))")
    case True
    then obtain v' where r2: "r2 = Ok (False, v')" by blast
    have "poller_recv interval timeout t0 j s = (True, k, s1)" using recv True by simp
    note open_facts = poller_recv_open [OF this assms(2)]
    have le: "k \<le> nat (timeout div interval)" by (rule tick_bound [OF assms(1) open_facts(2)])
    have "WaitFor interval timeout t0 fn k v' s2 = Some (r, s')"
      using less.prems recv fn r2 True by (subst (asm) WaitFor.simps) simp
    then have "\<mu> s' \<le> \<mu> s2 + Suc (nat (timeout div interval) - k)"
      by (rule less.hyps [rotated]) (use le open_facts(1) in linarith)
    with le open_facts(1) \<mu>2 show ?thesis by linarith
  next
    case False
    then have "s' = s2"
      using less.prems recv fn
      by (subst (asm) WaitFor.simps) (auto split: outcome.splits prod.splits if_splits)
    with \<mu>2 show ?thesis by simp
  qed
qed

lemma PollImmediate_count:
  assumes "0 < interval" and "timeout \<noteq> 0"
    and ticks: "\<And>s s1. runtime_step s s1 \<Longrightarrow> \<mu> s1 = (\<mu> s :: nat)"
    and conds: "\<And>v s r s1. fn v s = Some (r, s1) \<Longrightarrow> \<mu> s1 \<le> Suc (\<mu> s)"
    and "PollImmediate interval timeout fn v s = Some (r, s')"
  shows "\<mu> s' \<le> \<mu> s + nat (timeout div interval) + 2"
  using assms(5) unfolding PollImmediate_def
proof (cases rule: go_bind_cases)
  case (ok x s1)
  then obtain dn v' where x: "x = (dn, v')" by (cases x)
  show ?thesis
  proof (cases dn)
    case False
    then have "WaitFor interval timeout (clock s1) fn 0 v' s1 = Some (r, s')"
      using ok(2) x by simp
    then have "\<mu> s' \<le> \<mu> s1 + Suc (nat (timeout div interval) - 0)"
      by (rule WaitFor_count [where \<mu> = \<mu>, rotated 4]) (use assms(1,2) ticks conds in auto)
    with conds [OF ok(1)] show ?thesis by simp
  qed (use ok x conds [OF ok(1)] in \<open>auto simp: go_simps\<close>)
qed (use conds in \<open>fastforce+\<close>)

section \<open>Progress\<close>

lemma poller_recv_clock:
  assumes recv: "poller_recv interval timeout t0 j s = (opn, k, s')"
    and "0 < interval" and "timeout \<noteq> 0" and "t0 + int j * interval \<le> clock s"
  shows "clock s \<le> clock s'" "clock s' \<le> clock s + interval" "t0 + int k * interval \<le> clock s'"
    "\<not> opn \<Longrightarrow> t0 + timeout \<le> clock s'" "opn \<Longrightarrow> clock s < clock s'"
proof -
  let ?q = "(clock s - t0) div interval"
  let ?k = "next_tick interval t0 j (clock s)"
  let ?tick = "t0 + int ?k * interval"
  have "int j * interval \<le> clock s - t0" using assms(4) by simp
  from zdiv_mono1 [OF this assms(2)] have "int j \<le> ?q" using assms(2) by simp
  then have k: "int ?k = ?q + 1" by (simp add: next_tick_def)
  have "?q * interval + (clock s - t0) mod interval = clock s - t0" by simp
  moreover have "0 \<le> (clock s - t0) mod interval" "(clock s - t0) mod interval < interval" using assms(2) by simp_all
  ultimately have "?q * interval \<le> clock s - t0" "clock s - t0 < ?q * interval + interval" by linarith+
  then have "clock s < ?tick" "?tick \<le> clock s + interval" by (simp_all add: k algebra_simps)
  with recv assms(4) show "clock s \<le> clock s'" "clock s' \<le> clock s + interval" "t0 + int k * interval \<le> clock s'"
    "\<not> opn \<Longrightarrow> t0 + timeout \<le> clock s'" "opn \<Longrightarrow> clock s < clock s'"
    using assms(3) next_tick_gt [of j interval t0 "clock s"] by (auto simp: poller_recv_def Let_def advance_to_def draw_def split: if_splits)
qed


text \<open>
  Progress: a condition that does not fail before \<open>l\<close>, takes at most \<open>dur\<close>, and holds from \<open>t\<close> on is
  seen to hold, if \<open>t\<close> is no later than the timeout and there is room for one more interval before \<open>l\<close>.
\<close>

definition settles :: "time \<Rightarrow> int \<Rightarrow> time \<Rightarrow> ('x clocked_scheme, 'v) condition \<Rightarrow> bool" where
  "settles t dur l fn \<longleftrightarrow> (\<forall>v s. clock s < l \<longrightarrow>
     (\<exists>d v' s'. fn v s = Some (Ok (d, v'), s') \<and> clock s \<le> clock s' \<and> clock s' \<le> clock s + dur \<and> (t \<le> clock s \<longrightarrow> d)))"

lemma WaitFor_settles:
  assumes "settles t dur l fn" and "0 < interval" and "timeout \<noteq> 0" and "t \<le> t0 + timeout"
    and "t + dur + interval \<le> l"
  shows "t0 + int j * interval \<le> clock s \<Longrightarrow> clock s < t + dur \<Longrightarrow> \<exists>v' s'. WaitFor interval timeout t0 fn j v s = Some (Ok v', s')"
proof (induction "nat (t + dur - clock s)" arbitrary: j v s rule: less_induct)
  case less
  obtain opn k s1 where recv: "poller_recv interval timeout t0 j s = (opn, k, s1)" by (metis prod_cases3)
  note recvd = poller_recv_clock [OF recv assms(2,3) less.prems(1)]
  have "clock s1 < l" using recvd(2) less.prems(2) assms(5) by simp
  then obtain d v1 s2 where fn: "fn v s1 = Some (Ok (d, v1), s2)" "clock s1 \<le> clock s2" "clock s2 \<le> clock s1 + dur"
    "t \<le> clock s1 \<longrightarrow> d"
    using assms(1) unfolding settles_def by metis
  show ?case
  proof (cases "d \<or> \<not> opn")
    case True
    then have d using recvd(4) fn(4) assms(4) by auto
    then show ?thesis by (subst WaitFor.simps) (simp add: recv fn(1))
  next
    case False
    then have "clock s1 < t" using fn(4) by auto
    moreover have "clock s < clock s2" using recvd(5) False fn(2) by simp
    ultimately have "\<exists>v' s'. WaitFor interval timeout t0 fn k v1 s2 = Some (Ok v', s')"
      using recvd(3) fn(2,3) less.prems(2) by (intro less.hyps) auto
    with False show ?thesis by (subst WaitFor.simps) (simp add: recv fn(1))
  qed
qed

lemma PollImmediate_settles:
  assumes "settles t dur l fn" and "0 < interval" and "timeout \<noteq> 0" and "t \<le> clock s + timeout"
    and "t + dur + interval \<le> l" and "clock s < l"
  shows "\<exists>v' s'. PollImmediate interval timeout fn v s = Some (Ok v', s')"
proof -
  from assms(1,6) obtain d v1 s1 where fn: "fn v s = Some (Ok (d, v1), s1)" "clock s \<le> clock s1" "clock s1 \<le> clock s + dur"
    "t \<le> clock s \<longrightarrow> d"
    unfolding settles_def by metis
  have "\<exists>v' s'. WaitFor interval timeout (clock s1) fn 0 v1 s1 = Some (Ok v', s')" if "\<not> d"
    using that fn(2-4) assms(4) by (intro WaitFor_settles [OF assms(1-3) _ assms(5)]) auto
  then show ?thesis
    by (simp add: PollImmediate_def go_bind_def fn(1) go_simps)
qed

end
