(* ===== verification/Errors.thy ===== *)
theory Errors
  imports Go_Prelude
begin

text \<open>
  Classification of errors: \<open>pkg/provisioner/errors.go\<close> with the two vendored functions it calls,
  \<open>errors.Cause\<close> (\<open>github.com/pkg/errors\<close>) and \<open>common.IsServiceError\<close> (the OCI SDK). Both
  provisioners decide with \<open>IsNotFound\<close> whether a failed deletion has to be retried.
\<close>

definition StatusNotFound :: int where "StatusNotFound = 404"
definition StatusOK :: int where "StatusOK = 200"

text \<open>The loop of \<open>errors.Cause\<close> peels the wrappers that have a \<open>Cause\<close> method.\<close>

fun Cause :: "error \<Rightarrow> error" where
  "Cause (WithMessage e m) = Cause e"
| "Cause (WithStack e) = Cause e"
| "Cause e = e"

definition IsServiceError :: "error \<Rightarrow> int option" where
  \<comment> \<open>the HTTP status code of the service error, if it is one\<close>
  "IsServiceError e = (case e of Servicefailure status code msg \<Rightarrow> Some status | _ \<Rightarrow> None)"

definition IsNotFound :: "error option \<Rightarrow> bool" where
  "IsNotFound err = (case err of
       None \<Rightarrow> False
     | Some e \<Rightarrow>
         (let c = Cause e in
          if c = ErrNotFound then True
          else case IsServiceError c of None \<Rightarrow> False | Some status \<Rightarrow> status = StatusNotFound))"

definition errors_Wrap :: "error \<Rightarrow> string \<Rightarrow> error" where
  "errors_Wrap e msg = WithStack (WithMessage e msg)"

lemma Cause_idem [simp]: "Cause (Cause e) = Cause e"
  by (induction e rule: Cause.induct) auto

lemma Cause_not_wrapper: "Cause e \<noteq> WithMessage e' m" "Cause e \<noteq> WithStack e'"
  by (induction e rule: Cause.induct) auto

lemma IsNotFound_Wrap [simp]: "IsNotFound (Some (errors_Wrap e msg)) = IsNotFound (Some e)"
  by (simp add: IsNotFound_def errors_Wrap_def)

lemma IsNotFound_iff:
  "IsNotFound (Some e) \<longleftrightarrow>
     Cause e = ErrNotFound \<or> (\<exists>code msg. Cause e = Servicefailure 404 code msg)"
  by (auto simp: IsNotFound_def IsServiceError_def StatusNotFound_def Let_def split: error.splits)

lemma IsNotFound_None [simp]: "\<not> IsNotFound None"
  by (simp add: IsNotFound_def)

end
