(* ===== verification/Client.thy ===== *)
theory Client
  imports Api_Types Config Polling Errors
begin

text \<open>
  The client interfaces of \<open>pkg/oci/client/client.go\<close> and the state of the running program.

  The OCI services and the instance metadata endpoint are parameters: an operation of a service is
  a function from the time of the request and the state of the cloud to its response, the time it
  takes and the next state of the cloud (\<open>api\<close>). The state of the program (\<open>world\<close>) holds the
  clock and the choices of the runtime, the environment variables, the configuration that
  \<open>CompartmentOCID\<close> completes on demand, the cloud, and the requests sent so far with their
  responses (\<open>events\<close>), in order. \<open>invoke\<close> sends one request.
\<close>

section \<open>The interfaces\<close>

type_synonym ('c, 'r) api = "time \<Rightarrow> 'c \<Rightarrow> 'r \<times> nat \<times> 'c"

record 'c BlockStorage =
  CreateVolume :: "ctx \<Rightarrow> CreateVolumeDetails \<Rightarrow> ('c, error + Volume) api"
  DeleteVolume :: "ctx \<Rightarrow> string option \<Rightarrow> ('c, DeleteVolumeResponse \<times> error option) api"
  GetVolume :: "ctx \<Rightarrow> string option \<Rightarrow> ('c, error + Volume) api"

record 'c Identity =
  ListAvailabilityDomains :: "ctx \<Rightarrow> string option \<Rightarrow> ('c, error + AvailabilityDomain list) api"

record 'c FSS =
  CreateFileSystem :: "ctx \<Rightarrow> CreateFileSystemDetails \<Rightarrow> ('c, error + FileSystem) api"
  GetFileSystem :: "ctx \<Rightarrow> string option \<Rightarrow> ('c, error + FileSystem) api"
  ListFileSystems :: "ctx \<Rightarrow> string option \<Rightarrow> string option \<Rightarrow> string option \<Rightarrow>
    ('c, error + FileSystemSummary list) api" \<comment> \<open>compartment, availability domain, display name\<close>
  DeleteFileSystem :: "ctx \<Rightarrow> string option \<Rightarrow> ('c, error option) api"
  CreateExport :: "ctx \<Rightarrow> CreateExportDetails \<Rightarrow> ('c, error + Export) api"
  ListExports :: "ctx \<Rightarrow> string option \<Rightarrow> string option \<Rightarrow> string option \<Rightarrow> string option \<Rightarrow>
    ('c, error + ListExportsResponse) api" \<comment> \<open>compartment, file system, export set, page\<close>
  GetExport :: "ctx \<Rightarrow> string option \<Rightarrow> ('c, error + Export) api"
  DeleteExport :: "ctx \<Rightarrow> string option \<Rightarrow> ('c, error option) api"
  GetMountTarget :: "ctx \<Rightarrow> string option \<Rightarrow> ('c, error + MountTarget) api"

record 'c VCN =
  GetPrivateIp :: "ctx \<Rightarrow> string option \<Rightarrow> ('c, error + PrivateIp) api"

text \<open>\<open>instancemeta.Interface\<close>: \<open>Get() (*InstanceMetadata, error)\<close>.\<close>

type_synonym 'c metadata_Interface = "('c, error + InstanceMetadata option) api"

section \<open>The state of the program\<close>

datatype call =
    CallCreateVolume CreateVolumeDetails "error + Volume"
  | CallDeleteVolume "string option" "DeleteVolumeResponse \<times> error option"
  | CallGetVolume "string option" "error + Volume"
  | CallListAvailabilityDomains "string option" "error + AvailabilityDomain list"
  | CallCreateFileSystem CreateFileSystemDetails "error + FileSystem"
  | CallGetFileSystem "string option" "error + FileSystem"
  | CallListFileSystems "string option" "string option" "string option" "error + FileSystemSummary list"
  | CallDeleteFileSystem "string option" "error option"
  | CallCreateExport CreateExportDetails "error + Export"
  | CallListExports "string option" "string option" "string option" "string option"
      "error + ListExportsResponse"
  | CallGetExport "string option" "error + Export"
  | CallDeleteExport "string option" "error option"
  | CallGetMountTarget "string option" "error + MountTarget"
  | CallGetPrivateIp "string option" "error + PrivateIp"
  | CallMetadata "error + InstanceMetadata option"

record event =
  evAt :: time \<comment> \<open>when the request is sent\<close>
  evCtx :: ctx \<comment> \<open>the context it is sent with\<close>
  evCall :: call

record 'c world = clocked +
  environ :: strmap
  config :: Config
  cloud :: 'c
  events :: "event list"

definition sent :: "ctx \<Rightarrow> call \<Rightarrow> nat \<Rightarrow> 'c \<Rightarrow> 'c world \<Rightarrow> 'c world" where
  \<comment> \<open>the state after a request that took \<open>d\<close> and left the cloud in state \<open>cl\<close>\<close>
  "sent c q d cl w = w\<lparr>clock := clock w + int d, cloud := cl,
     events := events w @ [\<lparr>evAt = clock w, evCtx = c, evCall = q\<rparr>]\<rparr>"

definition invoke :: "('r \<Rightarrow> call) \<Rightarrow> ctx \<Rightarrow> ('c, 'r) api \<Rightarrow> ('c world, 'r) go" where
  "invoke mk c f w =
     (case f (clock w) (cloud w) of (r, d, cl) \<Rightarrow> Some (Ok r, sent c (mk r) d cl w))"

definition LookupEnv :: "string \<Rightarrow> ('c world, string option) go" where
  "LookupEnv k = gets (\<lambda>w. environ w k)"

definition Getenv :: "string \<Rightarrow> ('c world, string) go" where
  "Getenv k = gets (\<lambda>w. case environ w k of None \<Rightarrow> [] | Some v \<Rightarrow> v)"

definition go_WithTimeout :: "ctx \<Rightarrow> duration \<Rightarrow> ('c world, ctx) go" where
  "go_WithTimeout c d = gets (\<lambda>w. WithTimeout c (clock w) d)"

section \<open>The provisioner's client\<close>

record 'c ProvisionerClient =
  pcBlockStorage :: "'c BlockStorage"
  pcIdentity :: "'c Identity"
  pcFSS :: "'c FSS"
  pcVCN :: "'c VCN"
  pcTimeout :: duration
  pcCompartmentOCID :: "('c world, string) go"
  pcTenancyOCID :: string

record 'c provisionerClient =
  cfgSet :: bool \<comment> \<open>\<open>p.cfg != nil\<close>; what it points to is the \<open>config\<close> of the state\<close>
  tenancyID :: string
  blockStorage :: "'c BlockStorage"
  identity :: "'c Identity"
  fileStorage :: "'c FSS"
  virtualNetwork :: "'c VCN"
  timeout :: duration
  metadata :: "InstanceMetadata option"

text \<open>
  \<open>CompartmentOCID\<close> completes \<open>p.cfg\<close> from the instance metadata the first time it is needed;
  without metadata it ends the process. A client without a configuration panics here.
\<close>

definition CompartmentOCID :: "'c provisionerClient \<Rightarrow> ('c world, string) go" where
  "CompartmentOCID p =
     go_bind (if cfgSet p then gets (\<lambda>w. cfgCompartmentOCID (config w)) else panics NilDereference) (\<lambda>ocid.
       if ocid = [] then
         (case metadata p of
            None \<Rightarrow> exits 1
          | Some md \<Rightarrow>
              go_bind (modifies (\<lambda>w. w\<lparr>config := (config w)\<lparr>cfgCompartmentOCID := mdCompartmentOCID md\<rparr>\<rparr>))
                (\<lambda>_. gets (\<lambda>w. cfgCompartmentOCID (config w))))
       else ret ocid)"

definition client_of :: "'c provisionerClient \<Rightarrow> 'c ProvisionerClient" where
  "client_of p = \<lparr>pcBlockStorage = blockStorage p, pcIdentity = identity p, pcFSS = fileStorage p,
     pcVCN = virtualNetwork p, pcTimeout = timeout p, pcCompartmentOCID = CompartmentOCID p,
     pcTenancyOCID = tenancyID p\<rparr>"

section \<open>What every operation keeps\<close>

text \<open>
  No operation takes back a request it has sent, sets the clock back or changes the environment.
\<close>

definition extends :: "'c world \<Rightarrow> 'c world \<Rightarrow> bool" where
  "extends w w' \<longleftrightarrow> (\<exists>es. events w' = events w @ es) \<and> clock w \<le> clock w' \<and> environ w' = environ w"

definition quiet :: "'c world \<Rightarrow> 'c world \<Rightarrow> bool" where
  \<comment> \<open>nothing was sent to the cloud\<close>
  "quiet w w' \<longleftrightarrow> events w' = events w \<and> cloud w' = cloud w \<and> environ w' = environ w"

interpretation ext: frame extends
  by unfold_locales (auto simp: extends_def)

interpretation qui: frame quiet
  by unfold_locales (auto simp: quiet_def)

lemma extends_runtime_step: "runtime_step w w' \<Longrightarrow> extends w w'"
  by (auto simp: runtime_step_def extends_def)

lemma quiet_runtime_step: "runtime_step w w' \<Longrightarrow> quiet w w'"
  by (auto simp: runtime_step_def quiet_def)

lemma extends_invoke [go_frame]: "keeps extends (invoke mk c f)"
  by (rule keepsI) (auto simp: invoke_def sent_def extends_def split: prod.splits)

lemma sent_simps [simp]:
  "clock (sent c q d cl w) = clock w + int d" "cloud (sent c q d cl w) = cl"
  "environ (sent c q d cl w) = environ w" "config (sent c q d cl w) = config w"
  "events (sent c q d cl w) = events w @ [\<lparr>evAt = clock w, evCtx = c, evCall = q\<rparr>]"
  by (simp_all add: sent_def)

lemma go_bind_invoke:
  "f (clock w) (cloud w) = (r, d, cl) \<Longrightarrow>
    go_bind (invoke mk c f) k w = k r (sent c (mk r) d cl w)"
  by (simp add: go_bind_def invoke_def)

lemma go_bind_env [go_simps]:
  "go_bind (go_WithTimeout c d) k w = k (WithTimeout c (clock w) d) w"
  "go_bind (LookupEnv x) g w = g (environ w x) w"
  "go_bind (Getenv x) h w = h (case environ w x of None \<Rightarrow> [] | Some v \<Rightarrow> v) w"
  by (simp_all add: go_WithTimeout_def LookupEnv_def Getenv_def go_simps)

lemma total_invoke [go_total]: "go_total (invoke mk c f)"
  by (simp add: go_total_def invoke_def split: prod.splits)

lemma frame_env [go_frame]:
  "keeps extends (LookupEnv k)" "keeps extends (Getenv k)" "keeps extends (go_WithTimeout c d)"
  "keeps quiet (LookupEnv k)" "keeps quiet (Getenv k)" "keeps quiet (go_WithTimeout c d)"
  by (simp_all add: LookupEnv_def Getenv_def go_WithTimeout_def ext.keeps_pure qui.keeps_pure)

lemma total_env [go_total]:
  "go_total (LookupEnv k)" "go_total (Getenv k)" "go_total (go_WithTimeout c d)"
  by (simp_all add: LookupEnv_def Getenv_def go_WithTimeout_def total_pure)

lemmas extends_PollImmediate [go_frame] =
  keeps_PollImmediate [OF ext.frame_axioms extends_runtime_step]

lemma extends_rand_Int [go_frame]: "keeps extends rand_Int"
  by (rule keepsI) (auto simp: rand_Int_def draw_def extends_def)

lemma extends_modify_config: "keeps extends (modifies (\<lambda>w. w\<lparr>config := f w\<rparr>))"
  by (rule keepsI) (auto simp: go_simps extends_def)

lemma quiet_modify_config: "keeps quiet (modifies (\<lambda>w. w\<lparr>config := f w\<rparr>))"
  by (rule keepsI) (auto simp: go_simps quiet_def)

lemma CompartmentOCID_frame:
  "keeps extends (CompartmentOCID p)" "keeps quiet (CompartmentOCID p)"
  unfolding CompartmentOCID_def
  by (intro ext.keeps_rules extends_modify_config | intro qui.keeps_rules quiet_modify_config)+

text \<open>
  What the provisioners rely on of a client: its \<open>CompartmentOCID\<close> sends no request and returns, and
  it has no error result.
\<close>

definition client_ok :: "'c ProvisionerClient \<Rightarrow> bool" where
  "client_ok c \<longleftrightarrow> keeps extends (pcCompartmentOCID c) \<and> keeps quiet (pcCompartmentOCID c) \<and>
     go_total (pcCompartmentOCID c) \<and> (\<forall>w e w'. pcCompartmentOCID c w \<noteq> Some (Err e, w'))"

lemma client_okD:
  assumes "client_ok c" and "pcCompartmentOCID c w = Some (r, w')"
  shows "events w' = events w" "cloud w' = cloud w" "environ w' = environ w" "clock w \<le> clock w'"
  using assms keepsD [of quiet "pcCompartmentOCID c" w r w'] keepsD [of extends "pcCompartmentOCID c" w r w']
  by (auto simp: client_ok_def quiet_def extends_def)

lemma CompartmentOCID_total [go_total]: "go_total (CompartmentOCID p)"
  unfolding CompartmentOCID_def by (intro go_total)

lemma CompartmentOCID_no_error: "CompartmentOCID p w \<noteq> Some (Err e, w')"
  by (simp add: CompartmentOCID_def go_simps split: option.split)

lemma client_ok_no_error: "client_ok c \<Longrightarrow> pcCompartmentOCID c w \<noteq> Some (Err e, w')"
  by (simp add: client_ok_def)

lemma client_of_ok [simp]: "client_ok (client_of p)"
  by (simp add: client_ok_def client_of_def CompartmentOCID_frame CompartmentOCID_total CompartmentOCID_no_error)

text \<open>Once the configuration names a compartment, \<open>CompartmentOCID\<close> reads it and nothing else.\<close>

lemma CompartmentOCID_configured:
  "cfgSet p \<Longrightarrow> cfgCompartmentOCID (config w) \<noteq> [] \<Longrightarrow> CompartmentOCID p w = Some (Ok (cfgCompartmentOCID (config w)), w)"
  by (simp add: CompartmentOCID_def go_simps)

section \<open>Requests of a call\<close>

definition new_events :: "'c world \<Rightarrow> 'c world \<Rightarrow> event list" where
  "new_events w w' = drop (length (events w)) (events w')"

lemma new_events_append: "events w' = events w @ es \<Longrightarrow> new_events w w' = es"
  by (simp add: new_events_def)

text \<open>\<open>sends n m\<close>: \<open>m\<close> sends at most \<open>n\<close> requests.\<close>

definition sends :: "nat \<Rightarrow> ('c world, 'a) go \<Rightarrow> bool" where
  "sends n m \<longleftrightarrow> (\<forall>w r w'. m w = Some (r, w') \<longrightarrow> length (events w') \<le> length (events w) + n)"

lemma sendsI: "(\<And>w r w'. m w = Some (r, w') \<Longrightarrow> length (events w') \<le> length (events w) + n) \<Longrightarrow> sends n m"
  by (auto simp: sends_def)

lemma sendsD: "sends n m \<Longrightarrow> m w = Some (r, w') \<Longrightarrow> length (events w') \<le> length (events w) + n"
  by (auto simp: sends_def)

lemma sends_mono: "sends n m \<Longrightarrow> n \<le> n' \<Longrightarrow> sends n' m"
  by (fastforce simp: sends_def)

lemma sends_quiet: "keeps quiet m \<Longrightarrow> sends 0 m"
  by (auto simp: sends_def quiet_def dest: keepsD)

lemma sends_invoke: "sends 1 (invoke mk c f)"
  by (auto simp: sends_def invoke_def split: prod.splits)

lemma sends_bind: "sends a m \<Longrightarrow> (\<And>x. sends b (f x)) \<Longrightarrow> sends (a + b) (go_bind m f)"
  by (rule sendsI, erule go_bind_cases) (force dest: sendsD)+

lemma sends_try: "sends a m \<Longrightarrow> (\<And>x. sends b (f x)) \<Longrightarrow> sends (a + b) (go_try m f)"
  by (rule sendsI, erule go_try_cases) (force dest: sendsD)+

lemma sends_max: "sends a m \<Longrightarrow> sends (max a b) m" "sends b m \<Longrightarrow> sends (max a b) m"
  by (erule sends_mono; simp)+

lemma sends_if: "sends a m \<Longrightarrow> sends b m' \<Longrightarrow> sends (max a b) (if c then m else m')"
  by (simp add: sends_max)

lemma sends_option:
  "sends a m \<Longrightarrow> (\<And>x. sends b (f x)) \<Longrightarrow> sends (max a b) (case p of None \<Rightarrow> m | Some x \<Rightarrow> f x)"
  by (cases p) (simp_all add: sends_max)

lemma sends_sum:
  "(\<And>x. sends a (f x)) \<Longrightarrow> (\<And>x. sends b (g x)) \<Longrightarrow>
    sends (max a b) (case p of Inl x \<Rightarrow> f x | Inr x \<Rightarrow> g x)"
  by (cases p) (simp_all add: sends_max)

lemma sends_prod: "(\<And>x y. sends a (f x y)) \<Longrightarrow> sends a (case p of (x, y) \<Rightarrow> f x y)"
  by (cases p) simp

lemmas sends_pure = qui.keeps_pure [THEN sends_quiet] qui.keeps_deref [THEN sends_quiet]
  qui.keeps_of_result [THEN sends_quiet] qui.keeps_index [THEN sends_quiet] frame_env(4-6) [THEN sends_quiet]

lemmas sends_rules = sends_pure sends_invoke sends_bind sends_try sends_if sends_option sends_sum sends_prod

end
