(* ===== verification/Plugin.thy ===== *)
theory Plugin
  imports Client
begin

text \<open>
  What the two storage provisioners share: the constants and the \<open>ProvisionerPlugin\<close> interface of
  \<open>pkg/provisioner/plugin/plugin.go\<close> and \<open>GetPrefix\<close> of \<open>pkg/provisioner/utils.go\<close>. The contract
  that the core provisioner relies on is the locale \<open>provisioner_plugin\<close>; the block provisioner and
  the file system provisioner interpret it in their own theories.
\<close>

abbreviation OCIProvisionerName :: string where "OCIProvisionerName \<equiv> ''oracle/oci''"
abbreviation LabelZoneFailureDomain :: string where
  "LabelZoneFailureDomain \<equiv> ''failure-domain.beta.kubernetes.io/zone''"
abbreviation LabelZoneRegion :: string where
  "LabelZoneRegion \<equiv> ''failure-domain.beta.kubernetes.io/region''"

record 'c ProvisionerPlugin =
  plProvision :: "VolumeOptions \<Rightarrow> AvailabilityDomain \<Rightarrow> ('c world, PersistentVolume) go"
  plDelete :: "PersistentVolume \<Rightarrow> ('c world, unit) go"

definition GetPrefix :: "('c world, string) go" where
  "GetPrefix =
     go_bind (Getenv ''OCI_VOLUME_NAME_PREFIX'') (\<lambda>v.
       let prefix = TrimSpace v in
       ret (if prefix \<noteq> [] \<and> \<not> HasSuffix prefix ''-'' then prefix @ ''-'' else prefix))"

lemma GetPrefix_frame [go_frame]: "keeps extends GetPrefix" "keeps quiet GetPrefix"
  unfolding GetPrefix_def Let_def
  by (intro ext.keeps_rules go_frame | intro qui.keeps_rules go_frame)+

lemma GetPrefix_total [go_total]: "go_total GetPrefix"
  unfolding GetPrefix_def Let_def by (intro go_total)

lemma GetPrefix_run:
  obtains p where "GetPrefix w = Some (Ok p, w)" and "p = [] \<or> HasSuffix p ''-''"
  by (rule that [of "(let prefix = TrimSpace (case environ w ''OCI_VOLUME_NAME_PREFIX'' of None \<Rightarrow> [] | Some v \<Rightarrow> v)
        in if prefix \<noteq> [] \<and> \<not> HasSuffix prefix ''-'' then prefix @ ''-'' else prefix)"])
    (auto simp: GetPrefix_def Getenv_def go_simps Let_def)

lemma GetPrefix_unset: "environ w ''OCI_VOLUME_NAME_PREFIX'' = None \<Longrightarrow> GetPrefix w = Some (Ok [], w)"
  by (simp add: GetPrefix_def go_simps)

section \<open>The contract of a plugin\<close>

text \<open>
  \<open>keys\<close> are the annotations that the plugin writes on a volume and reads back when it deletes it.
  A plugin returns volumes with maps that can be written, with the availability domain and the
  region it was given, and \<open>Delete\<close> looks at nothing of a volume but those annotations.
\<close>

locale provisioner_plugin =
  fixes provision :: "VolumeOptions \<Rightarrow> AvailabilityDomain \<Rightarrow> ('c world, PersistentVolume) go"
    and delete :: "PersistentVolume \<Rightarrow> ('c world, unit) go"
    and keys :: "string set"
  assumes provision_extends: "keeps extends (provision opts ad)"
    and delete_extends: "keeps extends (delete pv)"
    and provision_maps: "provision opts ad w = Some (Ok pv, w') \<Longrightarrow>
      (\<exists>a. pvAnnotations pv = Some a \<and> keys \<subseteq> dom a) \<and> pvLabels pv \<noteq> None"
    and delete_cong: "(\<And>k. k \<in> keys \<Longrightarrow> map_get (pvAnnotations pv) k = map_get (pvAnnotations pv') k) \<Longrightarrow>
      delete pv = delete pv'"

end
