(* ===== verification/Lifecycle.thy ===== *)
theory Lifecycle
  imports Client
begin

text \<open>
  Waiting for a cloud resource. Four functions of the provisioners poll a resource until it is
  usable: \<open>waitForVolumeAvailable\<close>, \<open>awaitFileSystem\<close>, \<open>awaitMountTarget\<close> and \<open>awaitExport\<close>.
  Each passes \<open>PollImmediate\<close> a condition that sends one request and reads the life-cycle state of
  the answer. The locale states what such a condition does; its lemmas say what the whole wait does,
  once for all four.
\<close>

text \<open>
  \<open>polled P w u\<close>: from \<open>w\<close> to \<open>u\<close> only requests in \<open>P\<close> were sent. \<open>poll_end P G w r u\<close>: at least
  one was, and if the wait ended with a value, \<open>G\<close> holds of it and of the last request.
\<close>

definition polled :: "(event \<Rightarrow> bool) \<Rightarrow> 'c world \<Rightarrow> 'c world \<Rightarrow> bool" where
  "polled P w u \<longleftrightarrow>
     (\<exists>es. events u = events w @ es \<and> (\<forall>x \<in> set es. P x) \<and> config u = config w)"

definition poll_end ::
  "(event \<Rightarrow> bool) \<Rightarrow> ('v \<Rightarrow> event \<Rightarrow> bool) \<Rightarrow> 'c world \<Rightarrow> 'v outcome \<Rightarrow> 'c world \<Rightarrow> bool" where
  "poll_end P G w r u \<longleftrightarrow>
     (\<exists>es e. events u = events w @ es @ [e] \<and> (\<forall>x \<in> set (es @ [e]). P x) \<and>
        config u = config w \<and> (\<forall>v'. r = Ok v' \<longrightarrow> G v' e))"

lemma polled_runtime_step: "polled P w u \<Longrightarrow> runtime_step u u' \<Longrightarrow> polled P w u'"
  by (auto simp: polled_def runtime_step_def)

lemma poll_end_polled: "poll_end P G w r u \<Longrightarrow> polled P w u"
  unfolding poll_end_def polled_def by blast

text \<open>
  The shape of the conditions: one request, an error of which is returned, and a decision on the
  answer that sends nothing.
\<close>

lemma condition_one_request:
  assumes run: "go_bind (invoke mk ctx f) (\<lambda>res. go_bind (of_result res) k) w = Some (r, w')"
    and pure: "\<And>x w r w'. k x w = Some (r, w') \<Longrightarrow> w' = w"
    and poll: "\<And>res e. evCall e = mk res \<Longrightarrow> is_poll e"
    and good: "\<And>x w w' v e. k x w = Some (Ok (True, v), w') \<Longrightarrow> evCall e = mk (Inr x) \<Longrightarrow> good v e"
  shows "\<exists>e. events w' = events w @ [e] \<and> is_poll e \<and> clock w \<le> evAt e \<and> evAt e \<le> clock w' \<and>
    environ w' = environ w \<and> config w' = config w \<and> (\<forall>v. r = Ok (True, v) \<longrightarrow> good v e)"
proof -
  obtain res d cl where api: "f (clock w) (cloud w) = (res, d, cl)" by (metis prod_cases3)
  let ?e = "\<lparr>evAt = clock w, evCtx = ctx, evCall = mk res\<rparr>"
  have step: "go_bind (of_result res) k (sent ctx (mk res) d cl w) = Some (r, w')"
    using run by (simp add: go_bind_invoke [of f, OF api])
  have "w' = sent ctx (mk res) d cl w" and "\<forall>v. r = Ok (True, v) \<longrightarrow> good v ?e"
    using step pure good by (cases res; fastforce simp: go_simps)+
  then show ?thesis using poll [of ?e res] by (intro exI [of _ ?e]) simp
qed

locale lifecycle_poll =
  fixes cond :: "'v \<Rightarrow> ('c world, bool \<times> 'v) go"
    and is_poll :: "event \<Rightarrow> bool"
    and good :: "'v \<Rightarrow> event \<Rightarrow> bool"
  assumes cond_one: "cond v w = Some (r, w') \<Longrightarrow>
      \<exists>e. events w' = events w @ [e] \<and> is_poll e \<and> clock w \<le> evAt e \<and> evAt e \<le> clock w' \<and>
        environ w' = environ w \<and> config w' = config w \<and> (\<forall>v'. r = Ok (True, v') \<longrightarrow> good v' e)"
    and cond_total: "go_total (cond v)"
begin

lemma poll_total: "0 < interval \<Longrightarrow> tmo \<noteq> 0 \<Longrightarrow> go_total (PollImmediate interval tmo cond v)"
  by (rule PollImmediate_total [OF _ _ cond_total])

lemma cond_extends: "keeps extends (cond v)"
  by (rule keepsI) (use cond_one in \<open>fastforce simp: extends_def\<close>)

lemma poll_extends: "0 < interval \<Longrightarrow> keeps extends (PollImmediate interval tmo cond v)"
  by (rule extends_PollImmediate [OF _ _ cond_extends])

text \<open>
  Every request of the wait is a poll; if the wait succeeds, the last answer shows a usable resource.
\<close>

lemma cond_poll_end:
  assumes "polled is_poll w u" and "cond v u = Some (r, u')"
    and "\<And>v'. r' = Ok v' \<Longrightarrow> r = Ok (True, v')"
  shows "poll_end is_poll good w r' u'"
proof -
  from assms(1) obtain es where es: "events u = events w @ es" "\<forall>x \<in> set es. is_poll x" "config u = config w"
    unfolding polled_def by blast
  from cond_one [OF assms(2)] obtain e where e: "events u' = events u @ [e]" "is_poll e"
    "config u' = config u" "\<forall>v'. r = Ok (True, v') \<longrightarrow> good v' e" by blast
  show ?thesis
    unfolding poll_end_def by (rule exI [of _ es], rule exI [of _ e]) (use es e assms(3) in auto)
qed

lemma poll_events:
  assumes run: "PollImmediate interval tmo cond v w = Some (r, w')" and "0 < interval"
  shows "poll_end is_poll good w r w'"
proof (rule PollImmediate_rule [OF run assms(2), where I = "\<lambda>_. polled is_poll w" and Q = "poll_end is_poll good w"])
  show "polled is_poll w w" by (simp add: polled_def)
next
  fix v0 u u1 assume "polled is_poll w u" and "runtime_step u u1"
  then show "polled is_poll w u1" by (rule polled_runtime_step)
next
  fix v0 u r0 u1 assume I: "polled is_poll w u" and c: "cond v0 u = Some (r0, u1)"
  have "polled is_poll w u1"
    by (rule poll_end_polled [OF cond_poll_end [OF I c, of "Err ErrWaitTimeout"]]) simp
  then show "cond_ends (poll_end is_poll good w) (\<lambda>_. polled is_poll w) r0 u1"
    using cond_poll_end [OF I c] by (auto simp: cond_ends_def split: outcome.split prod.split)
next
  fix v0 u0 v1 t v2 u v3 u1
  assume "polled is_poll w u" and "cond v2 u = Some (Ok (False, v3), u1)"
  then show "poll_end is_poll good w (Err ErrWaitTimeout) u1" by (rule cond_poll_end) simp
qed

lemma poll_bound:
  assumes run: "PollImmediate interval tmo cond v w = Some (r, w')" and "0 < interval" and "tmo \<noteq> 0"
  shows "length (events w') \<le> length (events w) + nat (tmo div interval) + 2"
proof (rule PollImmediate_count [where \<mu> = "\<lambda>w. length (events w)", OF assms(2,3) _ _ run])
  show "length (events s1) = length (events s)" if "runtime_step s s1" for s s1 :: "'c world"
    using that by (auto simp: runtime_step_def)
  show "length (events s1) \<le> Suc (length (events s))" if "cond v s = Some (r, s1)" for v s r s1
    using cond_one [OF that] by auto
qed

end

text \<open>
  When the condition never fails with \<open>ErrWaitTimeout\<close> itself, that error means that the wait lasted
  for the whole timeout.
\<close>

locale lifecycle_wait = lifecycle_poll +
  assumes cond_err: "cond v w = Some (Err e, w') \<Longrightarrow> e \<noteq> ErrWaitTimeout"
begin

lemma timeout_clock:
  assumes run: "PollImmediate interval tmo cond v w = Some (r, w')" and "0 < interval"
    and "r = Err ErrWaitTimeout"
  shows "clock w + tmo \<le> clock w'"
proof -
  have mono: "clock u \<le> clock u'" if "cond v u = Some (r, u')" for v u r u'
    using cond_one [OF that] by force
  have "r = Err ErrWaitTimeout \<longrightarrow> clock w + tmo \<le> clock w'"
  proof (rule PollImmediate_rule [OF run assms(2), where I = "\<lambda>_ u. clock w \<le> clock u"
        and Q = "\<lambda>r u. r = Err ErrWaitTimeout \<longrightarrow> clock w + tmo \<le> clock u"])
    fix v0 u r0 u1 assume I: "clock w \<le> clock u" and c: "cond v0 u = Some (r0, u1)"
    show "cond_ends (\<lambda>r u. r = Err ErrWaitTimeout \<longrightarrow> clock w + tmo \<le> clock u)
        (\<lambda>_ u. clock w \<le> clock u) r0 u1"
      using I mono [OF c] cond_err [of v0 u _ u1] c
      by (auto simp: cond_ends_def split: outcome.split prod.split)
  next
    fix v0 u0 v1 t v2 u v3 u1
    assume "clock w \<le> clock u0" "cond v0 u0 = Some (Ok (False, v1), t)" "clock t + tmo \<le> clock u"
      "cond v2 u = Some (Ok (False, v3), u1)"
    then show "Err ErrWaitTimeout = Err ErrWaitTimeout \<longrightarrow> clock w + tmo \<le> clock u1"
      using mono [of v0 u0] mono [of v2 u] by fastforce
  qed (auto simp: runtime_step_def)
  with assms(3) show ?thesis by simp
qed

end

end
