(* ===== verification/Mocks.thy ===== *)
theory Mocks
  imports Client
begin

text \<open>
  The mock clients of \<open>pkg/provisioner/mock_interfaces.go\<close> and of
  \<open>pkg/oci/instancemeta/instance_metadata_mock.go\<close>. They are the cloud in which the concrete runs of
  this development take place: every mock answers at once and leaves the cloud as it is.
\<close>

definition answers :: "'r \<Rightarrow> ('c, 'r) api" where
  "answers r _ c = (r, 0, c)"

abbreviation VolumeBackupID :: string where "VolumeBackupID \<equiv> ''dummyVolumeBackupId''"
abbreviation mockFileSystemID :: string where "mockFileSystemID \<equiv> ''dummyFileSystemId''"
abbreviation mockExportID :: string where "mockExportID \<equiv> ''dummyExportID''"
abbreviation mockExportSetID :: string where "mockExportSetID \<equiv> ''dummyExportSetID''"
abbreviation CreatedMountTargetID :: string where "CreatedMountTargetID \<equiv> ''dummyCreatedMountTargetID''"
abbreviation ServerIPs :: "string list" where "ServerIPs \<equiv> [''dummyServerIP'']"
abbreviation mockPrivateIP :: string where "mockPrivateIP \<equiv> ''127.0.0.1''"

definition MockBlockStorageClient :: "string \<Rightarrow> 'c BlockStorage" where
  "MockBlockStorageClient VolumeState =
     \<lparr>CreateVolume = (\<lambda>ctx details. answers (Inr \<lparr>volId = Some VolumeBackupID, volLifecycleState = []\<rparr>)),
      DeleteVolume = (\<lambda>ctx volumeId. answers (\<lparr>dvRawResponse = None\<rparr>, None)),
      GetVolume = (\<lambda>ctx volumeId. answers (Inr \<lparr>volId = None, volLifecycleState = VolumeState\<rparr>))\<rparr>"

definition MockFileStorageClient :: "'c FSS" where
  "MockFileStorageClient =
     \<lparr>CreateFileSystem = (\<lambda>ctx details. answers (Inr \<lparr>fsId = Some mockFileSystemID, fsLifecycleState = []\<rparr>)),
      GetFileSystem = (\<lambda>ctx fileSystemId. answers (Inr \<lparr>fsId = fileSystemId, fsLifecycleState = ''ACTIVE''\<rparr>)),
      ListFileSystems = (\<lambda>ctx compartmentId availabilityDomain displayName. answers (Inr
        [\<lparr>fssumId = Some mockFileSystemID, fssumDisplayName = displayName, fssumLifecycleState = ''ACTIVE''\<rparr>])),
      DeleteFileSystem = (\<lambda>ctx fileSystemId. answers None),
      CreateExport = (\<lambda>ctx details. answers (Inr \<lparr>exId = Some mockExportID, exFileSystemId = None,
        exExportSetId = None, exPath = None, exLifecycleState = []\<rparr>)),
      ListExports = (\<lambda>ctx compartmentId fileSystemId exportSetId page. answers (Inr
        \<lparr>leItems = [\<lparr>exsId = Some mockExportID, exsExportSetId = exportSetId,
           exsFileSystemId = fileSystemId, exsLifecycleState = ''ACTIVE''\<rparr>], leOpcNextPage = None\<rparr>)),
      GetExport = (\<lambda>ctx exportId. answers (Inr \<lparr>exId = Some mockExportID, exFileSystemId = Some mockFileSystemID,
        exExportSetId = Some mockExportSetID, exPath = Some (''/'' @ mockFileSystemID), exLifecycleState = ''ACTIVE''\<rparr>)),
      DeleteExport = (\<lambda>ctx exportId. answers None),
      GetMountTarget = (\<lambda>ctx mountTargetId. answers (Inr \<lparr>mtId = Some CreatedMountTargetID,
        mtPrivateIpIds = ServerIPs, mtExportSetId = Some mockExportSetID, mtLifecycleState = ''ACTIVE''\<rparr>))\<rparr>"

definition MockVirtualNetworkClient :: "'c VCN" where
  "MockVirtualNetworkClient =
     \<lparr>GetPrivateIp = (\<lambda>ctx privateIpId. answers (Inr \<lparr>ipAddress = Some mockPrivateIP\<rparr>))\<rparr>"

definition MockIdentityClient :: "'c Identity" where
  "MockIdentityClient = \<lparr>ListAvailabilityDomains = (\<lambda>ctx compartmentId. answers (Inr []))\<rparr>"

definition MockProvisionerClient :: "'c BlockStorage \<Rightarrow> 'c ProvisionerClient" where
  "MockProvisionerClient Storage =
     \<lparr>pcBlockStorage = Storage, pcIdentity = MockIdentityClient, pcFSS = MockFileStorageClient,
      pcVCN = MockVirtualNetworkClient, pcTimeout = 30 * Second, pcCompartmentOCID = ret [],
      pcTenancyOCID = ''ocid1.tenancy.oc1..aaaaaaaaaaaaaaaaaaaaaaaaaaaaaaaaaaaaaaaaaaaaaaaaaaaaaaaaaaaa''\<rparr>"

definition NewClientProvisioner :: "'c ProvisionerClient option \<Rightarrow> 'c BlockStorage \<Rightarrow> 'c ProvisionerClient" where
  "NewClientProvisioner pcData storage = MockProvisionerClient storage"

definition NewMock :: "InstanceMetadata option \<Rightarrow> 'c metadata_Interface" where
  "NewMock md = answers (Inr md)"

text \<open>A state in which nothing has been sent, for the concrete runs.\<close>

definition initial :: "strmap \<Rightarrow> unit world" where
  "initial env = \<lparr>clock = 0, choices = (\<lambda>_. 0), environ = env, config = zeroConfig, cloud = (), events = []\<rparr>"

lemma initial_simps [simp]:
  "clock (initial env) = 0" "environ (initial env) = env" "events (initial env) = []"
  "cloud (initial env) = ()" "config (initial env) = zeroConfig"
  by (simp_all add: initial_def)

lemma answers_apply [simp]: "answers r t c = (r, 0, c)"
  by (simp add: answers_def)

lemma mock_client_ok [simp]: "client_ok (MockProvisionerClient s)"
  by (simp add: client_ok_def MockProvisionerClient_def ext.keeps_pure qui.keeps_pure total_pure go_simps)

text \<open>The definitions that a concrete run unfolds.\<close>

lemmas mock_defs = MockProvisionerClient_def MockBlockStorageClient_def MockFileStorageClient_def
  MockVirtualNetworkClient_def MockIdentityClient_def NewMock_def

lemma bind_answers [go_simps]:
  "go_bind (invoke mk c (answers r)) k w = k r (sent c (mk r) 0 (cloud w) w)"
  by (simp add: go_bind_def invoke_def)

section \<open>Claims of the concrete runs\<close>

text \<open>The values of the unit tests of the provisioners (\<open>block_test.go\<close>, \<open>fss_test.go\<close>).\<close>

definition GiB :: "int \<Rightarrow> Quantity" where
  "GiB n = NewQuantity (n * 1024 ^ 3) ''BinarySI''"

definition defaultAD :: AvailabilityDomain where
  "defaultAD = \<lparr>adName = Some ''PHX-AD-1'', adCompartmentId = Some ''ocid1.compartment.oc1''\<rparr>"

definition claim :: "string list \<Rightarrow> int \<Rightarrow> strmap \<Rightarrow> VolumeOptions" where
  "claim modes n annotations =
     \<lparr>optReclaimPolicy = ''Delete'', optPVName = ''dummyVolumeOptions'', optMountOptions = [],
      optPVC = Some \<lparr>pvcName = ''claim'', pvcUID = ''uid'', pvcAnnotations = annotations,
        pvcSelector = None, pvcAccessModes = modes, pvcRequests = [ResourceStorage \<mapsto> GiB n]\<rparr>,
      optParameters = Map.empty\<rparr>"

end
