(* ===== verification/Block.thy ===== *)
theory Block
  imports Plugin Lifecycle Mocks
begin

text \<open>
  The block volume provisioner, \<open>pkg/provisioner/block/block.go\<close>: sizing, creation with a wait for
  the volume to become available and a clean-up when it does not, and deletion.
\<close>

section \<open>Definitions\<close>

abbreviation OCIVolumeID :: string where "OCIVolumeID \<equiv> ''ociVolumeID''"
abbreviation OCIVolumeBackupID :: string where
  "OCIVolumeBackupID \<equiv> ''volume.beta.kubernetes.io/oci-volume-source''"
abbreviation FSType :: string where "FSType \<equiv> ''fsType''"
abbreviation volumeRoundingUpEnabled :: string where
  "volumeRoundingUpEnabled \<equiv> ''volumeRoundingUpEnabled''"

abbreviation VolumeLifecycleStateAvailable :: string where "VolumeLifecycleStateAvailable \<equiv> ''AVAILABLE''"
abbreviation VolumeLifecycleStateFaulty :: string where "VolumeLifecycleStateFaulty \<equiv> ''FAULTY''"
abbreviation VolumeLifecycleStateTerminated :: string where "VolumeLifecycleStateTerminated \<equiv> ''TERMINATED''"
abbreviation VolumeLifecycleStateTerminating :: string where "VolumeLifecycleStateTerminating \<equiv> ''TERMINATING''"

record 'c blockProvisioner =
  bpClient :: "'c ProvisionerClient"
  bpMetadata :: "'c metadata_Interface"
  bpVolumeRoundingEnabled :: bool
  bpMinVolumeSize :: Quantity
  bpTimeout :: duration

definition mapVolumeIDToName :: "string \<Rightarrow> ('s, string) go" where
  "mapVolumeIDToName volumeID = index (Split volumeID (CHR ''.'')) 4"

definition resolveFSType :: "VolumeOptions \<Rightarrow> string" where
  "resolveFSType options = (case optParameters options FSType of None \<Rightarrow> ''ext4'' | Some fs \<Rightarrow> fs)"

definition roundUpSize :: "int64 \<Rightarrow> int64 \<Rightarrow> int64" where
  "roundUpSize volumeSizeBytes allocationUnitBytes =
     quo64 (wrap64 (wrap64 (volumeSizeBytes + allocationUnitBytes) - 1)) allocationUnitBytes"

abbreviation MiB :: int where "MiB \<equiv> 1024 * 1024"

definition isVolumeReady :: "'c blockProvisioner \<Rightarrow> ctx \<Rightarrow> string option \<Rightarrow> ('c world, bool) go" where
  "isVolumeReady block ctx volumeID =
     go_bind (go_WithTimeout ctx (pcTimeout (bpClient block))) (\<lambda>ctx'.
     go_bind (invoke (CallGetVolume volumeID) ctx'
       (GetVolume (pcBlockStorage (bpClient block)) ctx' volumeID)) (\<lambda>r.
     go_bind (of_result r) (\<lambda>vol.
       let state = volLifecycleState vol in
       if state = VolumeLifecycleStateAvailable then ret True
       else if state = VolumeLifecycleStateFaulty \<or> state = VolumeLifecycleStateTerminated \<or>
         state = VolumeLifecycleStateTerminating
       then fail (Errorf ''volume has lifecycle state %q'' [FmtS state])
       else ret False)))"

definition volume_condition ::
  "'c blockProvisioner \<Rightarrow> ctx \<Rightarrow> string option \<Rightarrow> unit \<Rightarrow> ('c world, bool \<times> unit) go" where
  "volume_condition block ctx volumeID _ =
     go_try (isVolumeReady block ctx volumeID) (\<lambda>r.
       case r of
         Inl e \<Rightarrow> go_bind (deref volumeID) (\<lambda>id.
           fail (Errorf ''failed to provision volume %q: %v'' [FmtS id, FmtE e]))
       | Inr ready \<Rightarrow> ret (ready, ()))"

definition waitForVolumeAvailable ::
  "'c blockProvisioner \<Rightarrow> ctx \<Rightarrow> string option \<Rightarrow> duration \<Rightarrow> ('c world, unit) go" where
  "waitForVolumeAvailable block ctx volumeID tmo =
     PollImmediate (Second * 5) tmo (volume_condition block ctx volumeID) ()"

definition volumeRoundingEnabled :: "strmap \<Rightarrow> bool" where
  "volumeRoundingEnabled param =
     (case param volumeRoundingUpEnabled of
        None \<Rightarrow> True
      | Some s \<Rightarrow> (case ParseBool s of None \<Rightarrow> True | Some enabled \<Rightarrow> enabled))"

text \<open>Size in MiB to request, and capacity to record, for a requested capacity.\<close>

definition block_sizing :: "'c blockProvisioner \<Rightarrow> strmap \<Rightarrow> Quantity \<Rightarrow> int64 \<times> Quantity" where
  "block_sizing block params capacity =
     (if volumeRoundingEnabled params \<and> bpVolumeRoundingEnabled block \<and>
         Quantity_Cmp (bpMinVolumeSize block) capacity = 1
      then (roundUpSize (Value (bpMinVolumeSize block)) MiB, bpMinVolumeSize block)
      else (roundUpSize (Value capacity) MiB, capacity))"

text \<open>Creation of the volume and the wait for it: the identifier of an available volume.\<close>

definition block_create ::
  "'c blockProvisioner \<Rightarrow> CreateVolumeDetails \<Rightarrow> ('c world, string) go" where
  "block_create block volumeDetails =
     go_bind (go_WithTimeout Background (pcTimeout (bpClient block))) (\<lambda>ctx.
     go_bind (invoke (CallCreateVolume volumeDetails) ctx
       (CreateVolume (pcBlockStorage (bpClient block)) ctx volumeDetails)) (\<lambda>r.
     go_bind (of_result r) (\<lambda>newVolume.
     go_bind (deref (volId newVolume)) (\<lambda>id.
     go_try (waitForVolumeAvailable block ctx (volId newVolume) (bpTimeout block)) (\<lambda>waited.
       case waited of
         Inl err \<Rightarrow>
           go_bind (go_WithTimeout ctx (pcTimeout (bpClient block))) (\<lambda>ctx'.
           go_bind (invoke (CallDeleteVolume (volId newVolume)) ctx'
             (DeleteVolume (pcBlockStorage (bpClient block)) ctx' (volId newVolume))) (\<lambda>_.
           fail err))
       | Inr _ \<Rightarrow> ret id)))))"

definition block_region :: "'c blockProvisioner \<Rightarrow> ('c world, string) go" where
  "block_region block =
     go_bind (LookupEnv ''OCI_SHORT_REGION'') (\<lambda>region.
       case region of
         Some r \<Rightarrow> ret r
       | None \<Rightarrow>
           go_bind (invoke CallMetadata Background (bpMetadata block)) (\<lambda>r.
           go_bind (of_result r) (\<lambda>md.
           go_bind (deref md) (\<lambda>m. ret (mdRegion m)))))"

text \<open>The details of the volume to create, and the persistent volume that describes it.\<close>

definition volumeDetails ::
  "PersistentVolumeClaim \<Rightarrow> AvailabilityDomain \<Rightarrow> string \<Rightarrow> string \<Rightarrow> int64 \<Rightarrow> CreateVolumeDetails" where
  "volumeDetails pvc ad compartment pfx volSizeMB =
     \<lparr>cvdAvailabilityDomain = adName ad, cvdCompartmentId = Some compartment,
      cvdDisplayName = Some (pfx @ pvcName pvc), cvdSizeInMBs = Some volSizeMB,
      cvdSourceDetails = pvcAnnotations pvc OCIVolumeBackupID\<rparr>"

definition block_pv ::
  "VolumeOptions \<Rightarrow> PersistentVolumeClaim \<Rightarrow> string \<Rightarrow> Quantity \<Rightarrow> string \<Rightarrow> string \<Rightarrow> PersistentVolume" where
  "block_pv options pvc ad_name capacity ocid region =
     \<lparr>pvName = ocid,
      pvAnnotations = Some [OCIVolumeID \<mapsto> ocid],
      pvLabels = Some [LabelZoneRegion \<mapsto> region, LabelZoneFailureDomain \<mapsto> ad_name],
      pvReclaimPolicy = optReclaimPolicy options,
      pvAccessModes = pvcAccessModes pvc,
      pvCapacity = [ResourceStorage \<mapsto> capacity],
      pvSource = FlexVolume OCIProvisionerName (resolveFSType options),
      pvMountOptions = optMountOptions options\<rparr>"

definition block_Provision ::
  "'c blockProvisioner \<Rightarrow> VolumeOptions \<Rightarrow> AvailabilityDomain \<Rightarrow> ('c world, PersistentVolume) go" where
  "block_Provision block options ad =
     go_bind (deref (optPVC options)) (\<lambda>pvc.
     case find (\<lambda>m. m \<noteq> ReadWriteOnce) (pvcAccessModes pvc) of
       Some m \<Rightarrow> fail (Errorf ''invalid access mode %v specified. Only %v is supported''
         [FmtS m, FmtS ReadWriteOnce])
     | None \<Rightarrow>
     (case pvcRequests pvc ResourceStorage of
       None \<Rightarrow> fail (Errorf ''could not determine volume size for PVC'' [])
     | Some requested \<Rightarrow>
     go_bind (deref (adName ad)) (\<lambda>ad_name.
     case block_sizing block (optParameters options) requested of (volSizeMB, capacity) \<Rightarrow>
     go_bind (pcCompartmentOCID (bpClient block)) (\<lambda>compartment.
     go_bind GetPrefix (\<lambda>pfx.
     go_bind (block_create block (volumeDetails pvc ad compartment pfx volSizeMB)) (\<lambda>ocid.
     go_bind (block_region block) (\<lambda>region.
     ret (block_pv options pvc ad_name capacity ocid region))))))))"

definition block_Delete :: "'c blockProvisioner \<Rightarrow> PersistentVolume \<Rightarrow> ('c world, unit) go" where
  "block_Delete block volume =
     (case map_get (pvAnnotations volume) OCIVolumeID of
        None \<Rightarrow> fail (Errorf ''volumeid annotation not found on PV'' [])
      | Some volID \<Rightarrow>
          go_bind (go_WithTimeout Background (pcTimeout (bpClient block))) (\<lambda>ctx.
          go_bind (invoke (CallDeleteVolume (Some volID)) ctx
            (DeleteVolume (pcBlockStorage (bpClient block)) ctx (Some volID))) (\<lambda>(response, err).
          if dvRawResponse response = Some StatusNotFound then ret ()
          else if IsNotFound err then ret ()
          else case err of None \<Rightarrow> ret () | Some e \<Rightarrow> fail e)))"

definition NewBlockProvisioner ::
  "'c ProvisionerClient \<Rightarrow> 'c metadata_Interface \<Rightarrow> bool \<Rightarrow> Quantity \<Rightarrow> duration \<Rightarrow>
     ('c world, 'c ProvisionerPlugin) go" where
  "NewBlockProvisioner client md roundingEnabled minVolumeSize tmo =
     go_bind (pcCompartmentOCID client) (\<lambda>_.
       let block = \<lparr>bpClient = client, bpMetadata = md, bpVolumeRoundingEnabled = roundingEnabled,
         bpMinVolumeSize = minVolumeSize, bpTimeout = tmo\<rparr>
       in ret \<lparr>plProvision = block_Provision block, plDelete = block_Delete block\<rparr>)"

section \<open>Sizes\<close>

lemma roundUpSize_div:
  assumes "0 \<le> a" and "0 < u" and "a + u - 1 < 2 ^ 63"
  shows "roundUpSize a u = (a + u - 1) div u"
proof -
  let ?s = "a + u - 1"
  have "wrap64 (wrap64 (a + u) - 1) = wrap64 ?s"
    using assms by (cases "a + u < 2 ^ 63") (simp_all add: wrap64_def mod_simps)
  then have "wrap64 (wrap64 (a + u) - 1) = ?s"
    using assms by (simp add: wrap64_id in64_def)
  moreover have "?s div u \<le> ?s div 1" using assms by (intro zdiv_mono2) auto
  moreover have "0 \<le> ?s div u" using assms by (simp add: pos_imp_zdiv_nonneg_iff)
  ultimately show ?thesis
    using assms by (simp add: roundUpSize_def quo64_def sdiv_nonneg wrap64_id in64_def)
qed

lemma roundUpSize_bounds:
  assumes "0 \<le> a" and "0 < u" and "a + u - 1 < 2 ^ 63"
  shows "a \<le> roundUpSize a u * u" and "roundUpSize a u * u < a + u" and "0 \<le> roundUpSize a u"
proof -
  have "(a + u - 1) div u * u = a + u - 1 - (a + u - 1) mod u"
    by (simp add: minus_mod_eq_div_mult)
  moreover have "0 \<le> (a + u - 1) mod u" "(a + u - 1) mod u < u" using assms(2) by simp_all
  ultimately show "a \<le> roundUpSize a u * u" "roundUpSize a u * u < a + u"
    using roundUpSize_div [OF assms] by simp_all
  show "0 \<le> roundUpSize a u"
    using roundUpSize_div [OF assms] assms by (simp add: pos_imp_zdiv_nonneg_iff)
qed

section \<open>The wait\<close>

definition get_event :: "string option \<Rightarrow> event \<Rightarrow> bool" where
  "get_event vid e \<longleftrightarrow> (\<exists>r. evCall e = CallGetVolume vid r)"

definition available_event :: "string option \<Rightarrow> event \<Rightarrow> bool" where
  "available_event vid e \<longleftrightarrow>
     (\<exists>v. evCall e = CallGetVolume vid (Inr v) \<and> volLifecycleState v = VolumeLifecycleStateAvailable)"

lemma isVolumeReady_one:
  assumes "isVolumeReady b ctx vid w = Some (r, w')"
  obtains e where "events w' = events w @ [e]" "get_event vid e" "evAt e = clock w" "clock w \<le> clock w'"
    "environ w' = environ w" "config w' = config w" "r = Ok True \<Longrightarrow> available_event vid e"
    "\<And>p. r \<noteq> Panic p" "\<And>n. r \<noteq> Exit n"
proof -
  let ?ctx = "WithTimeout ctx (clock w) (pcTimeout (bpClient b))"
  obtain res d cl where api: "GetVolume (pcBlockStorage (bpClient b)) ?ctx vid (clock w) (cloud w) = (res, d, cl)"
    by (metis prod_cases3)
  show thesis
    by (rule that [of "\<lparr>evAt = clock w, evCtx = ?ctx, evCall = CallGetVolume vid res\<rparr>"]; cases res)
      (use assms in \<open>auto simp: isVolumeReady_def go_simps go_bind_invoke [of "GetVolume _ _ _", OF api]
        Let_def get_event_def available_event_def split: if_splits\<close>)
qed

lemma volume_condition_one:
  assumes "volume_condition b ctx vid v w = Some (r, w')"
  shows "\<exists>e. events w' = events w @ [e] \<and> get_event vid e \<and> clock w \<le> evAt e \<and> evAt e \<le> clock w' \<and>
    environ w' = environ w \<and> config w' = config w \<and> (\<forall>v'. r = Ok (True, v') \<longrightarrow> available_event vid e)"
    and "r = Err e \<Longrightarrow> \<exists>ocid. vid = Some ocid \<and>
      (\<exists>e'. e = Errorf ''failed to provision volume %q: %v'' [FmtS ocid, FmtE e'])"
proof -
  obtain r0 w0 where ready: "isVolumeReady b ctx vid w = Some (r0, w0)"
    using assms by (auto simp: volume_condition_def go_try_def split: option.splits)
  have "w' = w0" and ok: "r = Ok (True, v') \<Longrightarrow> r0 = Ok True" for v'
    using assms ready
    by (cases vid; cases r0; auto simp: volume_condition_def go_try_def go_simps)+
  with ready show "\<exists>e. events w' = events w @ [e] \<and> get_event vid e \<and> clock w \<le> evAt e \<and> evAt e \<le> clock w' \<and>
    environ w' = environ w \<and> config w' = config w \<and> (\<forall>v'. r = Ok (True, v') \<longrightarrow> available_event vid e)"
    by (elim isVolumeReady_one) auto
  show "\<exists>ocid. vid = Some ocid \<and> (\<exists>e'. e = Errorf ''failed to provision volume %q: %v'' [FmtS ocid, FmtE e'])"
    if "r = Err e"
    using assms ready that
    by (cases vid; cases r0) (auto simp: volume_condition_def go_try_def go_simps)
qed

lemma isVolumeReady_total [go_total]: "go_total (isVolumeReady b ctx vid)"
  unfolding isVolumeReady_def Let_def by (intro go_total)

lemma volume_condition_total [go_total]: "go_total (volume_condition b ctx vid v)"
  unfolding volume_condition_def by (intro go_total)

interpretation vol: lifecycle_wait "volume_condition b ctx vid" "get_event vid" "\<lambda>_. available_event vid"
  for b :: "'c blockProvisioner" and ctx vid
proof unfold_locales
  show "go_total (volume_condition b ctx vid v)" for v by (rule volume_condition_total)
next
  fix v w r w' assume "volume_condition b ctx vid v w = Some (r, w')"
  then show "\<exists>e. events w' = events w @ [e] \<and> get_event vid e \<and> clock w \<le> evAt e \<and> evAt e \<le> clock w' \<and>
    environ w' = environ w \<and> config w' = config w \<and> (\<forall>v'. r = Ok (True, v') \<longrightarrow> available_event vid e)"
    by (rule volume_condition_one(1))
next
  fix v w e w' assume "volume_condition b ctx vid v w = Some (Err e, w')"
  from volume_condition_one(2) [OF this refl] show "e \<noteq> ErrWaitTimeout" by auto
qed

lemma volume_condition_returns:
  assumes "volume_condition b ctx (Some ocid) v w = Some (r, w')"
  shows "(\<exists>x. r = Ok x) \<or> (\<exists>e. r = Err e)"
proof -
  obtain r0 w0 where ready: "isVolumeReady b ctx (Some ocid) w = Some (r0, w0)"
    using assms by (auto simp: volume_condition_def go_try_def split: option.splits)
  then have "\<And>p. r0 \<noteq> Panic p" "\<And>n. r0 \<noteq> Exit n" by (auto elim: isVolumeReady_one)
  with assms ready show ?thesis
    by (cases r0) (auto simp: volume_condition_def go_try_def go_simps)
qed

lemma five_seconds: "0 < Second * 5"
  by (simp add: Second_def)

lemma waitForVolumeAvailable_spec:
  assumes run: "waitForVolumeAvailable b ctx (Some ocid) tmo w = Some (r, w')"
  shows "r = Ok () \<or> (\<exists>e. r = Err e)"
    and "poll_end (get_event (Some ocid)) (\<lambda>_. available_event (Some ocid)) w r w'"
    and "r = Err ErrWaitTimeout \<Longrightarrow> clock w + tmo \<le> clock w'"
    and "extends w w'"
proof -
  note run' = run [unfolded waitForVolumeAvailable_def]
  show "r = Ok () \<or> (\<exists>e. r = Err e)"
    by (rule PollImmediate_rule [OF run' five_seconds, where I = "\<lambda>_ _. True"])
      (auto simp: cond_ends_def dest!: volume_condition_returns split: outcome.split prod.split)
  show "poll_end (get_event (Some ocid)) (\<lambda>_. available_event (Some ocid)) w r w'"
    by (rule vol.poll_events [OF run' five_seconds])
  show "clock w + tmo \<le> clock w'" if "r = Err ErrWaitTimeout"
    by (rule vol.timeout_clock [OF run' five_seconds that])
  show "extends w w'"
    by (rule keepsD [OF vol.poll_extends [OF five_seconds] run'])
qed

section \<open>Creation\<close>

text \<open>
  The ways the creation can end. \<open>refused\<close>: the service rejects the request. \<open>anonymous\<close>: it answers
  without an identifier, and the code dereferences nil. \<open>available\<close>: the last of the polls saw the
  volume available. \<open>cleaned_up\<close>: the wait failed, and a request to delete the volume was sent after
  the polls; when the wait used up its whole timeout and the client's timeout is not longer, that
  request carries a context that has already expired.
\<close>

inductive creates ::
  "'c blockProvisioner \<Rightarrow> CreateVolumeDetails \<Rightarrow> 'c world \<Rightarrow> string outcome \<Rightarrow> 'c world \<Rightarrow> bool"
  for b d w where
  refused: "evCall c = CallCreateVolume d (Inl err) \<Longrightarrow> events w' = events w @ [c] \<Longrightarrow>
    creates b d w (Err err) w'"
| anonymous: "evCall c = CallCreateVolume d (Inr vol) \<Longrightarrow> volId vol = None \<Longrightarrow>
    events w' = events w @ [c] \<Longrightarrow> creates b d w (Panic NilDereference) w'"
| available: "evCall c = CallCreateVolume d (Inr vol) \<Longrightarrow> volId vol = Some ocid \<Longrightarrow>
    events w' = events w @ [c] @ polls @ [g] \<Longrightarrow> \<forall>x \<in> set (polls @ [g]). get_event (Some ocid) x \<Longrightarrow>
    available_event (Some ocid) g \<Longrightarrow> creates b d w (Ok ocid) w'"
| cleaned_up: "evCall c = CallCreateVolume d (Inr vol) \<Longrightarrow> volId vol = Some ocid \<Longrightarrow>
    events w' = events w @ [c] @ polls @ [x] \<Longrightarrow> \<forall>y \<in> set polls. get_event (Some ocid) y \<Longrightarrow>
    evCall x = CallDeleteVolume (Some ocid) resp \<Longrightarrow>
    (err = ErrWaitTimeout \<Longrightarrow> pcTimeout (bpClient b) \<le> bpTimeout b \<Longrightarrow> expired (evCtx x) (evAt x)) \<Longrightarrow>
    creates b d w (Err err) w'"

inductive_cases creates_OkE: "creates b d w (Ok ocid) w'"

lemma creates_Ok:
  assumes "creates b d w (Ok ocid) w'"
  obtains cr vol polls g where "evCall cr = CallCreateVolume d (Inr vol)" "volId vol = Some ocid"
    "events w' = events w @ [cr] @ polls @ [g]" "\<forall>x \<in> set (polls @ [g]). get_event (Some ocid) x"
    "available_event (Some ocid) g"
  using assms by (elim creates_OkE) (auto intro!: that)

lemma creates_waited:
  assumes wait: "waitForVolumeAvailable b ctx (Some ocid) (bpTimeout b) w1 = Some (r1, w2)"
    and c: "evCall c = CallCreateVolume d (Inr vol)" "volId vol = Some ocid" "events w1 = events w @ [c]"
    and dl: "ctx = Some (t + pcTimeout (bpClient b))" "t \<le> clock w1"
    and rest: "(case (case r1 of Ok x \<Rightarrow> Inr x | Err e \<Rightarrow> Inl e) of
         Inl err \<Rightarrow>
           go_bind (go_WithTimeout ctx (pcTimeout (bpClient b))) (\<lambda>ctx'.
           go_bind (invoke (CallDeleteVolume (Some ocid)) ctx'
             (DeleteVolume (pcBlockStorage (bpClient b)) ctx' (Some ocid))) (\<lambda>_.
           fail err))
       | Inr _ \<Rightarrow> ret ocid) w2 = Some (r, w')"
  shows "creates b d w r w'"
proof -
  from waitForVolumeAvailable_spec(2) [OF wait] obtain polls g where
    polls: "events w2 = events w @ [c] @ polls @ [g]" "\<forall>x \<in> set (polls @ [g]). get_event (Some ocid) x"
    and avail: "\<forall>v. r1 = Ok v \<longrightarrow> available_event (Some ocid) g"
    unfolding poll_end_def c(3) by auto
  from waitForVolumeAvailable_spec(1) [OF wait] consider "r1 = Ok ()" | e where "r1 = Err e" by blast
  then show ?thesis
  proof cases
    case 1
    with rest have "r = Ok ocid" "w' = w2" by (simp_all add: go_simps)
    with 1 avail show ?thesis by (auto intro: creates.available [OF c(1,2) polls])
  next
    case (2 e)
    let ?ctx' = "WithTimeout ctx (clock w2) (pcTimeout (bpClient b))"
    obtain res dur cl where api:
      "DeleteVolume (pcBlockStorage (bpClient b)) ?ctx' (Some ocid) (clock w2) (cloud w2) = (res, dur, cl)"
      by (metis prod_cases3)
    have r: "r = Err e" and w': "events w' = events w2 @
        [\<lparr>evAt = clock w2, evCtx = ?ctx', evCall = CallDeleteVolume (Some ocid) res\<rparr>]"
      using rest 2 by (auto simp: go_simps go_bind_invoke [of "DeleteVolume _ _ _", OF api])
    have "expired ?ctx' (clock w2)" if "e = ErrWaitTimeout" "pcTimeout (bpClient b) \<le> bpTimeout b"
      using waitForVolumeAvailable_spec(3) [OF wait] 2 that dl
      by (intro WithTimeout_expired_parent) (auto simp: expired_def)
    with r w' polls show ?thesis
      by (auto intro!: creates.cleaned_up [OF c(1,2), where polls = "polls @ [g]" and resp = res
          and x = "\<lparr>evAt = clock w2, evCtx = ?ctx', evCall = CallDeleteVolume (Some ocid) res\<rparr>"])
  qed
qed

lemma block_create_creates:
  assumes "block_create b d w = Some (r, w')"
  shows "creates b d w r w'"
proof -
  let ?T = "pcTimeout (bpClient b)" and ?bs = "pcBlockStorage (bpClient b)"
  let ?ctx = "WithTimeout Background (clock w) ?T"
  obtain res dur cl where api: "CreateVolume ?bs ?ctx d (clock w) (cloud w) = (res, dur, cl)"
    by (metis prod_cases3)
  let ?w1 = "sent ?ctx (CallCreateVolume d res) dur cl w"
  note run = assms [unfolded block_create_def go_bind_env go_bind_invoke [of "CreateVolume _ _ _", OF api]]
  show ?thesis
  proof (cases res)
    case (Inl err)
    with run have "r = Err err" "w' = ?w1" by (simp_all add: go_simps)
    with Inl show ?thesis
      by (auto intro: creates.refused [where c = "\<lparr>evAt = clock w, evCtx = ?ctx, evCall = CallCreateVolume d res\<rparr>"])
  next
    case (Inr vol)
    show ?thesis
    proof (cases "volId vol")
      case None
      with run Inr have "r = Panic NilDereference" "w' = ?w1" by (simp_all add: go_simps)
      with Inr None show ?thesis
        by (auto intro: creates.anonymous [where c = "\<lparr>evAt = clock w, evCtx = ?ctx, evCall = CallCreateVolume d res\<rparr>"])
    next
      case (Some ocid)
      obtain r1 w2 where wait: "waitForVolumeAvailable b ?ctx (Some ocid) (bpTimeout b) ?w1 = Some (r1, w2)"
        using run Inr Some by (auto simp: go_simps go_try_def split: option.splits)
      show ?thesis
        by (rule creates_waited [OF wait, where vol = vol and t = "clock w"])
          (use run Inr Some wait waitForVolumeAvailable_spec(1) [OF wait] in
            \<open>auto simp: go_simps go_try_def WithTimeout_def Background_def\<close>)
    qed
  qed
qed

section \<open>Provision\<close>

text \<open>The claims that \<open>Provision\<close> accepts, with the requested capacity.\<close>

definition block_accepts :: "VolumeOptions \<Rightarrow> PersistentVolumeClaim \<Rightarrow> Quantity \<Rightarrow> bool" where
  "block_accepts opts pvc q \<longleftrightarrow> optPVC opts = Some pvc \<and> set (pvcAccessModes pvc) \<subseteq> {ReadWriteOnce} \<and>
     pvcRequests pvc ResourceStorage = Some q"

lemma block_accepts_find:
  "block_accepts opts pvc q \<Longrightarrow> find (\<lambda>m. m \<noteq> ReadWriteOnce) (pvcAccessModes pvc) = None"
  by (auto simp: block_accepts_def find_None_iff)

lemma block_Provision_accepted:
  assumes "block_accepts opts pvc q" and "adName ad = Some a"
  shows "block_Provision b opts ad =
    go_bind (pcCompartmentOCID (bpClient b)) (\<lambda>c. go_bind GetPrefix (\<lambda>p.
    go_bind (block_create b (volumeDetails pvc ad c p (fst (block_sizing b (optParameters opts) q)))) (\<lambda>ocid.
    go_bind (block_region b) (\<lambda>region.
    ret (block_pv opts pvc a (snd (block_sizing b (optParameters opts) q)) ocid region)))))"
  using assms block_accepts_find [OF assms(1)]
  by (simp add: block_Provision_def block_accepts_def go_simps split_beta)

lemma block_Provision_rejected:
  assumes "\<nexists>pvc q. block_accepts opts pvc q"
  obtains (err) e where "block_Provision b opts ad w = Some (Err e, w)"
    | (panic) "optPVC opts = None" "block_Provision b opts ad w = Some (Panic NilDereference, w)"
proof (cases "optPVC opts")
  case (Some pvc)
  with assms have "(\<exists>m. find (\<lambda>m. m \<noteq> ReadWriteOnce) (pvcAccessModes pvc) = Some m) \<or>
      find (\<lambda>m. m \<noteq> ReadWriteOnce) (pvcAccessModes pvc) = None \<and> pvcRequests pvc ResourceStorage = None"
    by (cases "find (\<lambda>m. m \<noteq> ReadWriteOnce) (pvcAccessModes pvc)"; cases "pvcRequests pvc ResourceStorage")
      (auto simp: block_accepts_def find_None_iff)
  then show thesis
    by (elim disjE exE conjE; intro err) (simp_all add: Some block_Provision_def go_simps)
qed (use panic in \<open>simp add: block_Provision_def go_simps\<close>)

definition metadata_event :: "event \<Rightarrow> bool" where
  "metadata_event e \<longleftrightarrow> (\<exists>r. evCall e = CallMetadata r)"

text \<open>Where the region label comes from: the environment, else the instance metadata.\<close>

definition region_from :: "strmap \<Rightarrow> event list \<Rightarrow> string \<Rightarrow> bool" where
  "region_from env md region \<longleftrightarrow>
     (case env ''OCI_SHORT_REGION'' of
        Some r \<Rightarrow> md = [] \<and> region = r
      | None \<Rightarrow> (\<exists>e m. md = [e] \<and> evCall e = CallMetadata (Inr (Some m)) \<and> region = mdRegion m))"

lemma block_region_run:
  assumes "block_region b w = Some (r, w')"
  shows "\<exists>md. events w' = events w @ md \<and> length md \<le> 1 \<and> (\<forall>e \<in> set md. metadata_event e) \<and>
    (\<forall>region. r = Ok region \<longrightarrow> region_from (environ w) md region)"
proof (cases "environ w ''OCI_SHORT_REGION''")
  case None
  obtain res d cl where api: "bpMetadata b (clock w) (cloud w) = (res, d, cl)"
    by (metis prod_cases3)
  from None assms show ?thesis
    by (intro exI [of _ "[\<lparr>evAt = clock w, evCtx = Background, evCall = CallMetadata res\<rparr>]"];
        cases res; cases "case res of Inr m \<Rightarrow> m | Inl _ \<Rightarrow> None")
      (auto simp: block_region_def go_simps go_bind_invoke [of "bpMetadata b", OF api] metadata_event_def
        region_from_def)
qed (use assms in \<open>auto simp: block_region_def go_simps region_from_def\<close>)

lemma waitForVolumeAvailable_frame [go_frame]: "keeps extends (waitForVolumeAvailable b ctx vid tmo)"
  unfolding waitForVolumeAvailable_def by (rule vol.poll_extends [OF five_seconds])

lemma block_create_frame [go_frame]: "keeps extends (block_create b d)"
  unfolding block_create_def by (intro ext.keeps_rules go_frame)

lemma block_region_frame [go_frame]: "keeps extends (block_region b)"
  unfolding block_region_def by (intro ext.keeps_rules go_frame)

lemma block_Provision_frame [go_frame]: "client_ok (bpClient b) \<Longrightarrow> keeps extends (block_Provision b opts ad)"
  unfolding block_Provision_def client_ok_def by (intro ext.keeps_rules go_frame; blast)

lemma block_Delete_frame [go_frame]: "keeps extends (block_Delete b pv)"
  unfolding block_Delete_def by (intro ext.keeps_rules go_frame)

text \<open>
  A call of \<open>Provision\<close> sends nothing, or it fails while the volume is created, or the volume is
  created and the request for the region, if there is one, comes last.
\<close>

lemma block_Provision_cases:
  assumes run: "block_Provision b opts ad w = Some (r, w')" and ok: "client_ok (bpClient b)"
  obtains (unsent) "events w' = events w" "\<And>pv. r \<noteq> Ok pv"
    | (not_created) pvc q c p w1 r1 where "block_accepts opts pvc q" "events w1 = events w"
        "creates b (volumeDetails pvc ad c p (fst (block_sizing b (optParameters opts) q))) w1 r1 w'"
        "(\<exists>e. r1 = Err e \<and> r = Err e) \<or> (\<exists>x. r1 = Panic x \<and> r = Panic x) \<or> (\<exists>n. r1 = Exit n \<and> r = Exit n)"
    | (created) pvc q a c p w1 ocid w2 md where "block_accepts opts pvc q" "adName ad = Some a"
        "events w1 = events w"
        "creates b (volumeDetails pvc ad c p (fst (block_sizing b (optParameters opts) q))) w1 (Ok ocid) w2"
        "events w' = events w2 @ md" "length md \<le> 1" "\<forall>e \<in> set md. metadata_event e"
        "\<And>pv. r = Ok pv \<Longrightarrow> \<exists>region. region_from (environ w) md region \<and>
          pv = block_pv opts pvc a (snd (block_sizing b (optParameters opts) q)) ocid region"
proof (cases "\<exists>pvc q. block_accepts opts pvc q")
  case False
  then have "w' = w \<and> (\<forall>pv. r \<noteq> Ok pv)"
    by (rule block_Provision_rejected [of opts b ad w]) (use run in auto)
  then show thesis using unsent by simp
next
  case True
  then obtain pvc q where acc: "block_accepts opts pvc q" by blast
  show thesis
  proof (cases "adName ad")
    case None
    with acc run show thesis using unsent block_accepts_find [OF acc]
      by (auto simp: block_Provision_def block_accepts_def go_simps)
  next
    case (Some a)
    from run [unfolded block_Provision_accepted [OF acc Some]] show thesis
    proof (cases rule: go_bind_cases)
      case (ok c w1)
      note compartment = ok(1) and w1 = client_okD(1) [OF assms(2) ok(1)]
      obtain p where p: "GetPrefix w1 = Some (Ok p, w1)" by (rule GetPrefix_run)
      from ok(2) [unfolded go_bind_Ok [of GetPrefix, OF p]] show thesis
      proof (cases rule: go_bind_cases)
        case (ok ocid w2)
        note cr = block_create_creates [OF ok(1)]
        have env: "environ w2 = environ w"
          using keepsD [OF block_create_frame ok(1)] client_okD(3) [OF assms(2) compartment]
          by (simp add: extends_def)
        obtain r2 where reg: "block_region b w2 = Some (r2, w')"
          and r: "\<And>pv. r = Ok pv \<Longrightarrow> \<exists>region. r2 = Ok region \<and>
            pv = block_pv opts pvc a (snd (block_sizing b (optParameters opts) q)) ocid region"
          using ok(2) by (cases rule: go_bind_cases) (auto simp: go_simps)
        from block_region_run [OF reg] obtain md where md: "events w' = events w2 @ md" "length md \<le> 1"
          "\<forall>e \<in> set md. metadata_event e" "\<forall>region. r2 = Ok region \<longrightarrow> region_from (environ w) md region"
          unfolding env by blast
        show thesis by (rule created [OF acc Some w1 cr md(1-3)]) (use r md(4) in blast)
      qed (auto intro!: not_created [OF acc w1 block_create_creates])
    qed (use client_okD(1) [OF assms(2)] unsent in auto)
  qed
qed

lemma block_Provision_available':
  assumes "block_Provision b opts ad w = Some (Ok pv, w')" and "client_ok (bpClient b)"
  shows "\<exists>cr d vol. cr \<in> set (new_events w w') \<and> evCall cr = CallCreateVolume d (Inr vol) \<and>
    volId vol = Some (pvName pv) \<and> map_get (pvAnnotations pv) OCIVolumeID = Some (pvName pv)"
  using assms
proof (cases rule: block_Provision_cases)
  case (created pvc q a c p w1 ocid w2 md)
  from created(8) [OF refl] have "pvName pv = ocid" "map_get (pvAnnotations pv) OCIVolumeID = Some ocid"
    by (auto simp: block_pv_def)
  moreover from created(4) obtain cr vol polls g where
    "evCall cr = CallCreateVolume (volumeDetails pvc ad c p (fst (block_sizing b (optParameters opts) q))) (Inr vol)"
    "volId vol = Some ocid" "events w2 = events w1 @ [cr] @ polls @ [g]"
    by (rule creates_Ok)
  moreover from this(3) created(3,5) have "cr \<in> set (new_events w w')" by (simp add: new_events_def)
  ultimately show ?thesis by blast
qed auto

lemma block_Delete_sends:
  assumes "map_get (pvAnnotations pv) OCIVolumeID = Some volID"
  shows "\<exists>r w' x res. block_Delete b pv w = Some (r, w') \<and> new_events w w' = [x] \<and> evCall x = CallDeleteVolume (Some volID) res"
proof -
  let ?ctx = "WithTimeout Background (clock w) (pcTimeout (bpClient b))"
  obtain resp err d cl where api:
    "DeleteVolume (pcBlockStorage (bpClient b)) ?ctx (Some volID) (clock w) (cloud w) = ((resp, err), d, cl)"
    by (metis prod_cases3 surj_pair)
  show ?thesis
    by (cases err) (auto simp: assms block_Delete_def go_simps go_bind_invoke [of "DeleteVolume _ _ _", OF api] new_events_def)
qed

section \<open>Concrete runs\<close>

text \<open>The provisioner of the unit tests; its client and its wait have the same timeout.\<close>

definition mock_block :: "string \<Rightarrow> unit metadata_Interface \<Rightarrow> duration \<Rightarrow> unit blockProvisioner" where
  "mock_block state md tmo =
     \<lparr>bpClient = (MockProvisionerClient (MockBlockStorageClient state))\<lparr>pcTimeout := tmo\<rparr>, bpMetadata = md,
      bpVolumeRoundingEnabled = True, bpMinVolumeSize = GiB 50, bpTimeout = tmo\<rparr>"

lemma mock_block_simps [simp]:
  "pcBlockStorage (bpClient (mock_block s md tmo)) = MockBlockStorageClient s"
  "pcTimeout (bpClient (mock_block s md tmo)) = tmo"
  "pcCompartmentOCID (bpClient (mock_block s md tmo)) = ret []"
  "bpMetadata (mock_block s md tmo) = md" "bpTimeout (mock_block s md tmo) = tmo"
  by (simp_all add: mock_block_def) (simp_all add: MockProvisionerClient_def)

lemma mock_block_client_ok [simp]: "client_ok (bpClient (mock_block s md tmo))"
  by (simp add: client_ok_def ext.keeps_pure qui.keeps_pure total_pure go_simps)

lemma mock_sizing: "block_sizing (mock_block s md tmo) Map.empty (GiB 20) = (51200, GiB 50)"
  by (simp add: block_sizing_def mock_block_def GiB_def volumeRoundingEnabled_def Quantity_Cmp_def
      roundUpSize_div) (simp add: NewQuantity_def Amount_Cmp_def int_cmp_def)

definition polled_mock :: "string \<Rightarrow> ctx \<Rightarrow> duration \<Rightarrow> string option \<Rightarrow> unit world \<Rightarrow> unit world" where
  "polled_mock s ctx tmo vid w = sent (WithTimeout ctx (clock w) tmo)
     (CallGetVolume vid (Inr \<lparr>volId = None, volLifecycleState = s\<rparr>)) 0 (cloud w) w"

lemma polled_mock_simps [simp]:
  "clock (polled_mock s ctx tmo vid w) = clock w" "environ (polled_mock s ctx tmo vid w) = environ w"
  "config (polled_mock s ctx tmo vid w) = config w"
  "events (polled_mock s ctx tmo vid w) = events w @ [\<lparr>evAt = clock w, evCtx = WithTimeout ctx (clock w) tmo,
     evCall = CallGetVolume vid (Inr \<lparr>volId = None, volLifecycleState = s\<rparr>)\<rparr>]"
  by (simp_all add: polled_mock_def)

lemma mock_condition:
  "volume_condition (mock_block VolumeLifecycleStateAvailable md tmo) ctx vid v w =
     Some (Ok (True, ()), polled_mock VolumeLifecycleStateAvailable ctx tmo vid w)"
  "volume_condition (mock_block ''PROVISIONING'' md tmo) ctx vid v w =
     Some (Ok (False, ()), polled_mock ''PROVISIONING'' ctx tmo vid w)"
  by (simp_all add: volume_condition_def go_try_def isVolumeReady_def go_simps MockBlockStorageClient_def
      polled_mock_def)

lemma mock_wait_available:
  "waitForVolumeAvailable (mock_block VolumeLifecycleStateAvailable md tmo) ctx vid tmo w =
     Some (Ok (), polled_mock VolumeLifecycleStateAvailable ctx tmo vid w)"
  by (simp add: waitForVolumeAvailable_def PollImmediate_def go_bind_def mock_condition go_simps)

lemma mock_wait_timeout:
  "waitForVolumeAvailable (mock_block ''PROVISIONING'' md Second) ctx vid Second w =
     Some (Err ErrWaitTimeout, polled_mock ''PROVISIONING'' ctx Second vid
       (advance_to (clock w + Second) (polled_mock ''PROVISIONING'' ctx Second vid w)))"
  by (simp add: waitForVolumeAvailable_def PollImmediate_def go_bind_def mock_condition,
      subst WaitFor.simps)
    (simp add: poller_recv_def next_tick_def Second_def mock_condition Let_def)

lemmas mock_create_defs = block_create_def go_simps MockBlockStorageClient_def go_try_def

lemma mock_create_available:
  "\<exists>w'. block_create (mock_block VolumeLifecycleStateAvailable md tmo) d w = Some (Ok VolumeBackupID, w') \<and>
     environ w' = environ w \<and> config w' = config w \<and> (\<exists>c g. events w' = events w @ [c, g])"
  by (simp add: mock_create_defs mock_wait_available)

lemma mock_create_timeout:
  "\<exists>w'. block_create (mock_block ''PROVISIONING'' md Second) d w = Some (Err ErrWaitTimeout, w') \<and>
     (\<exists>c g h x. events w' = events w @ [c, g, h, x] \<and>
       evCall c = CallCreateVolume d (Inr \<lparr>volId = Some VolumeBackupID, volLifecycleState = []\<rparr>) \<and>
       evCall g = CallGetVolume (Some VolumeBackupID) (Inr \<lparr>volId = None, volLifecycleState = ''PROVISIONING''\<rparr>) \<and>
       evCall h = evCall g \<and>
       evCall x = CallDeleteVolume (Some VolumeBackupID) (\<lparr>dvRawResponse = None\<rparr>, None))"
  by (simp add: mock_create_defs mock_wait_timeout advance_to_def)

lemma claim_accepts [simp]: "block_accepts (claim [ReadWriteOnce] n an) (the (optPVC (claim [ReadWriteOnce] n an))) (GiB n)"
  by (simp add: claim_def block_accepts_def)

lemma mock_details:
  "optParameters (claim modes n an) = Map.empty" "adName defaultAD = Some ''PHX-AD-1''"
  by (simp_all add: claim_def defaultAD_def)

lemma mock_Provision:
  "block_Provision (mock_block s md tmo) (claim [ReadWriteOnce] 20 an) defaultAD (initial Map.empty) =
     go_bind (block_create (mock_block s md tmo)
       (volumeDetails (the (optPVC (claim [ReadWriteOnce] 20 an))) defaultAD [] [] 51200)) (\<lambda>ocid.
     go_bind (block_region (mock_block s md tmo)) (\<lambda>region.
       ret (block_pv (claim [ReadWriteOnce] 20 an) (the (optPVC (claim [ReadWriteOnce] 20 an))) ''PHX-AD-1''
         (GiB 50) ocid region))) (initial Map.empty)"
  by (simp add: block_Provision_accepted [OF claim_accepts mock_details(2)] mock_details mock_sizing go_simps
      go_bind_Ok [OF GetPrefix_unset])

lemma mock_run_available:
  "\<exists>pv w'. block_Provision (mock_block VolumeLifecycleStateAvailable (NewMock (Some md)) tmo)
     (claim [ReadWriteOnce] 20 an) defaultAD (initial Map.empty) = Some (Ok pv, w') \<and> pvName pv = VolumeBackupID"
proof -
  obtain w' where "block_create (mock_block VolumeLifecycleStateAvailable (NewMock (Some md)) tmo)
      (volumeDetails (the (optPVC (claim [ReadWriteOnce] 20 an))) defaultAD [] [] 51200) (initial Map.empty) =
      Some (Ok VolumeBackupID, w') \<and> environ w' = Map.empty"
    using mock_create_available [where w = "initial Map.empty"] by fastforce
  then show ?thesis
    by (simp add: mock_Provision go_bind_def [of "block_create _ _"])
      (simp add: block_region_def go_bind_assoc go_simps NewMock_def block_pv_def)
qed

lemma mock_run_timeout:
  "\<exists>w' c x. block_Provision (mock_block ''PROVISIONING'' md Second)
     (claim [ReadWriteOnce] 20 an) defaultAD (initial Map.empty) = Some (Err ErrWaitTimeout, w') \<and>
     c \<in> set (new_events (initial Map.empty) w') \<and> x \<in> set (new_events (initial Map.empty) w') \<and>
     (\<forall>g \<in> set (new_events (initial Map.empty) w'). \<not> available_event (Some VolumeBackupID) g) \<and>
     (\<exists>d. evCall c = CallCreateVolume d (Inr \<lparr>volId = Some VolumeBackupID, volLifecycleState = []\<rparr>)) \<and>
     evCall x = CallDeleteVolume (Some VolumeBackupID) (\<lparr>dvRawResponse = None\<rparr>, None)"
proof -
  let ?d = "volumeDetails (the (optPVC (claim [ReadWriteOnce] 20 an))) defaultAD [] [] 51200"
  obtain w' c g h x where run: "block_create (mock_block ''PROVISIONING'' md Second) ?d (initial Map.empty) =
      Some (Err ErrWaitTimeout, w')" and ev: "events w' = [c, g, h, x]"
    "evCall c = CallCreateVolume ?d (Inr \<lparr>volId = Some VolumeBackupID, volLifecycleState = []\<rparr>)"
    "evCall g = CallGetVolume (Some VolumeBackupID) (Inr \<lparr>volId = None, volLifecycleState = ''PROVISIONING''\<rparr>)"
    "evCall h = evCall g" "evCall x = CallDeleteVolume (Some VolumeBackupID) (\<lparr>dvRawResponse = None\<rparr>, None)"
    using mock_create_timeout [of md ?d "initial Map.empty"] by auto
  show ?thesis
    by (rule exI [of _ w'], rule exI [of _ c], rule exI [of _ x])
      (simp add: mock_Provision go_bind_def run ev new_events_def available_event_def)
qed

lemma mock_run_metadata_failure:
  "\<exists>w' m. block_Provision (mock_block VolumeLifecycleStateAvailable (answers (Inl e)) tmo)
     (claim [ReadWriteOnce] 20 an) defaultAD (initial Map.empty) = Some (Err e, w') \<and>
     m \<in> set (new_events (initial Map.empty) w') \<and> metadata_event m"
proof -
  let ?d = "volumeDetails (the (optPVC (claim [ReadWriteOnce] 20 an))) defaultAD [] [] 51200"
  obtain w' where "block_create (mock_block VolumeLifecycleStateAvailable (answers (Inl e)) tmo) ?d (initial Map.empty) =
      Some (Ok VolumeBackupID, w') \<and> environ w' = Map.empty"
    using mock_create_available [where w = "initial Map.empty"] by fastforce
  then show ?thesis
    by (simp add: mock_Provision go_bind_def [of "block_create _ _"])
      (simp add: block_region_def go_bind_assoc go_simps new_events_def metadata_event_def; fastforce)
qed

section \<open>Correctness of Provision\<close>

text \<open>
  C7: a volume that \<open>Provision\<close> returns exists and is available. The claim was one that it accepts;
  the first request created a volume in the chosen availability domain, with the computed size, and
  the service named it; every following request polled that volume and the last poll saw it
  available; nothing else was sent but the request for the region. The persistent volume carries the
  identifier, the zone, the region and the computed capacity.
\<close>

theorem block_Provision_available:
  assumes "block_Provision b opts ad w = Some (Ok pv, w')" and "client_ok (bpClient b)"
  shows "\<exists>pvc q a c p cr vol polls g md region.
    block_accepts opts pvc q \<and> adName ad = Some a \<and>
    new_events w w' = [cr] @ polls @ [g] @ md \<and>
    evCall cr = CallCreateVolume (volumeDetails pvc ad c p (fst (block_sizing b (optParameters opts) q))) (Inr vol) \<and>
    volId vol = Some (pvName pv) \<and>
    (\<forall>x \<in> set (polls @ [g]). get_event (Some (pvName pv)) x) \<and> available_event (Some (pvName pv)) g \<and>
    region_from (environ w) md region \<and>
    pv = block_pv opts pvc a (snd (block_sizing b (optParameters opts) q)) (pvName pv) region"
  using assms
proof (cases rule: block_Provision_cases)
  case (created pvc q a c p w1 ocid w2 md)
  from created(8) obtain region where pv: "region_from (environ w) md region"
    "pv = block_pv opts pvc a (snd (block_sizing b (optParameters opts) q)) ocid region" by blast
  then have "pvName pv = ocid" by (simp add: block_pv_def)
  obtain cr vol polls g where cr:
    "evCall cr = CallCreateVolume (volumeDetails pvc ad c p (fst (block_sizing b (optParameters opts) q))) (Inr vol)"
    "volId vol = Some ocid" "events w2 = events w1 @ [cr] @ polls @ [g]"
    "\<forall>x \<in> set (polls @ [g]). get_event (Some ocid) x" "available_event (Some ocid) g"
    using created(4) by (rule creates_Ok)
  then have "new_events w w' = [cr] @ polls @ [g] @ md"
    using created(3,5) by (simp add: new_events_def)
  with cr created(1,2) pv show ?thesis unfolding \<open>pvName pv = ocid\<close> by blast
qed auto

theorem block_Provision_available_witness:
  "\<exists>pv w'. block_Provision (mock_block VolumeLifecycleStateAvailable
      (NewMock (Some \<lparr>mdCompartmentOCID = [], mdRegion = ''phx''\<rparr>)) Minute)
      (claim [ReadWriteOnce] 20 Map.empty) defaultAD (initial Map.empty) = Some (Ok pv, w') \<and>
    (\<exists>g \<in> set (new_events (initial Map.empty) w'). available_event (Some (pvName pv)) g)"
proof -
  let ?b = "mock_block VolumeLifecycleStateAvailable (NewMock (Some \<lparr>mdCompartmentOCID = [], mdRegion = ''phx''\<rparr>)) Minute"
  obtain pv w' where run: "block_Provision ?b (claim [ReadWriteOnce] 20 Map.empty) defaultAD (initial Map.empty) =
      Some (Ok pv, w')"
    using mock_run_available by blast
  from block_Provision_available [OF run mock_block_client_ok]
  have "\<exists>g \<in> set (new_events (initial Map.empty) w'). available_event (Some (pvName pv)) g"
    by fastforce
  with run show ?thesis by blast
qed

text \<open>
  C16: when a volume was created and no poll saw it available, \<open>Provision\<close> fails, and its last
  request asks the service to delete that volume.
\<close>

theorem block_failed_wait_deletes:
  assumes "block_Provision b opts ad w = Some (r, w')" and "client_ok (bpClient b)"
    and "cr \<in> set (new_events w w')" and "evCall cr = CallCreateVolume d (Inr vol)" and "volId vol = Some ocid"
    and "\<forall>g \<in> set (new_events w w'). \<not> available_event (Some ocid) g"
  shows "\<exists>e es x resp. r = Err e \<and> new_events w w' = cr # es @ [x] \<and> evCall x = CallDeleteVolume (Some ocid) resp"
  using assms(1,2)
proof (cases rule: block_Provision_cases)
  case unsent
  with assms(3) show ?thesis by (simp add: new_events_def)
next
  case (not_created pvc q c p w1 r1)
  from not_created(3) show ?thesis
    by (cases rule: creates.cases)
      (use assms(3-6) not_created(2,4) in \<open>auto simp: new_events_def get_event_def\<close>)
next
  case (created pvc q a c p w1 ocid' w2 md)
  from created(4) show ?thesis
    by (cases rule: creates.cases)
      (use assms(3-6) created(3,5,7) in \<open>auto simp: new_events_def get_event_def metadata_event_def\<close>)
qed

theorem block_failed_wait_deletes_witness:
  "\<exists>w' e es x resp. block_Provision (mock_block ''PROVISIONING'' (NewMock None) Second)
      (claim [ReadWriteOnce] 20 Map.empty) defaultAD (initial Map.empty) = Some (Err e, w') \<and>
    new_events (initial Map.empty) w' = es @ [x] \<and> evCall x = CallDeleteVolume (Some VolumeBackupID) resp"
proof -
  obtain w' c x d where run: "block_Provision (mock_block ''PROVISIONING'' (NewMock None) Second)
      (claim [ReadWriteOnce] 20 Map.empty) defaultAD (initial Map.empty) = Some (Err ErrWaitTimeout, w')"
    and c: "c \<in> set (new_events (initial Map.empty) w')"
      "evCall c = CallCreateVolume d (Inr \<lparr>volId = Some VolumeBackupID, volLifecycleState = []\<rparr>)"
      "\<forall>g \<in> set (new_events (initial Map.empty) w'). \<not> available_event (Some VolumeBackupID) g"
    using mock_run_timeout by blast
  from block_failed_wait_deletes [OF run mock_block_client_ok c(1,2) _ c(3)] run show ?thesis
    by (metis Volume.select_convs(1) append_Cons)
qed

text \<open>
  C21: after a wait that used up its whole timeout, the request to delete the volume is sent with a
  context that has expired, whenever the client's timeout is not longer than the provisioner's: the
  context of the clean-up is derived from the one that the creation and the wait have used up.
\<close>

theorem block_timeout_cleanup_expired:
  assumes "block_Provision b opts ad w = Some (Err ErrWaitTimeout, w')" and "client_ok (bpClient b)"
    and "pcTimeout (bpClient b) \<le> bpTimeout b"
    and "x \<in> set (new_events w w')" and "evCall x = CallDeleteVolume vid resp"
  shows "expired (evCtx x) (evAt x)"
  using assms(1,2)
proof (cases rule: block_Provision_cases)
  case unsent
  with assms(4) show ?thesis by (simp add: new_events_def)
next
  case (not_created pvc q c p w1 r1)
  from not_created(3) show ?thesis
    by (cases rule: creates.cases)
      (use assms(3-5) not_created(2,4) in \<open>auto simp: new_events_def get_event_def\<close>)
next
  case (created pvc q a c p w1 ocid' w2 md)
  from created(4) show ?thesis
    by (cases rule: creates.cases)
      (use assms(3-5) created(3,5,7) in \<open>auto simp: new_events_def get_event_def metadata_event_def\<close>)
qed

theorem block_timeout_cleanup_expired_witness:
  "\<exists>w' x. block_Provision (mock_block ''PROVISIONING'' (NewMock None) Second)
      (claim [ReadWriteOnce] 20 Map.empty) defaultAD (initial Map.empty) = Some (Err ErrWaitTimeout, w') \<and>
    x \<in> set (new_events (initial Map.empty) w') \<and>
    evCall x = CallDeleteVolume (Some VolumeBackupID) (\<lparr>dvRawResponse = None\<rparr>, None) \<and> expired (evCtx x) (evAt x)"
proof -
  obtain w' x where run: "block_Provision (mock_block ''PROVISIONING'' (NewMock None) Second)
      (claim [ReadWriteOnce] 20 Map.empty) defaultAD (initial Map.empty) = Some (Err ErrWaitTimeout, w')"
    and x: "x \<in> set (new_events (initial Map.empty) w')"
      "evCall x = CallDeleteVolume (Some VolumeBackupID) (\<lparr>dvRawResponse = None\<rparr>, None)"
    using mock_run_timeout by blast
  from block_timeout_cleanup_expired [OF run mock_block_client_ok _ x] run x show ?thesis by auto
qed

text \<open>
  C22: a failure to determine the region leaves the volume behind. Whenever the instance metadata
  were asked for, a volume had been created and seen available, and no request of this call deletes
  it, whatever the call returns.
\<close>

theorem block_metadata_failure_leaks:
  assumes "block_Provision b opts ad w = Some (r, w')" and "client_ok (bpClient b)"
    and "m \<in> set (new_events w w')" and "metadata_event m"
  shows "(\<exists>cr d vol ocid g. cr \<in> set (new_events w w') \<and> evCall cr = CallCreateVolume d (Inr vol) \<and>
      volId vol = Some ocid \<and> g \<in> set (new_events w w') \<and> available_event (Some ocid) g) \<and>
    (\<forall>x \<in> set (new_events w w'). \<nexists>vid resp. evCall x = CallDeleteVolume vid resp)"
  using assms(1,2)
proof (cases rule: block_Provision_cases)
  case unsent
  with assms(3) show ?thesis by (simp add: new_events_def)
next
  case (not_created pvc q c p w1 r1)
  from not_created(3) show ?thesis
    by (cases rule: creates.cases)
      (use assms(3-4) not_created(2,4) in \<open>auto simp: new_events_def get_event_def metadata_event_def\<close>)
next
  case (created pvc q a c p w1 ocid w2 md)
  from created(4) obtain d cr vol polls g where cr: "evCall cr = CallCreateVolume d (Inr vol)"
    "volId vol = Some ocid" "events w2 = events w1 @ [cr] @ polls @ [g]"
    "\<forall>x \<in> set (polls @ [g]). get_event (Some ocid) x" "available_event (Some ocid) g"
    by (rule creates_Ok)
  then have new: "new_events w w' = cr # polls @ g # md"
    using created(3,5) by (simp add: new_events_def)
  then have "cr \<in> set (new_events w w')" "g \<in> set (new_events w w')" by simp_all
  moreover have "\<forall>x \<in> set (new_events w w'). \<nexists>vid resp. evCall x = CallDeleteVolume vid resp"
    using cr(1,4) created(7) by (auto simp: new get_event_def metadata_event_def)
  ultimately show ?thesis using cr by blast
qed

theorem block_metadata_failure_leaks_witness:
  "\<exists>w' g. block_Provision (mock_block VolumeLifecycleStateAvailable (answers (Inl (OtherError ''refused''))) Minute)
      (claim [ReadWriteOnce] 20 Map.empty) defaultAD (initial Map.empty) = Some (Err (OtherError ''refused''), w') \<and>
    g \<in> set (new_events (initial Map.empty) w') \<and> (\<exists>ocid. available_event (Some ocid) g) \<and>
    (\<forall>x \<in> set (new_events (initial Map.empty) w'). \<nexists>vid resp. evCall x = CallDeleteVolume vid resp)"
proof -
  obtain w' m where run: "block_Provision (mock_block VolumeLifecycleStateAvailable
        (answers (Inl (OtherError ''refused''))) Minute)
      (claim [ReadWriteOnce] 20 Map.empty) defaultAD (initial Map.empty) = Some (Err (OtherError ''refused''), w')"
    and m: "m \<in> set (new_events (initial Map.empty) w')" "metadata_event m"
    using mock_run_metadata_failure by blast
  from block_metadata_failure_leaks [OF run mock_block_client_ok m] run show ?thesis by blast
qed

section \<open>Sizes and capacities\<close>

lemma Value_roundUp:
  assumes "quantity_wf q" and "0 \<le> quantity_val q" and "\<lceil>quantity_val q\<rceil> \<le> 2 ^ 63 - 2 ^ 20"
  shows "quantity_val q \<le> of_int (roundUpSize (Value q) MiB * MiB)"
    and "of_int (roundUpSize (Value q) MiB * MiB) < quantity_val q + of_int MiB"
proof -
  have v: "Value q = \<lceil>quantity_val q\<rceil>" and nn: "0 \<le> \<lceil>quantity_val q\<rceil>"
    using assms Value_ceiling [of q] by (auto simp: in64_def)
  have "\<lceil>quantity_val q\<rceil> \<le> roundUpSize (Value q) MiB * MiB"
    "roundUpSize (Value q) MiB * MiB < \<lceil>quantity_val q\<rceil> + MiB"
    unfolding v by (rule roundUpSize_bounds; use nn assms(3) in simp)+
  then show "quantity_val q \<le> of_int (roundUpSize (Value q) MiB * MiB)"
    "of_int (roundUpSize (Value q) MiB * MiB) < quantity_val q + of_int MiB"
    by linarith+
qed

text \<open>
  C15: the volume is large enough, if neither the request nor the minimum is negative and both, rounded up to whole
  bytes, are at most \<open>2 ^ 63 - 2 ^ 20\<close>. Then the capacity that \<open>Provision\<close> records is at least the one requested, and
  it is the requested one unless rounding is enabled on both sides and the request is below the minimum; the size that
  it asks the service for holds that capacity and exceeds it by less than one MiB. For a larger capacity the size can wrap
  around and be negative, as \<open>roundUpSize_wraps\<close> shows.
\<close>

theorem block_sizing_covers:
  assumes "block_sizing b params q = (mb, cap)"
    and "\<forall>x \<in> {q, bpMinVolumeSize b}. quantity_wf x \<and> 0 \<le> quantity_val x \<and> \<lceil>quantity_val x\<rceil> \<le> 2 ^ 63 - 2 ^ 20"
  shows "quantity_val q \<le> quantity_val cap \<and>
    (cap = q \<or> cap = bpMinVolumeSize b \<and> bpVolumeRoundingEnabled b \<and> volumeRoundingEnabled params \<and>
      quantity_val q < quantity_val (bpMinVolumeSize b)) \<and>
    quantity_val cap \<le> of_int (mb * MiB) \<and> of_int (mb * MiB) < quantity_val cap + of_int MiB"
proof -
  have cmp: "Quantity_Cmp (bpMinVolumeSize b) q = rat_cmp (quantity_val (bpMinVolumeSize b)) (quantity_val q)"
    using assms(2) by (intro Quantity_Cmp_correct) auto
  let ?raised = "volumeRoundingEnabled params \<and> bpVolumeRoundingEnabled b \<and> quantity_val q < quantity_val (bpMinVolumeSize b)"
  have eq: "(mb, cap) = (if ?raised then (roundUpSize (Value (bpMinVolumeSize b)) MiB, bpMinVolumeSize b)
      else (roundUpSize (Value q) MiB, q))"
    using assms(1) unfolding block_sizing_def cmp rat_cmp_greater by (rule sym)
  show ?thesis
  proof (cases ?raised)
    case True
    with eq have "mb = roundUpSize (Value (bpMinVolumeSize b)) MiB" "cap = bpMinVolumeSize b" by simp_all
    with True assms(2) Value_roundUp [of "bpMinVolumeSize b"] show ?thesis by simp
  next
    case False
    with eq have "mb = roundUpSize (Value q) MiB" "cap = q" by (simp_all only: if_False prod.inject)
    with assms(2) Value_roundUp [of q] show ?thesis by simp
  qed
qed

theorem block_sizing_covers_witness:
  "quantity_val (GiB 20) \<le> quantity_val (GiB 50) \<and> quantity_val (GiB 50) \<le> of_int (51200 * MiB)"
  using block_sizing_covers [OF mock_sizing [of "''AVAILABLE''" "NewMock None" Minute]]
  by (simp add: mock_block_def GiB_def quantity_wf_def quantity_val_def NewQuantity_def amount_val_def in64_def)

text \<open>
  For a capacity within one MiB of \<open>2 ^ 63\<close> the addition in \<open>roundUpSize\<close> wraps around, and the
  size to request is negative.
\<close>

theorem roundUpSize_wraps:
  assumes "2 ^ 63 - MiB < v" and "v < 2 ^ 63"
  shows "roundUpSize v MiB < 0"
proof -
  have "wrap64 (v + MiB) = v + MiB - 2 ^ 64"
    using assms by (intro wrap64_above) auto
  then have *: "wrap64 (wrap64 (v + MiB) - 1) = - (2 ^ 64 - v - MiB + 1)"
    using assms by (subst wrap64_id) (auto simp: in64_def)
  let ?k = "(2 ^ 64 - v - MiB + 1) div MiB"
  have "- (2 ^ 64 - v - MiB + 1) sdiv MiB = - ?k"
    using assms by (auto simp: signed_divide_int_def sgn_if)
  moreover have "?k \<le> 2 ^ 63 div MiB" "2 ^ 62 div MiB \<le> ?k"
    using assms by (auto intro!: zdiv_mono1)
  ultimately show ?thesis
    unfolding roundUpSize_def quo64_def * by (subst wrap64_id) (auto simp: in64_def)
qed

theorem roundUpSize_wraps_witness: "roundUpSize 9223372036854775807 MiB < 0"
  by (rule roundUpSize_wraps) simp_all

section \<open>Termination, refusals and deletion\<close>

lemma waitForVolumeAvailable_total [go_total]:
  "tmo \<noteq> 0 \<Longrightarrow> go_total (waitForVolumeAvailable b ctx vid tmo)"
  unfolding waitForVolumeAvailable_def by (rule vol.poll_total [OF five_seconds])

lemma block_Provision_total:
  assumes "bpTimeout b \<noteq> 0" and "client_ok (bpClient b)"
  shows "go_total (block_Provision b opts ad)"
  using assms unfolding block_Provision_def block_create_def block_region_def client_ok_def split_beta
  by (intro go_total GetPrefix_total; simp)

lemma block_Provision_sends:
  assumes "bpTimeout b \<noteq> 0" and "client_ok (bpClient b)"
  shows "sends (nat (bpTimeout b div (Second * 5)) + 5) (block_Provision b opts ad)"
proof -
  have wait: "sends (nat (bpTimeout b div (Second * 5)) + 2) (waitForVolumeAvailable b ctx vid (bpTimeout b))"
    for ctx vid
    unfolding waitForVolumeAvailable_def
    by (rule sendsI) (use vol.poll_bound [OF _ five_seconds assms(1)] in \<open>simp add: add.assoc\<close>)
  have comp: "sends 0 (pcCompartmentOCID (bpClient b))"
    using assms(2) by (auto simp: client_ok_def intro: sends_quiet)
  have create: "sends (nat (bpTimeout b div (Second * 5)) + 4) (block_create b d)" for d
    unfolding block_create_def by (rule sends_mono, (rule wait sends_rules)+, simp)
  have region: "sends 1 (block_region b)"
    unfolding block_region_def by (rule sends_mono, (rule sends_rules)+, simp)
  show ?thesis
    unfolding block_Provision_def
    by (rule sends_mono, (rule comp create region sends_quiet [OF GetPrefix_frame(2)] sends_rules)+, simp)
qed

text \<open>
  C20: \<open>Provision\<close> returns, after a bounded number of requests. With a timeout other than 0 and a client
  whose \<open>CompartmentOCID\<close> returns, every call ends, whatever the services answer and however long
  they take, and it sends at most one request per five seconds of the timeout, plus five.
\<close>

theorem block_Provision_bounded:
  assumes "bpTimeout b \<noteq> 0" and "client_ok (bpClient b)"
  shows "\<exists>r w'. block_Provision b opts ad w = Some (r, w') \<and>
    length (new_events w w') \<le> nat (bpTimeout b div (Second * 5)) + 5"
proof -
  obtain r w' where run: "block_Provision b opts ad w = Some (r, w')"
    using go_totalE [OF block_Provision_total [OF assms]] by blast
  with sendsD [OF block_Provision_sends [OF assms] run] show ?thesis
    by (auto simp: new_events_def)
qed

theorem block_Provision_bounded_witness:
  "\<exists>r w'. block_Provision (mock_block ''PROVISIONING'' (NewMock None) Minute) (claim [ReadWriteOnce] 20 Map.empty)
      defaultAD (initial Map.empty) = Some (r, w') \<and> length (new_events (initial Map.empty) w') \<le> 17"
  using block_Provision_bounded [of "mock_block ''PROVISIONING'' (NewMock None) Minute"
      "claim [ReadWriteOnce] 20 Map.empty" defaultAD "initial Map.empty"]
  by (simp add: Minute_def Second_def)

text \<open>
  A claim with an access mode other than ReadWriteOnce, or without a storage request, is refused
  with an error before anything is sent or changed.
\<close>

theorem block_Provision_rejects:
  assumes "optPVC opts = Some pvc"
    and "(\<exists>m \<in> set (pvcAccessModes pvc). m \<noteq> ReadWriteOnce) \<or> pvcRequests pvc ResourceStorage = None"
  shows "\<exists>e. block_Provision b opts ad w = Some (Err e, w)"
proof -
  have "\<nexists>pvc q. block_accepts opts pvc q" using assms by (auto simp: block_accepts_def)
  then show ?thesis
    by (rule block_Provision_rejected [of opts b ad w]) (use assms(1) in auto)
qed

theorem block_Provision_rejects_witness:
  "\<exists>e. block_Provision (mock_block ''AVAILABLE'' (NewMock None) Minute) (claim [ReadOnlyMany] 20 Map.empty)
     defaultAD (initial Map.empty) = Some (Err e, initial Map.empty)"
  by (rule block_Provision_rejects [where pvc = "the (optPVC (claim [ReadOnlyMany] 20 Map.empty))"])
    (simp_all add: claim_def)

text \<open>
  C18: \<open>Delete\<close> always returns. Without the identifier's annotation it fails and sends nothing. Otherwise
  it sends exactly one request, to delete the annotated volume, under the client's timeout; it succeeds
  when the service does, and also when the service says in any of three ways that there is no such
  volume; every other error is passed on.
\<close>

theorem block_Delete_spec:
  "\<exists>r w'. block_Delete b pv w = Some (r, w') \<and>
    (case map_get (pvAnnotations pv) OCIVolumeID of
       None \<Rightarrow> r = Err (Errorf ''volumeid annotation not found on PV'' []) \<and> w' = w
     | Some volID \<Rightarrow> \<exists>x resp err. new_events w w' = [x] \<and> evCtx x = Some (clock w + pcTimeout (bpClient b)) \<and>
         evCall x = CallDeleteVolume (Some volID) (resp, err) \<and>
         r = (case err of None \<Rightarrow> Ok () | Some e \<Rightarrow>
           if dvRawResponse resp = Some 404 \<or> Cause e = ErrNotFound \<or> (\<exists>code msg. Cause e = Servicefailure 404 code msg)
           then Ok () else Err e))"
proof (cases "map_get (pvAnnotations pv) OCIVolumeID")
  case (Some volID)
  let ?ctx = "Some (clock w + pcTimeout (bpClient b))"
  have ctx: "WithTimeout Background (clock w) (pcTimeout (bpClient b)) = ?ctx"
    by (simp add: WithTimeout_def Background_def)
  obtain resp err d cl where api:
    "DeleteVolume (pcBlockStorage (bpClient b)) ?ctx (Some volID) (clock w) (cloud w) = ((resp, err), d, cl)"
    by (metis prod_cases3 surj_pair)
  show ?thesis
    by (cases err)
      (auto simp: Some block_Delete_def go_simps go_bind_invoke [of "DeleteVolume _ _ _", OF api] new_events_def
        StatusNotFound_def ctx IsNotFound_iff)
qed (simp add: block_Delete_def go_simps)

section \<open>The block provisioner is a plugin\<close>

interpretation blk: provisioner_plugin "block_Provision (b\<lparr>bpClient := client_of p\<rparr>)"
  "block_Delete (b\<lparr>bpClient := client_of p\<rparr>)" "{OCIVolumeID}"
  for b :: "'c blockProvisioner" and p :: "'c provisionerClient"
proof unfold_locales
  fix opts ad show "keeps extends (block_Provision (b\<lparr>bpClient := client_of p\<rparr>) opts ad)"
    by (rule block_Provision_frame) simp
next
  fix pv show "keeps extends (block_Delete (b\<lparr>bpClient := client_of p\<rparr>) pv)"
    by (rule block_Delete_frame)
next
  fix opts ad w pv w'
  assume "block_Provision (b\<lparr>bpClient := client_of p\<rparr>) opts ad w = Some (Ok pv, w')"
  moreover have "client_ok (bpClient (b\<lparr>bpClient := client_of p\<rparr>))" by simp
  ultimately show "(\<exists>a. pvAnnotations pv = Some a \<and> {OCIVolumeID} \<subseteq> dom a) \<and> pvLabels pv \<noteq> None"
    by (cases rule: block_Provision_cases) (fastforce simp: block_pv_def)+
next
  fix pv pv' :: PersistentVolume
  assume "\<And>k. k \<in> {OCIVolumeID} \<Longrightarrow> map_get (pvAnnotations pv) k = map_get (pvAnnotations pv') k"
  then show "block_Delete (b\<lparr>bpClient := client_of p\<rparr>) pv = block_Delete (b\<lparr>bpClient := client_of p\<rparr>) pv'"
    by (simp add: block_Delete_def)
qed

end
