(* ===== verification/Block_Protocol.thy ===== *)
theory Block_Protocol
  imports Block
begin

text \<open>
  The block provisioner against two specifications: a protocol, the state machine of the life of one
  volume that every call of \<open>Provision\<close> follows (\<open>vstep\<close>), and progress, that \<open>Provision\<close> succeeds if
  the service makes the volume available in time.
\<close>

section \<open>Progress\<close>

text \<open>
  A service that creates the volume \<open>ocid\<close>, answers every request within \<open>dur\<close> while its context has
  not expired, never reports a failure, and reports the volume available from \<open>ready\<close> on.
\<close>

definition serves_volume :: "'c BlockStorage \<Rightarrow> string \<Rightarrow> time \<Rightarrow> int \<Rightarrow> bool" where
  "serves_volume bs ocid ready dur \<longleftrightarrow>
     (\<forall>ctx t c details. \<not> expired ctx t \<longrightarrow>
       (\<exists>vol d c'. CreateVolume bs ctx details t c = (Inr vol, d, c') \<and> volId vol = Some ocid \<and> int d \<le> dur)) \<and>
     (\<forall>ctx t c. \<not> expired ctx t \<longrightarrow>
       (\<exists>vol d c'. GetVolume bs ctx (Some ocid) t c = (Inr vol, d, c') \<and> int d \<le> dur \<and>
         volLifecycleState vol \<notin> {VolumeLifecycleStateFaulty, VolumeLifecycleStateTerminated, VolumeLifecycleStateTerminating} \<and>
         (ready \<le> t \<longrightarrow> volLifecycleState vol = VolumeLifecycleStateAvailable)))"

lemma volume_condition_settles:
  assumes "serves_volume (pcBlockStorage (bpClient b)) ocid ready dur" and "0 < pcTimeout (bpClient b)"
  shows "settles ready dur l (volume_condition b (Some l) (Some ocid))"
  unfolding settles_def
proof (intro allI impI)
  fix v :: unit and s :: "'a world" assume "clock s < l"
  let ?ctx = "WithTimeout (Some l) (clock s) (pcTimeout (bpClient b))"
  have "\<not> expired ?ctx (clock s)" using \<open>clock s < l\<close> assms(2) by (simp add: WithTimeout_def expired_def)
  then obtain vol d c' where g: "GetVolume (pcBlockStorage (bpClient b)) ?ctx (Some ocid) (clock s) (cloud s) = (Inr vol, d, c')"
    "int d \<le> dur" "volLifecycleState vol \<notin> {VolumeLifecycleStateFaulty, VolumeLifecycleStateTerminated, VolumeLifecycleStateTerminating}"
    "ready \<le> clock s \<longrightarrow> volLifecycleState vol = VolumeLifecycleStateAvailable"
    using assms(1) unfolding serves_volume_def by metis
  let ?s = "sent ?ctx (CallGetVolume (Some ocid) (Inr vol)) d c' s"
  have "volume_condition b (Some l) (Some ocid) v s =
      Some (Ok (volLifecycleState vol = VolumeLifecycleStateAvailable, ()), ?s)"
    using g(3) by (simp add: volume_condition_def isVolumeReady_def go_try_def go_simps
        go_bind_invoke [of "GetVolume _ _ _", OF g(1)] Let_def)
  then show "\<exists>d v' s'. volume_condition b (Some l) (Some ocid) v s = Some (Ok (d, v'), s') \<and>
      clock s \<le> clock s' \<and> clock s' \<le> clock s + dur \<and> (ready \<le> clock s \<longrightarrow> d)"
    using g(2,4) by auto
qed

lemma block_create_succeeds:
  assumes "serves_volume (pcBlockStorage (bpClient b)) ocid ready dur" and "0 < pcTimeout (bpClient b)"
    and "bpTimeout b \<noteq> 0" and "ready \<le> clock w + bpTimeout b"
    and "ready + dur + 5 * Second \<le> clock w + pcTimeout (bpClient b)" and "dur < pcTimeout (bpClient b)"
  shows "\<exists>w'. block_create b d w = Some (Ok ocid, w')"
proof -
  let ?l = "clock w + pcTimeout (bpClient b)"
  let ?ctx = "Some ?l"
  have "\<not> expired ?ctx (clock w)" using assms(2) by (simp add: expired_def)
  then obtain vol du c' where cr: "CreateVolume (pcBlockStorage (bpClient b)) ?ctx d (clock w) (cloud w) = (Inr vol, du, c')"
    "volId vol = Some ocid" "int du \<le> dur"
    using assms(1) unfolding serves_volume_def by metis
  let ?w = "sent ?ctx (CallCreateVolume d (Inr vol)) du c' w"
  have "\<exists>v' s'. PollImmediate (Second * 5) (bpTimeout b) (volume_condition b ?ctx (Some ocid)) () ?w = Some (Ok v', s')"
    by (rule PollImmediate_settles [OF volume_condition_settles [OF assms(1,2)]])
      (use assms(3-6) cr(3) in \<open>simp_all add: Second_def\<close>)
  then obtain s' where wait: "waitForVolumeAvailable b ?ctx (Some ocid) (bpTimeout b) ?w = Some (Ok (), s')"
    by (auto simp: waitForVolumeAvailable_def)
  show ?thesis
    by (simp add: block_create_def go_simps WithTimeout_def Background_def go_bind_invoke [of "CreateVolume _ _ _", OF cr(1)] cr(2)
        go_try_def wait)
qed

lemma block_Provision_served:
  assumes "serves_volume (pcBlockStorage (bpClient b)) ocid ready dur"
    and "block_accepts opts pvc q" and "adName ad = Some a"
    and "pcCompartmentOCID (bpClient b) w = Some (Ok compartment, w)"
    and "environ w ''OCI_SHORT_REGION'' = Some region"
    and "bpTimeout b \<noteq> 0" and "ready \<le> clock w + bpTimeout b"
    and "ready + dur + 5 * Second \<le> clock w + pcTimeout (bpClient b)" and "dur < pcTimeout (bpClient b)" and "0 \<le> dur"
  shows "\<exists>w' details. block_Provision b opts ad w =
      Some (Ok (block_pv opts pvc a (snd (block_sizing b (optParameters opts) q)) ocid region), w') \<and>
    block_create b details w = Some (Ok ocid, w')"
proof -
  have pos: "0 < pcTimeout (bpClient b)" using assms(9,10) by simp
  obtain p where p: "GetPrefix w = Some (Ok p, w)" by (rule GetPrefix_run)
  let ?d = "volumeDetails pvc ad compartment p (fst (block_sizing b (optParameters opts) q))"
  from block_create_succeeds [OF assms(1) pos assms(6-9)]
  obtain w' where cr: "block_create b ?d w = Some (Ok ocid, w')" by blast
  have "environ w' = environ w" using keepsD [OF block_create_frame cr] by (simp add: extends_def)
  then have "block_region b w' = Some (Ok region, w')" using assms(5) by (simp add: block_region_def go_simps)
  then have "block_Provision b opts ad w = Some (Ok (block_pv opts pvc a (snd (block_sizing b (optParameters opts) q)) ocid region), w')"
    by (simp add: block_Provision_accepted [OF assms(2,3)] go_bind_def [of "pcCompartmentOCID _"] assms(4)
        go_bind_def [of GetPrefix] p go_bind_def [of "block_create _ _"] cr go_bind_def [of "block_region _"] go_simps)
  with cr show ?thesis by blast
qed

text \<open>
  A claim gets its volume. Suppose the service answers every request within \<open>dur\<close>, and reports the new
  volume available from \<open>ready\<close> on. If \<open>ready\<close> is within the timeout of the wait, and the context of
  the creation leaves time for one more poll after it, then \<open>Provision\<close> returns the volume, for every
  acceptable claim, whatever the runtime chooses where a tick and the timeout coincide.
\<close>

theorem block_Provision_succeeds:
  assumes "serves_volume (pcBlockStorage (bpClient b)) ocid ready dur"
    and "block_accepts opts pvc q" and "adName ad = Some a"
    and "pcCompartmentOCID (bpClient b) w = Some (Ok compartment, w)"
    and "environ w ''OCI_SHORT_REGION'' = Some region"
    and "bpTimeout b \<noteq> 0" and "ready \<le> clock w + bpTimeout b"
    and "ready + dur + 5 * Second \<le> clock w + pcTimeout (bpClient b)" and "dur < pcTimeout (bpClient b)" and "0 \<le> dur"
  shows "\<exists>pv w'. block_Provision b opts ad w = Some (Ok pv, w') \<and> pvName pv = ocid \<and>
    map_get (pvLabels pv) LabelZoneRegion = Some region"
  using block_Provision_served [OF assms] by (auto simp: block_pv_def)

theorem block_Provision_succeeds_witness:
  "\<exists>pv w'. block_Provision (mock_block VolumeLifecycleStateAvailable (NewMock None) Minute)
      (claim [ReadWriteOnce] 20 Map.empty) defaultAD (initial [''OCI_SHORT_REGION'' \<mapsto> ''phx'']) = Some (Ok pv, w') \<and>
    pvName pv = VolumeBackupID \<and> map_get (pvLabels pv) LabelZoneRegion = Some ''phx''"
proof (rule block_Provision_succeeds [where ready = 0 and dur = 0])
  show "block_accepts (claim [ReadWriteOnce] 20 Map.empty) (the (optPVC (claim [ReadWriteOnce] 20 Map.empty))) (GiB 20)"
    by (rule claim_accepts)
  show "serves_volume (pcBlockStorage (bpClient (mock_block VolumeLifecycleStateAvailable (NewMock None) Minute))) VolumeBackupID 0 0"
    by (simp add: serves_volume_def MockBlockStorageClient_def)
qed (simp_all add: defaultAD_def go_simps Minute_def Second_def)

section \<open>The protocol\<close>

text \<open>
  The life of one volume as the requests of a call see it. A call that returns a volume ends in
  \<open>VAvailable\<close>, and no call ends in \<open>VWaiting\<close>, where a volume exists that nobody waits for.
\<close>

datatype vstate = VStart | VRefused | VAnonymous | VWaiting string | VAvailable string | VDeleted string

inductive vstep :: "vstate \<Rightarrow> event \<Rightarrow> vstate \<Rightarrow> bool" where
  refused: "evCall e = CallCreateVolume d (Inl err) \<Longrightarrow> vstep VStart e VRefused"
| anonymous: "evCall e = CallCreateVolume d (Inr vol) \<Longrightarrow> volId vol = None \<Longrightarrow> vstep VStart e VAnonymous"
| created: "evCall e = CallCreateVolume d (Inr vol) \<Longrightarrow> volId vol = Some i \<Longrightarrow> vstep VStart e (VWaiting i)"
| polled: "get_event (Some i) e \<Longrightarrow> vstep (VWaiting i) e (VWaiting i)"
| available: "available_event (Some i) e \<Longrightarrow> vstep (VWaiting i) e (VAvailable i)"
| deleted: "evCall e = CallDeleteVolume (Some i) resp \<Longrightarrow> vstep (VWaiting i) e (VDeleted i)"
| located: "metadata_event e \<Longrightarrow> vstep (VAvailable i) e (VAvailable i)"

inductive vsteps :: "vstate \<Rightarrow> event list \<Rightarrow> vstate \<Rightarrow> bool" where
  vnil: "vsteps s [] s"
| vcons: "vstep s e t \<Longrightarrow> vsteps t es u \<Longrightarrow> vsteps s (e # es) u"

inductive_cases vstep_StartE: "vstep VStart e t"
inductive_cases vstep_WaitingE: "vstep (VWaiting i) e t"
inductive_cases vstep_AvailableE: "vstep (VAvailable i) e t"
inductive_simps vstep_final [simp]: "vstep VRefused e t" "vstep VAnonymous e t" "vstep (VDeleted i) e t"
inductive_simps vsteps_Nil [simp]: "vsteps s [] t"
inductive_simps vsteps_Cons: "vsteps s (e # es) t"

lemma vsteps_append: "vsteps s es t \<Longrightarrow> vsteps t fs u \<Longrightarrow> vsteps s (es @ fs) u"
  by (induction rule: vsteps.induct) (auto intro: vcons)

lemma vsteps_polls: "\<forall>x \<in> set es. get_event (Some i) x \<Longrightarrow> vsteps (VWaiting i) es (VWaiting i)"
  by (induction es) (auto intro: vnil vcons polled)

lemma vsteps_located: "\<forall>x \<in> set es. metadata_event x \<Longrightarrow> vsteps (VAvailable i) es (VAvailable i)"
  by (induction es) (auto intro: vnil vcons located)

lemma vsteps_one: "vstep s e t \<Longrightarrow> vsteps s [e] t"
  by (auto intro: vnil vcons)

lemma creates_vsteps:
  assumes "creates b d w r w'"
  obtains s where "vsteps VStart (new_events w w') s" "\<And>i. s \<noteq> VWaiting i" "\<And>i. r = Ok i \<Longrightarrow> s = VAvailable i"
    "\<And>i. r \<noteq> Ok i \<Longrightarrow> s \<noteq> VAvailable i"
  using assms
proof (cases rule: creates.cases)
  case (refused c err)
  then have "vsteps VStart [c] VRefused" by (intro vsteps_one vstep.refused)
  with refused show thesis by (intro that [of VRefused]) (simp_all add: new_events_def)
next
  case (anonymous c vol)
  then have "vsteps VStart [c] VAnonymous" by (intro vsteps_one vstep.anonymous)
  with anonymous show thesis by (intro that [of VAnonymous]) (simp_all add: new_events_def)
next
  case (available c vol ocid polls g)
  then have "vsteps VStart ([c] @ polls @ [g]) (VAvailable ocid)"
    by (intro vsteps_append [OF vsteps_one [OF vstep.created [OF available(2,3)]]]
        vsteps_append [OF vsteps_polls vsteps_one [OF vstep.available [OF available(6)]]]) simp
  with available show thesis by (intro that [of "VAvailable ocid"]) (simp_all add: new_events_def)
next
  case (cleaned_up c vol ocid polls x resp err)
  then have "vsteps VStart ([c] @ polls @ [x]) (VDeleted ocid)"
    by (intro vsteps_append [OF vsteps_one [OF vstep.created [OF cleaned_up(2,3)]]]
        vsteps_append [OF vsteps_polls vsteps_one [OF vstep.deleted [OF cleaned_up(6)]]])
  with cleaned_up show thesis by (intro that [of "VDeleted ocid"]) (simp_all add: new_events_def)
qed

lemma block_Provision_vsteps:
  assumes run: "block_Provision b opts ad w = Some (r, w')" and ok: "client_ok (bpClient b)"
  obtains s where "vsteps VStart (new_events w w') s" "\<And>i. s \<noteq> VWaiting i" "\<And>pv. r = Ok pv \<Longrightarrow> s = VAvailable (pvName pv)"
  using run ok
proof (cases rule: block_Provision_cases)
  case unsent
  then have "new_events w w' = []" by (simp add: new_events_def)
  then show thesis using unsent(2) by (intro that [of VStart]) auto
next
  case (not_created pvc q c p w1 r1)
  from not_created(3) obtain s where "vsteps VStart (new_events w1 w') s" "\<And>i. s \<noteq> VWaiting i"
    by (rule creates_vsteps) blast
  with not_created(2,4) show thesis by (intro that [of s]) (auto simp: new_events_def)
next
  case (created pvc q a c p w1 ocid w2 md)
  from created(4) obtain s where s: "vsteps VStart (new_events w1 w2) s" "s = VAvailable ocid"
    by (rule creates_vsteps) simp
  have w2: "events w2 = events w @ new_events w1 w2"
    using created(4,3) by (cases rule: creates.cases) (simp_all add: new_events_def)
  have "new_events w w' = new_events w1 w2 @ md"
    unfolding new_events_def [of w w'] created(5) by (subst w2) simp
  then have "vsteps VStart (new_events w w') (VAvailable ocid)"
    using s vsteps_located [OF created(7)] by (auto intro: vsteps_append)
  with created(8) show thesis by (intro that [of "VAvailable ocid"]) (auto simp: block_pv_def)
qed

definition deletion :: "event \<Rightarrow> bool" where
  "deletion e \<longleftrightarrow> (\<exists>v resp. evCall e = CallDeleteVolume v resp)"

definition creation :: "event \<Rightarrow> bool" where
  "creation e \<longleftrightarrow> (\<exists>d res. evCall e = CallCreateVolume d res)"

definition created_as :: "string \<Rightarrow> event \<Rightarrow> bool" where
  "created_as i e \<longleftrightarrow> (\<exists>d vol. evCall e = CallCreateVolume d (Inr vol) \<and> volId vol = Some i)"

lemmas protocol_events = deletion_def creation_def created_as_def get_event_def available_event_def metadata_event_def

lemma vsteps_final: "vsteps (VDeleted i) es s \<longleftrightarrow> es = [] \<and> s = VDeleted i"
  "vsteps VRefused es s \<longleftrightarrow> es = [] \<and> s = VRefused" "vsteps VAnonymous es s \<longleftrightarrow> es = [] \<and> s = VAnonymous"
  by (cases es; auto simp: vsteps_Cons)+

lemma vsteps_Available:
  "vsteps (VAvailable i) es s \<Longrightarrow> s = VAvailable i \<and> (\<forall>x \<in> set es. metadata_event x)"
  by (induction "VAvailable i" es s rule: vsteps.induct) (auto elim: vstep_AvailableE)

text \<open>Of a volume that exists, nothing is created any more, and a deletion is its own and the last request.\<close>

lemma vsteps_Waiting:
  "vsteps (VWaiting i) es s \<Longrightarrow> (\<forall>x \<in> set es. \<not> creation x) \<and>
    ((\<forall>x \<in> set es. \<not> deletion x) \<and> s \<in> {VWaiting i, VAvailable i} \<or>
     (\<exists>pre x resp. es = pre @ [x] \<and> (\<forall>y \<in> set pre. \<not> deletion y) \<and> evCall x = CallDeleteVolume (Some i) resp \<and> s = VDeleted i))"
proof (induction "VWaiting i" es s rule: vsteps.induct)
  case (vcons e t es u)
  from vcons(1) show ?case
  proof (cases rule: vstep.cases)
    case polled
    then have "\<not> creation e" "\<not> deletion e" by (auto simp: protocol_events)
    with vcons(3) polled show ?thesis by (metis append_Cons set_ConsD vstate.inject(1))
  next
    case available
    then have "\<not> creation e" "\<not> deletion e" by (auto simp: protocol_events)
    with vsteps_Available [of i es u] vcons(2) available show ?thesis by (auto simp: protocol_events)
  next
    case (deleted resp)
    then have "es = []" "u = VDeleted i" using vcons(2) by (simp_all add: vsteps_final)
    with deleted show ?thesis by (auto simp: protocol_events)
  qed
qed simp

lemma vsteps_Start:
  assumes "vsteps VStart es s"
  obtains (none) "es = []" "s = VStart"
    | (failed) c where "es = [c]" "creation c" "s \<in> {VRefused, VAnonymous}"
    | (exists) c i rest where "es = c # rest" "created_as i c" "vsteps (VWaiting i) rest s"
  using assms
proof (cases rule: vsteps.cases)
  case (vcons e t rest)
  from vcons(2) show thesis
    by (cases rule: vstep_StartE) (use vcons none failed exists in \<open>auto simp: vsteps_final protocol_events\<close>)
qed (use none in simp)

text \<open>
  C11: \<open>Provision\<close> implements the protocol of a volume's life. The requests of every call, however it ends, are
  a run of the protocol from its start; a call that returns a volume has brought that volume to
  \<open>VAvailable\<close>, and no call stops while a volume that it created is neither available nor asked to be deleted.
\<close>

theorem block_Provision_protocol:
  assumes "block_Provision b opts ad w = Some (r, w')" and "client_ok (bpClient b)"
  shows "\<exists>s. vsteps VStart (new_events w w') s \<and> (\<forall>i. s \<noteq> VWaiting i) \<and>
    (\<forall>pv. r = Ok pv \<longrightarrow> s = VAvailable (pvName pv))"
  by (rule block_Provision_vsteps [OF assms]) blast

theorem block_Provision_protocol_witness:
  "\<exists>r w' s. block_Provision (mock_block ''PROVISIONING'' (NewMock None) Second)
      (claim [ReadWriteOnce] 20 Map.empty) defaultAD (initial Map.empty) = Some (r, w') \<and>
    vsteps VStart (new_events (initial Map.empty) w') s \<and> s = VDeleted VolumeBackupID"
proof -
  obtain w' c x d where run: "block_Provision (mock_block ''PROVISIONING'' (NewMock None) Second)
      (claim [ReadWriteOnce] 20 Map.empty) defaultAD (initial Map.empty) = Some (Err ErrWaitTimeout, w')"
    "x \<in> set (new_events (initial Map.empty) w')"
    "evCall x = CallDeleteVolume (Some VolumeBackupID) (\<lparr>dvRawResponse = None\<rparr>, None)"
    using mock_run_timeout by blast
  from block_Provision_protocol [OF run(1) mock_block_client_ok] obtain s where
    s: "vsteps VStart (new_events (initial Map.empty) w') s" by blast
  have x: "deletion x" using run(3) by (simp add: deletion_def)
  from s have "s = VDeleted VolumeBackupID"
  proof (cases rule: vsteps_Start)
    case (exists c i rest)
    then have "x \<in> set rest" using run(2) x by (auto simp: protocol_events)
    with vsteps_Waiting [OF exists(3)] x run(3) show ?thesis
      by (metis Un_iff call.inject(2) empty_iff list.set(1) option.inject set_ConsD set_append)
  qed (use run(2) x in \<open>auto simp: protocol_events\<close>)
  with run s show ?thesis by blast
qed

text \<open>
  \<open>Provision\<close> deletes only what it created. In every call, however it ends, at most one volume is created,
  and if a volume is deleted, then it is the one that an earlier request of the same call created, the
  deletion is the last request of the call, and the call does not return a volume.
\<close>

theorem block_Provision_owns:
  assumes "block_Provision b opts ad w = Some (r, w')" and "client_ok (bpClient b)"
  shows "length (filter creation (new_events w w')) \<le> 1 \<and>
    (\<forall>x \<in> set (new_events w w'). deletion x \<longrightarrow>
      (\<exists>c pre i resp. new_events w w' = c # pre @ [x] \<and> created_as i c \<and> evCall x = CallDeleteVolume (Some i) resp \<and>
        (\<forall>pv. r \<noteq> Ok pv)))"
proof -
  obtain s where s: "vsteps VStart (new_events w w') s" "\<And>pv. r = Ok pv \<Longrightarrow> s = VAvailable (pvName pv)"
    by (rule block_Provision_vsteps [OF assms]) blast
  from s(1) show ?thesis
  proof (cases rule: vsteps_Start)
    case (exists c i rest)
    have c: "creation c" "\<not> deletion c" using exists(2) by (auto simp: protocol_events)
    from vsteps_Waiting [OF exists(3)] have rest: "filter creation rest = []"
      "(\<forall>x \<in> set rest. \<not> deletion x) \<or>
       (\<exists>pre x resp. rest = pre @ [x] \<and> (\<forall>y \<in> set pre. \<not> deletion y) \<and> evCall x = CallDeleteVolume (Some i) resp \<and> s = VDeleted i)"
      by (auto simp: filter_empty_conv)
    show ?thesis using rest(2)
    proof (elim disjE exE conjE)
      fix pre x resp
      assume "rest = pre @ [x]" "\<forall>y \<in> set pre. \<not> deletion y" "evCall x = CallDeleteVolume (Some i) resp" "s = VDeleted i"
      then show ?thesis using exists(1,2) c rest(1) s(2) by fastforce
    qed (use exists(1) c rest(1) in auto)
  qed (auto simp: protocol_events)
qed

theorem block_Provision_owns_witness:
  "\<exists>r w' c x i resp. block_Provision (mock_block ''PROVISIONING'' (NewMock None) Second)
      (claim [ReadWriteOnce] 20 Map.empty) defaultAD (initial Map.empty) = Some (r, w') \<and>
    c \<in> set (new_events (initial Map.empty) w') \<and> x \<in> set (new_events (initial Map.empty) w') \<and>
    created_as i c \<and> evCall x = CallDeleteVolume (Some i) resp"
proof -
  obtain w' x where run: "block_Provision (mock_block ''PROVISIONING'' (NewMock None) Second)
      (claim [ReadWriteOnce] 20 Map.empty) defaultAD (initial Map.empty) = Some (Err ErrWaitTimeout, w')"
    "x \<in> set (new_events (initial Map.empty) w')"
    "evCall x = CallDeleteVolume (Some VolumeBackupID) (\<lparr>dvRawResponse = None\<rparr>, None)"
    using mock_run_timeout by blast
  then have "deletion x" by (simp add: deletion_def)
  with block_Provision_owns [OF run(1) mock_block_client_ok] run obtain c pre i resp where
    "new_events (initial Map.empty) w' = c # pre @ [x]" "created_as i c" "evCall x = CallDeleteVolume (Some i) resp"
    by blast
  with run show ?thesis by (metis list.set_intros(1))
qed

end
