(* ===== verification/Fss.thy ===== *)
theory Fss
  imports Plugin Lifecycle Mocks
begin

text \<open>
  The file system provisioner, \<open>pkg/provisioner/fss/fss.go\<close>: a claim becomes a file system, found by
  its display name or created, and an export of it on the mount target that the claim names, found or
  created. Each resource is polled until it is active.
\<close>

section \<open>Definitions\<close>

abbreviation fss_ociVolumeID :: string where
  "fss_ociVolumeID \<equiv> ''volume.beta.kubernetes.io/oci-volume-id''"
abbreviation ociExportID :: string where
  "ociExportID \<equiv> ''volume.beta.kubernetes.io/oci-export-id''"
abbreviation AnnotationMountTargetID :: string where
  "AnnotationMountTargetID \<equiv> ''volume.beta.kubernetes.io/oci-mount-target-id''"
abbreviation MntTargetID :: string where "MntTargetID \<equiv> ''mntTargetId''"

definition defaultTimeout :: duration where "defaultTimeout = 5 * Minute"
definition defaultInterval :: duration where "defaultInterval = 5 * Second"

abbreviation StateCreating :: string where "StateCreating \<equiv> ''CREATING''"
abbreviation StateActive :: string where "StateActive \<equiv> ''ACTIVE''"
abbreviation StateDeleting :: string where "StateDeleting \<equiv> ''DELETING''"
abbreviation StateDeleted :: string where "StateDeleted \<equiv> ''DELETED''"
abbreviation StateFailed :: string where "StateFailed \<equiv> ''FAILED''"

record 'c filesystemProvisioner =
  fspClient :: "'c ProvisionerClient"
  fspRegion :: string

subsection \<open>Waiting for a resource\<close>

text \<open>
  The variables \<open>fs\<close>, \<open>mt\<close> and \<open>export\<close> that the conditions assign are nil pointers at first.
\<close>

definition fileSystem_condition ::
  "'c filesystemProvisioner \<Rightarrow> ctx \<Rightarrow> string \<Rightarrow> FileSystem option \<Rightarrow>
     ('c world, bool \<times> FileSystem option) go" where
  "fileSystem_condition fsp ctx ocid _ =
     go_bind (invoke (CallGetFileSystem (Some ocid)) ctx
       (GetFileSystem (pcFSS (fspClient fsp)) ctx (Some ocid))) (\<lambda>r.
     go_bind (of_result r) (\<lambda>fs.
       let state = fsLifecycleState fs in
       if state = StateActive then ret (True, Some fs)
       else if state = StateDeleting \<or> state = StateDeleted then
         go_bind (deref (fsId fs)) (\<lambda>i.
           fail (Errorf ''file system %q is in lifecycle state %q'' [FmtS i, FmtS state]))
       else ret (False, Some fs)))"

definition awaitFileSystem ::
  "'c filesystemProvisioner \<Rightarrow> ctx \<Rightarrow> string \<Rightarrow> ('c world, FileSystem option) go" where
  "awaitFileSystem fsp ctx ocid =
     PollImmediate defaultInterval defaultTimeout (fileSystem_condition fsp ctx ocid) None"

definition mountTarget_condition ::
  "'c filesystemProvisioner \<Rightarrow> ctx \<Rightarrow> string \<Rightarrow> MountTarget option \<Rightarrow>
     ('c world, bool \<times> MountTarget option) go" where
  "mountTarget_condition fsp ctx ocid _ =
     go_bind (invoke (CallGetMountTarget (Some ocid)) ctx
       (GetMountTarget (pcFSS (fspClient fsp)) ctx (Some ocid))) (\<lambda>r.
     go_bind (of_result r) (\<lambda>mt.
       let state = mtLifecycleState mt in
       if state = StateActive then ret (True, Some mt)
       else if state = StateFailed \<or> state = StateDeleting \<or> state = StateDeleted then
         go_bind (deref (mtId mt)) (\<lambda>i.
           fail (Errorf ''mount target %q is in lifecycle state %q and will not become ACTIVE''
             [FmtS i, FmtS state]))
       else ret (False, Some mt)))"

definition awaitMountTarget ::
  "'c filesystemProvisioner \<Rightarrow> ctx \<Rightarrow> string \<Rightarrow> ('c world, MountTarget option) go" where
  "awaitMountTarget fsp ctx ocid =
     PollImmediate defaultInterval defaultTimeout (mountTarget_condition fsp ctx ocid) None"

definition export_condition ::
  "'c filesystemProvisioner \<Rightarrow> ctx \<Rightarrow> string \<Rightarrow> Export option \<Rightarrow>
     ('c world, bool \<times> Export option) go" where
  "export_condition fsp ctx ocid _ =
     go_bind (invoke (CallGetExport (Some ocid)) ctx
       (GetExport (pcFSS (fspClient fsp)) ctx (Some ocid))) (\<lambda>r.
     go_bind (of_result r) (\<lambda>export.
       let state = exLifecycleState export in
       if state = StateActive then ret (True, Some export)
       else if state = StateDeleting \<or> state = StateDeleted then
         go_bind (deref (exId export)) (\<lambda>i.
           fail (Errorf ''export %q is in lifecycle state %q'' [FmtS i, FmtS state]))
       else ret (False, Some export)))"

definition awaitExport ::
  "'c filesystemProvisioner \<Rightarrow> ctx \<Rightarrow> string \<Rightarrow> ('c world, Export option) go" where
  "awaitExport fsp ctx ocid =
     PollImmediate defaultInterval defaultTimeout (export_condition fsp ctx ocid) None"

subsection \<open>Finding or creating the file system and the export\<close>

definition getFileSystemByDisplayName ::
  "'c filesystemProvisioner \<Rightarrow> ctx \<Rightarrow> string \<Rightarrow> string \<Rightarrow> ('c world, FileSystemSummary) go" where
  "getFileSystemByDisplayName fsp ctx ad displayName =
     go_bind (pcCompartmentOCID (fspClient fsp)) (\<lambda>compartment.
     go_bind (invoke (CallListFileSystems (Some compartment) (Some ad) (Some displayName)) ctx
       (ListFileSystems (pcFSS (fspClient fsp)) ctx (Some compartment) (Some ad) (Some displayName))) (\<lambda>r.
     go_bind (of_result r) (\<lambda>items.
       case items of
         [fs] \<Rightarrow> ret fs
       | _ # _ # _ \<Rightarrow> fail (Errorf ''found more than one file system with display name %q'' [FmtS displayName])
       | [] \<Rightarrow> fail FssErrNotFound)))"

definition getOrCreateFileSystem ::
  "'c filesystemProvisioner \<Rightarrow> ctx \<Rightarrow> string \<Rightarrow> string \<Rightarrow> ('c world, FileSystem option) go" where
  "getOrCreateFileSystem fsp ctx ad displayName =
     go_try (getFileSystemByDisplayName fsp ctx ad displayName) (\<lambda>found.
       case found of
         Inr fs \<Rightarrow> go_bind (deref (fssumId fs)) (awaitFileSystem fsp ctx)
       | Inl err \<Rightarrow>
           if err \<noteq> FssErrNotFound then fail err
           else
             go_bind (pcCompartmentOCID (fspClient fsp)) (\<lambda>compartment.
             let details = \<lparr>cfsCompartmentId = Some compartment, cfsAvailabilityDomain = Some ad,
               cfsDisplayName = Some displayName\<rparr> in
             go_bind (invoke (CallCreateFileSystem details) ctx
               (CreateFileSystem (pcFSS (fspClient fsp)) ctx details)) (\<lambda>r.
             go_bind (of_result r) (\<lambda>fs.
             go_bind (deref (fsId fs)) (awaitFileSystem fsp ctx)))))"

definition ListExports_page ::
  "'c filesystemProvisioner \<Rightarrow> ctx \<Rightarrow> string \<Rightarrow> string \<Rightarrow> string option \<Rightarrow>
     ('c world, ListExportsResponse) go" where
  \<comment> \<open>the request of one round of the loop of \<open>findExport\<close>\<close>
  "ListExports_page fsp ctx fsID exportSetID page =
     go_bind (pcCompartmentOCID (fspClient fsp)) (\<lambda>compartment.
     go_bind (invoke (CallListExports (Some compartment) (Some fsID) (Some exportSetID) page) ctx
       (ListExports (pcFSS (fspClient fsp)) ctx (Some compartment) (Some fsID) (Some exportSetID) page))
       of_result)"

definition usable_export :: "ExportSummary \<Rightarrow> bool" where
  "usable_export export \<longleftrightarrow>
     exsLifecycleState export = StateCreating \<or> exsLifecycleState export = StateActive"

text \<open>The loop runs until a page has no successor, so it may not return.\<close>

partial_function (option) findExport_loop ::
  "'c filesystemProvisioner \<Rightarrow> ctx \<Rightarrow> string \<Rightarrow> string \<Rightarrow> string option \<Rightarrow> 'c world \<Rightarrow>
     (ExportSummary outcome \<times> 'c world) option" where
  "findExport_loop fsp ctx fsID exportSetID page w =
     (case ListExports_page fsp ctx fsID exportSetID page w of
        None \<Rightarrow> None
      | Some (Ok resp, w') \<Rightarrow>
          (case find usable_export (leItems resp) of
             Some export \<Rightarrow> Some (Ok export, w')
           | None \<Rightarrow>
               (case leOpcNextPage resp of
                  None \<Rightarrow> Some (Err FssErrNotFound, w')
                | Some p \<Rightarrow> findExport_loop fsp ctx fsID exportSetID (Some p) w'))
      | Some (Err e, w') \<Rightarrow> Some (Err e, w')
      | Some (Panic p, w') \<Rightarrow> Some (Panic p, w')
      | Some (Exit n, w') \<Rightarrow> Some (Exit n, w'))"

definition findExport ::
  "'c filesystemProvisioner \<Rightarrow> ctx \<Rightarrow> string \<Rightarrow> string \<Rightarrow> ('c world, ExportSummary) go" where
  "findExport fsp ctx fsID exportSetID = findExport_loop fsp ctx fsID exportSetID None"

definition getOrCreateExport ::
  "'c filesystemProvisioner \<Rightarrow> ctx \<Rightarrow> string \<Rightarrow> string \<Rightarrow> ('c world, Export option) go" where
  "getOrCreateExport fsp ctx fsID exportSetID =
     go_try (findExport fsp ctx fsID exportSetID) (\<lambda>found.
       case found of
         Inr export \<Rightarrow> go_bind (deref (exsId export)) (awaitExport fsp ctx)
       | Inl err \<Rightarrow>
           if err \<noteq> FssErrNotFound then fail err
           else
             let details = \<lparr>ceExportSetId = Some exportSetID, ceFileSystemId = Some fsID,
               cePath = Some (''/'' @ fsID)\<rparr> in
             go_bind (invoke (CallCreateExport details) ctx
               (CreateExport (pcFSS (fspClient fsp)) ctx details)) (\<lambda>r.
             go_bind (of_result r) (\<lambda>export.
             go_bind (deref (exId export)) (awaitExport fsp ctx))))"

subsection \<open>The plugin\<close>

definition getMountTargetID :: "VolumeOptions \<Rightarrow> string" where
  "getMountTargetID opts =
     (case optPVC opts of
        Some pvc \<Rightarrow>
          (let mtID = map_get0 (Some (pvcAnnotations pvc)) AnnotationMountTargetID in
           if mtID \<noteq> [] then mtID else map_get0 (Some (optParameters opts)) MntTargetID)
      | None \<Rightarrow> map_get0 (Some (optParameters opts)) MntTargetID)"

fun isReadOnly :: "string list \<Rightarrow> bool" where
  "isReadOnly [] = True"
| "isReadOnly (mode # modes) =
     (if mode = ReadWriteMany \<or> mode = ReadWriteOnce then False else isReadOnly modes)"

definition mount_ip ::
  "'c filesystemProvisioner \<Rightarrow> ctx \<Rightarrow> string \<Rightarrow> MountTarget \<Rightarrow> ('c world, string) go" where
  \<comment> \<open>the address of one of the mount target's private IPs, chosen at random\<close>
  "mount_ip fsp ctx mtID target =
     go_bind rand_Int (\<lambda>n.
     go_bind (if mtPrivateIpIds target = [] then panics DivideByZero
       else index (mtPrivateIpIds target) (n mod length (mtPrivateIpIds target))) (\<lambda>i.
     go_bind (invoke (CallGetPrivateIp (Some i)) ctx
       (GetPrivateIp (pcVCN (fspClient fsp)) ctx (Some i))) (\<lambda>r.
     go_bind (of_result r) (\<lambda>ip.
       case ipAddress ip of
         None \<Rightarrow> fail (Errorf ''PrivateIp %q associated with MountTarget %q has no IpAddress''
           [FmtS i, FmtS mtID])
       | Some a \<Rightarrow> ret a))))"

definition zeroQuantity :: Quantity where
  "zeroQuantity = NewQuantity 0 []"

definition fss_pv ::
  "'c filesystemProvisioner \<Rightarrow> VolumeOptions \<Rightarrow> PersistentVolumeClaim \<Rightarrow> string \<Rightarrow> string \<Rightarrow> string \<Rightarrow> string \<Rightarrow>
     PersistentVolume" where
  "fss_pv fsp options pvc ip fsID exportID path =
     \<lparr>pvName = fsID,
      pvAnnotations = Some [fss_ociVolumeID \<mapsto> fsID, ociExportID \<mapsto> exportID],
      pvLabels = Some [LabelZoneRegion \<mapsto> fspRegion fsp],
      pvReclaimPolicy = optReclaimPolicy options,
      pvAccessModes = pvcAccessModes pvc,
      pvCapacity = [ResourceStorage \<mapsto>
        (case pvcRequests pvc ResourceStorage of Some q \<Rightarrow> q | None \<Rightarrow> zeroQuantity)],
      pvSource = NFS ip path (isReadOnly (pvcAccessModes pvc)),
      pvMountOptions = optMountOptions options\<rparr>"

text \<open>
  \<open>Provision\<close> in two parts: the mount target, and what is attached to it once it is known to be
  active, to have private IPs and to have an export set.
\<close>

definition fss_attach ::
  "'c filesystemProvisioner \<Rightarrow> VolumeOptions \<Rightarrow> PersistentVolumeClaim \<Rightarrow> AvailabilityDomain \<Rightarrow> string \<Rightarrow> string \<Rightarrow>
     MountTarget \<Rightarrow> string \<Rightarrow> ('c world, PersistentVolume) go" where
  "fss_attach fsp options pvc ad fsDisplayName mtID target exportSetID =
     go_bind (mount_ip fsp Background mtID target) (\<lambda>ip.
     go_bind (deref (adName ad)) (\<lambda>ad_name.
     go_bind (getOrCreateFileSystem fsp Background ad_name fsDisplayName) (\<lambda>f.
     go_bind (deref f) (\<lambda>fs.
     go_bind (deref (fsId fs)) (\<lambda>fsID.
     go_bind (getOrCreateExport fsp Background fsID exportSetID) (\<lambda>e.
     go_bind (deref e) (\<lambda>export.
     go_bind (deref (exId export)) (\<lambda>exportID.
     go_bind (deref (exPath export)) (\<lambda>path.
     ret (fss_pv fsp options pvc ip fsID exportID path))))))))))"

definition fss_Provision ::
  "'c filesystemProvisioner \<Rightarrow> VolumeOptions \<Rightarrow> AvailabilityDomain \<Rightarrow> ('c world, PersistentVolume) go" where
  "fss_Provision fsp options ad =
     go_bind GetPrefix (\<lambda>pfx.
     go_bind (deref (optPVC options)) (\<lambda>pvc.
     let fsDisplayName = pfx @ pvcUID pvc; mtID = getMountTargetID options in
     if mtID = [] then fail (Errorf ''no mount target ID provided (via PVC annotation nor StorageClass option)'' [])
     else
     go_bind (awaitMountTarget fsp Background mtID) (\<lambda>t.
     go_bind (deref t) (\<lambda>target.
     if mtPrivateIpIds target = [] then fail (Errorf ''mount target has no associated private IPs'' [])
     else case mtExportSetId target of
       None \<Rightarrow> fail (Errorf ''mount target has no export set associated with it'' [])
     | Some exportSetID \<Rightarrow> fss_attach fsp options pvc ad fsDisplayName mtID target exportSetID))))"

definition ignore_not_found :: "error option \<Rightarrow> ('s, unit) go" where
  \<comment> \<open>\<open>if err != nil { if !IsNotFound(err) { return err } }\<close>\<close>
  "ignore_not_found err = (case err of
       None \<Rightarrow> ret ()
     | Some e \<Rightarrow> if \<not> IsNotFound err then fail e else ret ())"

definition fss_Delete :: "'c filesystemProvisioner \<Rightarrow> PersistentVolume \<Rightarrow> ('c world, unit) go" where
  "fss_Delete fsp volume =
     (let exportID = map_get0 (pvAnnotations volume) ociExportID;
          filesystemID = map_get0 (pvAnnotations volume) fss_ociVolumeID in
      if exportID = [] then fail (Errorf ''%q annotation not found on PV'' [FmtS ociExportID])
      else if filesystemID = [] then fail (Errorf ''%q annotation not found on PV'' [FmtS fss_ociVolumeID])
      else
        go_bind (invoke (CallDeleteExport (Some exportID)) Background
          (DeleteExport (pcFSS (fspClient fsp)) Background (Some exportID))) (\<lambda>err.
        go_bind (ignore_not_found err) (\<lambda>_.
        go_bind (invoke (CallDeleteFileSystem (Some filesystemID)) Background
          (DeleteFileSystem (pcFSS (fspClient fsp)) Background (Some filesystemID))) ignore_not_found)))"

definition NewFilesystemProvisioner ::
  "'c ProvisionerClient \<Rightarrow> string \<Rightarrow> ('c world, 'c ProvisionerPlugin) go" where
  "NewFilesystemProvisioner client region =
     go_bind (pcCompartmentOCID client) (\<lambda>_.
       let fsp = \<lparr>fspClient = client, fspRegion = region\<rparr>
       in ret \<lparr>plProvision = fss_Provision fsp, plDelete = fss_Delete fsp\<rparr>)"

section \<open>The waits\<close>

definition fs_active :: "string \<Rightarrow> FileSystem option \<Rightarrow> event \<Rightarrow> bool" where
  "fs_active ocid v e \<longleftrightarrow> (\<exists>fs. v = Some fs \<and> evCall e = CallGetFileSystem (Some ocid) (Inr fs) \<and>
     fsLifecycleState fs = StateActive)"

definition mt_active :: "string \<Rightarrow> MountTarget option \<Rightarrow> event \<Rightarrow> bool" where
  "mt_active ocid v e \<longleftrightarrow> (\<exists>mt. v = Some mt \<and> evCall e = CallGetMountTarget (Some ocid) (Inr mt) \<and>
     mtLifecycleState mt = StateActive)"

definition export_active :: "string \<Rightarrow> Export option \<Rightarrow> event \<Rightarrow> bool" where
  "export_active ocid v e \<longleftrightarrow> (\<exists>x. v = Some x \<and> evCall e = CallGetExport (Some ocid) (Inr x) \<and>
     exLifecycleState x = StateActive)"

definition fs_poll :: "string \<Rightarrow> event \<Rightarrow> bool" where
  "fs_poll ocid e \<longleftrightarrow> (\<exists>r. evCall e = CallGetFileSystem (Some ocid) r)"

definition mt_poll :: "string \<Rightarrow> event \<Rightarrow> bool" where
  "mt_poll ocid e \<longleftrightarrow> (\<exists>r. evCall e = CallGetMountTarget (Some ocid) r)"

definition export_poll :: "string \<Rightarrow> event \<Rightarrow> bool" where
  "export_poll ocid e \<longleftrightarrow> (\<exists>r. evCall e = CallGetExport (Some ocid) r)"

lemma fss_conditions_total [go_total]:
  "go_total (fileSystem_condition fsp ctx ocid v)" "go_total (mountTarget_condition fsp ctx ocid v')"
  "go_total (export_condition fsp ctx ocid v'')"
  unfolding fileSystem_condition_def mountTarget_condition_def export_condition_def Let_def
  by (intro go_total)+

interpretation fsw: lifecycle_poll "fileSystem_condition fsp ctx ocid" "fs_poll ocid" "fs_active ocid"
  for fsp :: "'c filesystemProvisioner" and ctx ocid
proof unfold_locales
  show "go_total (fileSystem_condition fsp ctx ocid v)" for v by (rule go_total)
  fix v w r w' assume "fileSystem_condition fsp ctx ocid v w = Some (r, w')"
  then show "\<exists>e. events w' = events w @ [e] \<and> fs_poll ocid e \<and> clock w \<le> evAt e \<and> evAt e \<le> clock w' \<and>
    environ w' = environ w \<and> config w' = config w \<and> (\<forall>v'. r = Ok (True, v') \<longrightarrow> fs_active ocid v' e)"
    unfolding fileSystem_condition_def Let_def
    by (rule condition_one_request)
      (auto simp: go_simps fs_poll_def fs_active_def deref_def split: if_splits option.splits)
qed

interpretation mtw: lifecycle_poll "mountTarget_condition fsp ctx ocid" "mt_poll ocid" "mt_active ocid"
  for fsp :: "'c filesystemProvisioner" and ctx ocid
proof unfold_locales
  show "go_total (mountTarget_condition fsp ctx ocid v)" for v by (rule go_total)
  fix v w r w' assume "mountTarget_condition fsp ctx ocid v w = Some (r, w')"
  then show "\<exists>e. events w' = events w @ [e] \<and> mt_poll ocid e \<and> clock w \<le> evAt e \<and> evAt e \<le> clock w' \<and>
    environ w' = environ w \<and> config w' = config w \<and> (\<forall>v'. r = Ok (True, v') \<longrightarrow> mt_active ocid v' e)"
    unfolding mountTarget_condition_def Let_def
    by (rule condition_one_request)
      (auto simp: go_simps mt_poll_def mt_active_def deref_def split: if_splits option.splits)
qed

interpretation exw: lifecycle_poll "export_condition fsp ctx ocid" "export_poll ocid" "export_active ocid"
  for fsp :: "'c filesystemProvisioner" and ctx ocid
proof unfold_locales
  show "go_total (export_condition fsp ctx ocid v)" for v by (rule go_total)
  fix v w r w' assume "export_condition fsp ctx ocid v w = Some (r, w')"
  then show "\<exists>e. events w' = events w @ [e] \<and> export_poll ocid e \<and> clock w \<le> evAt e \<and> evAt e \<le> clock w' \<and>
    environ w' = environ w \<and> config w' = config w \<and> (\<forall>v'. r = Ok (True, v') \<longrightarrow> export_active ocid v' e)"
    unfolding export_condition_def Let_def
    by (rule condition_one_request)
      (auto simp: go_simps export_poll_def export_active_def deref_def split: if_splits option.splits)
qed

lemma default_interval: "0 < defaultInterval" "defaultTimeout \<noteq> 0"
  by (simp_all add: defaultInterval_def defaultTimeout_def Minute_def Second_def)

lemma awaits_frame [go_frame]:
  "keeps extends (awaitFileSystem fsp ctx ocid)" "keeps extends (awaitMountTarget fsp ctx ocid)"
  "keeps extends (awaitExport fsp ctx ocid)"
  unfolding awaitFileSystem_def awaitMountTarget_def awaitExport_def
  by (rule fsw.poll_extends mtw.poll_extends exw.poll_extends; rule default_interval)+

lemma awaits_total [go_total]:
  "go_total (awaitFileSystem fsp ctx ocid)" "go_total (awaitMountTarget fsp ctx ocid)"
  "go_total (awaitExport fsp ctx ocid)"
  unfolding awaitFileSystem_def awaitMountTarget_def awaitExport_def
  by (rule fsw.poll_total mtw.poll_total exw.poll_total; rule default_interval)+

lemma awaitFileSystem_events:
  "awaitFileSystem fsp ctx ocid w = Some (r, w') \<Longrightarrow> poll_end (fs_poll ocid) (fs_active ocid) w r w'"
  unfolding awaitFileSystem_def by (rule fsw.poll_events [OF _ default_interval(1)])

lemma awaitMountTarget_events:
  "awaitMountTarget fsp ctx ocid w = Some (r, w') \<Longrightarrow> poll_end (mt_poll ocid) (mt_active ocid) w r w'"
  unfolding awaitMountTarget_def by (rule mtw.poll_events [OF _ default_interval(1)])

lemma awaitExport_events:
  "awaitExport fsp ctx ocid w = Some (r, w') \<Longrightarrow> poll_end (export_poll ocid) (export_active ocid) w r w'"
  unfolding awaitExport_def by (rule exw.poll_events [OF _ default_interval(1)])

section \<open>Finding an export\<close>

definition lists_exports :: "string \<Rightarrow> string \<Rightarrow> event \<Rightarrow> bool" where
  "lists_exports fsID exportSetID e \<longleftrightarrow> (\<exists>c p r. evCall e = CallListExports c (Some fsID) (Some exportSetID) p r)"

definition offers :: "event \<Rightarrow> ExportSummary \<Rightarrow> bool" where
  "offers e export \<longleftrightarrow> (\<exists>c f s p resp. evCall e = CallListExports c f s p (Inr resp) \<and>
     export \<in> set (leItems resp) \<and> usable_export export)"

lemma ListExports_page_frame [go_frame]:
  "client_ok (fspClient fsp) \<Longrightarrow> keeps extends (ListExports_page fsp ctx fsID exportSetID page)"
  unfolding ListExports_page_def client_ok_def by (intro ext.keeps_rules go_frame; blast)

lemma ListExports_page_one:
  assumes "ListExports_page fsp ctx fsID exportSetID page w = Some (r, w')" and "client_ok (fspClient fsp)"
  shows "extends w w'" and "(\<exists>e res. events w' = events w @ [e] \<and> lists_exports fsID exportSetID e \<and>
      (\<exists>c. evCall e = CallListExports c (Some fsID) (Some exportSetID) page res) \<and>
      (case r of Ok resp \<Rightarrow> res = Inr resp | Err err \<Rightarrow> res = Inl err | _ \<Rightarrow> False)) \<or>
    events w' = events w \<and> (\<forall>resp. r \<noteq> Ok resp) \<and> (\<forall>e. r \<noteq> Err e)"
proof -
  show "extends w w'" by (rule keepsD [OF ListExports_page_frame [OF assms(2)] assms(1)])
  from assms(1) show "(\<exists>e res. events w' = events w @ [e] \<and> lists_exports fsID exportSetID e \<and>
      (\<exists>c. evCall e = CallListExports c (Some fsID) (Some exportSetID) page res) \<and>
      (case r of Ok resp \<Rightarrow> res = Inr resp | Err err \<Rightarrow> res = Inl err | _ \<Rightarrow> False)) \<or>
    events w' = events w \<and> (\<forall>resp. r \<noteq> Ok resp) \<and> (\<forall>e. r \<noteq> Err e)"
    unfolding ListExports_page_def
  proof (cases rule: go_bind_cases)
    case (ok c w1)
    let ?f = "ListExports (pcFSS (fspClient fsp)) ctx (Some c) (Some fsID) (Some exportSetID) page"
    obtain res d cl where api: "?f (clock w1) (cloud w1) = (res, d, cl)" by (metis prod_cases3)
    from ok(2) client_okD(1) [OF assms(2) ok(1)] show ?thesis
      by (cases res) (auto simp: go_bind_invoke [of ?f, OF api] go_simps lists_exports_def)
  qed (auto simp: client_okD(1) [OF assms(2)] client_ok_no_error [OF assms(2)])
qed

text \<open>What the requests of \<open>findExport\<close> say about its result.\<close>

definition export_found :: "string \<Rightarrow> string \<Rightarrow> event list \<Rightarrow> ExportSummary outcome \<Rightarrow> bool" where
  "export_found fsID exportSetID es r \<longleftrightarrow> (\<forall>x \<in> set es. lists_exports fsID exportSetID x) \<and>
     (case r of Ok export \<Rightarrow> (\<exists>x \<in> set es. offers x export)
      | _ \<Rightarrow> (\<forall>x \<in> set es. \<forall>export. \<not> offers x export))"

text \<open>A page that ends the search, and a page after which it goes on.\<close>

lemma findExport_page_stop:
  assumes "ListExports_page fsp ctx fsID exportSetID pg w = Some (r1, w1)" and "client_ok (fspClient fsp)"
    and r: "r = (case r1 of
        Ok resp \<Rightarrow> (case find usable_export (leItems resp) of Some export \<Rightarrow> Ok export | None \<Rightarrow> Err FssErrNotFound)
      | Err e \<Rightarrow> Err e | Panic p \<Rightarrow> Panic p | Exit n \<Rightarrow> Exit n)"
  shows "\<exists>es. events w1 = events w @ es \<and> export_found fsID exportSetID es r"
  using ListExports_page_one(2) [OF assms(1,2)]
proof (elim disjE exE conjE)
  fix e res c assume e: "events w1 = events w @ [e]" "lists_exports fsID exportSetID e"
    "evCall e = CallListExports c (Some fsID) (Some exportSetID) pg res"
    "case r1 of Ok resp \<Rightarrow> res = Inr resp | Err err \<Rightarrow> res = Inl err | _ \<Rightarrow> False"
  show ?thesis
    by (rule exI [of _ "[e]"]) (use e r in
      \<open>auto simp: export_found_def offers_def find_None_iff find_Some_iff in_set_conv_nth
        split: sum.splits option.splits outcome.splits; blast?\<close>)
qed (use r in \<open>cases r1; auto simp: export_found_def\<close>)

lemma findExport_page_more:
  assumes "ListExports_page fsp ctx fsID exportSetID pg w = Some (Ok resp, w1)" and "client_ok (fspClient fsp)"
    and "find usable_export (leItems resp) = None"
    and rest: "events w2 = events w1 @ es" "export_found fsID exportSetID es r"
  shows "\<exists>es. events w2 = events w @ es \<and> export_found fsID exportSetID es r"
proof -
  obtain e c where e: "events w1 = events w @ [e]" "lists_exports fsID exportSetID e"
    "evCall e = CallListExports c (Some fsID) (Some exportSetID) pg (Inr resp)"
    using ListExports_page_one(2) [OF assms(1,2)] by auto
  have "\<not> offers e export" for export
    using e(3) assms(3) by (auto simp: offers_def find_None_iff)
  then have "export_found fsID exportSetID (e # es) r"
    using rest(2) e(2) by (auto simp: export_found_def split: outcome.splits)
  with e(1) rest(1) show ?thesis by auto
qed

text \<open>Induction along the pages: the last request of the search, and one after which it goes on.\<close>

definition page_result :: "ListExportsResponse outcome \<Rightarrow> ExportSummary outcome" where
  "page_result r1 = (case r1 of
     Ok resp \<Rightarrow> (case find usable_export (leItems resp) of Some export \<Rightarrow> Ok export | None \<Rightarrow> Err FssErrNotFound)
   | Err e \<Rightarrow> Err e | Panic p \<Rightarrow> Panic p | Exit n \<Rightarrow> Exit n)"

lemma findExport_loop_rule:
  assumes "findExport_loop fsp ctx fsID exportSetID page w = Some (r, w')"
    and stop: "\<And>pg w r1 w1. ListExports_page fsp ctx fsID exportSetID pg w = Some (r1, w1) \<Longrightarrow>
      (\<And>resp. r1 = Ok resp \<Longrightarrow> find usable_export (leItems resp) = None \<Longrightarrow> leOpcNextPage resp = None) \<Longrightarrow> Q pg w (page_result r1) w1"
    and more: "\<And>pg w resp w1 p r w2. ListExports_page fsp ctx fsID exportSetID pg w = Some (Ok resp, w1) \<Longrightarrow>
      find usable_export (leItems resp) = None \<Longrightarrow> leOpcNextPage resp = Some p \<Longrightarrow> Q (Some p) w1 r w2 \<Longrightarrow> Q pg w r w2"
  shows "Q page w r w'"
proof -
  let ?P = "\<lambda>fsp' ctx' f s (page :: string option) w y. fsp' = fsp \<and> ctx' = ctx \<and> f = fsID \<and> s = exportSetID \<longrightarrow>
    Q page w (fst y) (snd y)"
  have "?P fsp ctx fsID exportSetID page w (r, w')"
  proof (rule findExport_loop.raw_induct [where P = ?P, OF _ assms(1)], intro impI)
    fix L :: "'a filesystemProvisioner \<Rightarrow> ctx \<Rightarrow> string \<Rightarrow> string \<Rightarrow> string option \<Rightarrow> 'a world \<Rightarrow>
        (ExportSummary outcome \<times> 'a world) option"
    fix fsp' ctx' f s pg w0 y
    assume IH: "\<And>fsp' ctx' f s page w y. L fsp' ctx' f s page w = Some y \<Longrightarrow> ?P fsp' ctx' f s page w y"
      and eq: "(case ListExports_page fsp' ctx' f s pg w0 of
        None \<Rightarrow> None
      | Some (Ok resp, w') \<Rightarrow>
          (case find usable_export (leItems resp) of
             Some export \<Rightarrow> Some (Ok export, w')
           | None \<Rightarrow>
               (case leOpcNextPage resp of
                  None \<Rightarrow> Some (Err FssErrNotFound, w')
                | Some p \<Rightarrow> L fsp' ctx' f s (Some p) w'))
      | Some (Err e, w') \<Rightarrow> Some (Err e, w')
      | Some (Panic p, w') \<Rightarrow> Some (Panic p, w')
      | Some (Exit n, w') \<Rightarrow> Some (Exit n, w')) = Some y"
      and args: "fsp' = fsp \<and> ctx' = ctx \<and> f = fsID \<and> s = exportSetID"
    obtain r1 w1 where page: "ListExports_page fsp ctx fsID exportSetID pg w0 = Some (r1, w1)"
      using eq args by (auto split: option.splits)
    show "Q pg w0 (fst y) (snd y)"
    proof (cases "\<exists>resp p. r1 = Ok resp \<and> find usable_export (leItems resp) = None \<and> leOpcNextPage resp = Some p")
      case True
      then obtain resp p where go_on: "r1 = Ok resp" "find usable_export (leItems resp) = None"
        "leOpcNextPage resp = Some p" by blast
      then have "L fsp ctx fsID exportSetID (Some p) w1 = Some y" using eq args page by simp
      with IH have "Q (Some p) w1 (fst y) (snd y)" by blast
      then show ?thesis by (rule more [OF page [unfolded go_on(1)] go_on(2,3)])
    next
      case False
      then have "y = (page_result r1, w1)"
        using eq args page by (auto simp: page_result_def split: outcome.splits option.splits)
      moreover have "Q pg w0 (page_result r1) w1"
        by (rule stop [OF page]) (use False in \<open>auto intro: ccontr\<close>)
      ultimately show ?thesis by simp
    qed
  qed
  then show ?thesis by simp
qed

lemma findExport_loop_found:
  assumes "client_ok (fspClient fsp)" and "findExport_loop fsp ctx fsID exportSetID page w = Some (r, w')"
  shows "extends w w' \<and> (\<exists>es. events w' = events w @ es \<and> export_found fsID exportSetID es r)"
  using assms(2)
proof (rule findExport_loop_rule)
  fix pg w r1 w1 assume page: "ListExports_page fsp ctx fsID exportSetID pg w = Some (r1, w1)"
  show "extends w w1 \<and> (\<exists>es. events w1 = events w @ es \<and> export_found fsID exportSetID es (page_result r1))"
    using ListExports_page_one(1) [OF page assms(1)] findExport_page_stop [OF page assms(1) page_result_def] by blast
next
  fix pg w resp w1 p r w2
  assume "ListExports_page fsp ctx fsID exportSetID pg w = Some (Ok resp, w1)" and "find usable_export (leItems resp) = None"
    and "extends w1 w2 \<and> (\<exists>es. events w2 = events w1 @ es \<and> export_found fsID exportSetID es r)"
  then show "extends w w2 \<and> (\<exists>es. events w2 = events w @ es \<and> export_found fsID exportSetID es r)"
    using ListExports_page_one(1) [OF _ assms(1)] findExport_page_more [OF _ assms(1)] by (blast intro: ext.trans)
qed

lemma findExport_frame [go_frame]: "client_ok (fspClient fsp) \<Longrightarrow> keeps extends (findExport fsp ctx fsID exportSetID)"
  unfolding findExport_def by (rule keepsI) (blast dest: findExport_loop_found)

text \<open>
  A service whose listing has the given pages: page \<open>i\<close> is asked for with the token \<open>tok i\<close>, the first
  one without a token, and every page but the last names the token of the next.
\<close>

definition serves_pages ::
  "'c filesystemProvisioner \<Rightarrow> string \<Rightarrow> string \<Rightarrow> ExportSummary list list \<Rightarrow> (nat \<Rightarrow> string) \<Rightarrow> bool" where
  "serves_pages fsp fsID exportSetID pages tok \<longleftrightarrow> pages \<noteq> [] \<and>
     (\<forall>i < length pages. \<forall>ctx c t cl. \<exists>d cl'.
        ListExports (pcFSS (fspClient fsp)) ctx c (Some fsID) (Some exportSetID)
          (if i = 0 then None else Some (tok i)) t cl =
        (Inr \<lparr>leItems = pages ! i, leOpcNextPage = if Suc i < length pages then Some (tok (Suc i)) else None\<rparr>, d, cl'))"

definition compartment_known :: "'c ProvisionerClient \<Rightarrow> bool" where
  "compartment_known c \<longleftrightarrow> client_ok c \<and> (\<forall>w. \<exists>ocid w'. pcCompartmentOCID c w = Some (Ok ocid, w'))"

lemma ListExports_page_serves:
  assumes "serves_pages fsp fsID exportSetID pages tok" and "compartment_known (fspClient fsp)" and "i < length pages"
  shows "\<exists>w' e. ListExports_page fsp ctx fsID exportSetID (if i = 0 then None else Some (tok i)) w =
    Some (Ok \<lparr>leItems = pages ! i, leOpcNextPage = if Suc i < length pages then Some (tok (Suc i)) else None\<rparr>, w') \<and>
    events w' = events w @ [e]"
proof -
  let ?page = "if i = 0 then None else Some (tok i)"
  obtain c w1 where comp: "pcCompartmentOCID (fspClient fsp) w = Some (Ok c, w1)"
    using assms(2) unfolding compartment_known_def by blast
  let ?f = "ListExports (pcFSS (fspClient fsp)) ctx (Some c) (Some fsID) (Some exportSetID) ?page"
  obtain d cl where api: "?f (clock w1) (cloud w1) = (Inr \<lparr>leItems = pages ! i,
      leOpcNextPage = if Suc i < length pages then Some (tok (Suc i)) else None\<rparr>, d, cl)"
    using assms(1,3) unfolding serves_pages_def by blast
  show ?thesis
    using client_okD(1) [OF _ comp] assms(2)
    by (simp add: ListExports_page_def go_bind_Ok [of "pcCompartmentOCID (fspClient fsp)" w, OF comp] go_bind_invoke [of ?f, OF api] go_simps compartment_known_def)
qed

lemma findExport_loop_pages:
  assumes "serves_pages fsp fsID exportSetID pages tok" and "compartment_known (fspClient fsp)"
    and "i < length pages"
  shows "\<exists>w'. findExport_loop fsp ctx fsID exportSetID (if i = 0 then None else Some (tok i)) w =
      Some (case find usable_export (concat (drop i pages)) of None \<Rightarrow> Err FssErrNotFound | Some x \<Rightarrow> Ok x, w') \<and>
    length (events w') \<le> length (events w) + (length pages - i)"
  using assms(3)
proof (induction "length pages - i" arbitrary: i w)
  case (Suc n)
  obtain w1 e where page: "ListExports_page fsp ctx fsID exportSetID (if i = 0 then None else Some (tok i)) w =
      Some (Ok \<lparr>leItems = pages ! i, leOpcNextPage = if Suc i < length pages then Some (tok (Suc i)) else None\<rparr>, w1)"
    and ev: "events w1 = events w @ [e]"
    using ListExports_page_serves [OF assms(1,2) Suc.prems] by blast
  have split: "concat (drop i pages) = pages ! i @ concat (drop (Suc i) pages)"
    using Suc.prems by (simp add: Cons_nth_drop_Suc [symmetric])
  show ?case
  proof (cases "find usable_export (pages ! i) = None \<and> Suc i < length pages")
    case True
    then have "n = length pages - Suc i" using Suc.hyps(2) by simp
    with True obtain w' where rest: "findExport_loop fsp ctx fsID exportSetID (Some (tok (Suc i))) w1 =
        Some (case find usable_export (concat (drop (Suc i) pages)) of None \<Rightarrow> Err FssErrNotFound | Some x \<Rightarrow> Ok x, w')"
      and len: "length (events w') \<le> length (events w1) + (length pages - Suc i)"
      using Suc.hyps(1) [of "Suc i" w1] by auto
    have "findExport_loop fsp ctx fsID exportSetID (if i = 0 then None else Some (tok i)) w =
        findExport_loop fsp ctx fsID exportSetID (Some (tok (Suc i))) w1"
      by (subst findExport_loop.simps) (use True in \<open>simp add: page\<close>)
    moreover have "find usable_export (concat (drop i pages)) = find usable_export (concat (drop (Suc i) pages))"
      using True by (simp add: split find_append)
    ultimately show ?thesis using rest len ev Suc.prems by simp
  next
    case False
    then show ?thesis using Suc.prems
      by (subst findExport_loop.simps) (auto simp: page ev split find_append split: option.splits)
  qed
qed simp

lemma findExport_pages_run:
  assumes "serves_pages fsp fsID exportSetID pages tok" and "compartment_known (fspClient fsp)"
  shows "\<exists>w'. findExport fsp ctx fsID exportSetID w =
      Some (case find usable_export (concat pages) of None \<Rightarrow> Err FssErrNotFound | Some x \<Rightarrow> Ok x, w') \<and>
    length (new_events w w') \<le> length pages"
proof -
  from assms(1) have "0 < length pages" by (simp add: serves_pages_def)
  from findExport_loop_pages [OF assms this, of ctx w] show ?thesis
    by (auto simp: findExport_def new_events_def)
qed

text \<open>
  Over a listing that ends, \<open>findExport\<close> returns: the first export of the whole listing, in the order
  of the pages, that is being created or active, or else the error that there is none. It asks for
  each page at most once.
\<close>

theorem findExport_pages:
  assumes "serves_pages fsp fsID exportSetID pages tok" and "compartment_known (fspClient fsp)"
  shows "\<exists>w'. findExport fsp ctx fsID exportSetID w =
      Some (case find usable_export (concat pages) of None \<Rightarrow> Err FssErrNotFound | Some x \<Rightarrow> Ok x, w') \<and>
    length (new_events w w') \<le> length pages"
  using assms by (rule findExport_pages_run)

text \<open>The mock service with a listing of two pages, the first of which has only a deleted export.\<close>

definition two_pages :: "ExportSummary list list" where
  "two_pages =
     [[\<lparr>exsId = Some ''old'', exsExportSetId = None, exsFileSystemId = None, exsLifecycleState = StateDeleted\<rparr>],
      [\<lparr>exsId = Some ''new'', exsExportSetId = None, exsFileSystemId = None, exsLifecycleState = StateCreating\<rparr>]]"

definition two_page_provisioner :: "unit filesystemProvisioner" where
  "two_page_provisioner =
     \<lparr>fspClient = (MockProvisionerClient (MockBlockStorageClient []))\<lparr>pcFSS := MockFileStorageClient
        \<lparr>ListExports := (\<lambda>ctx c f s page. answers (Inr (case page of
           None \<Rightarrow> \<lparr>leItems = two_pages ! 0, leOpcNextPage = Some ''2''\<rparr>
         | Some p \<Rightarrow> \<lparr>leItems = two_pages ! 1, leOpcNextPage = None\<rparr>)))\<rparr>\<rparr>,
      fspRegion = ''phx''\<rparr>"

theorem findExport_pages_witness:
  "\<exists>w'. findExport two_page_provisioner Background ''fs'' ''set'' (initial Map.empty) =
      Some (Ok (two_pages ! 1 ! 0), w') \<and> length (new_events (initial Map.empty) w') \<le> 2"
proof -
  have "serves_pages two_page_provisioner ''fs'' ''set'' two_pages (\<lambda>_. ''2'')"
    by (auto simp: serves_pages_def two_page_provisioner_def two_pages_def less_Suc_eq)
  moreover have "compartment_known (fspClient two_page_provisioner)"
    by (simp add: compartment_known_def two_page_provisioner_def client_ok_def MockProvisionerClient_def
        ext.keeps_pure qui.keeps_pure total_pure go_simps)
  ultimately show ?thesis
    using findExport_pages [of two_page_provisioner "''fs''" "''set''" two_pages "\<lambda>_. ''2''" Background "initial Map.empty"]
    by (simp add: two_pages_def usable_export_def numeral_2_eq_2)
qed

section \<open>What the calls send\<close>

definition no_value :: "'a outcome \<Rightarrow> bool" where
  "no_value r \<longleftrightarrow> (\<forall>v. r \<noteq> Ok v)"

lemma no_value_simps [simp]: "\<not> no_value (Ok v)" "no_value (Err e)" "no_value (Panic p)" "no_value (Exit n)"
  by (simp_all add: no_value_def)

definition fs_polls :: "string \<Rightarrow> event list \<Rightarrow> FileSystem option outcome \<Rightarrow> bool" where
  "fs_polls ocid polls r \<longleftrightarrow> (\<exists>es e. polls = es @ [e] \<and> (\<forall>x \<in> set polls. fs_poll ocid x) \<and>
     (\<forall>v. r = Ok v \<longrightarrow> fs_active ocid v e))"

definition export_polls :: "string \<Rightarrow> event list \<Rightarrow> Export option outcome \<Rightarrow> bool" where
  "export_polls ocid polls r \<longleftrightarrow> (\<exists>es e. polls = es @ [e] \<and> (\<forall>x \<in> set polls. export_poll ocid x) \<and>
     (\<forall>v. r = Ok v \<longrightarrow> export_active ocid v e))"

definition lists_fs :: "string \<Rightarrow> string \<Rightarrow> event \<Rightarrow> error + FileSystemSummary list \<Rightarrow> bool" where
  "lists_fs ad name e res \<longleftrightarrow> (\<exists>c. evCall e = CallListFileSystems (Some c) (Some ad) (Some name) res)"

definition creates_fs :: "string \<Rightarrow> string \<Rightarrow> event \<Rightarrow> error + FileSystem \<Rightarrow> bool" where
  "creates_fs ad name e res \<longleftrightarrow> (\<exists>c. evCall e = CallCreateFileSystem
     \<lparr>cfsCompartmentId = Some c, cfsAvailabilityDomain = Some ad, cfsDisplayName = Some name\<rparr> res)"

definition creates_export :: "string \<Rightarrow> string \<Rightarrow> event \<Rightarrow> error + Export \<Rightarrow> bool" where
  "creates_export fsID exportSetID e res \<longleftrightarrow> evCall e = CallCreateExport
     \<lparr>ceExportSetId = Some exportSetID, ceFileSystemId = Some fsID, cePath = Some (''/'' @ fsID)\<rparr> res"

text \<open>
  The requests of \<open>getOrCreateFileSystem\<close>: one listing by name; if it shows exactly one file system, that
  one is polled; if it shows none, one is created and polled.
\<close>

inductive fs_trace :: "string \<Rightarrow> string \<Rightarrow> event list \<Rightarrow> FileSystem option outcome \<Rightarrow> bool" for ad name where
  no_compartment: "no_value r \<Longrightarrow> fs_trace ad name [] r"
| not_listed: "lists_fs ad name l res \<Longrightarrow> no_value r \<Longrightarrow> fs_trace ad name [l] r"
| found: "lists_fs ad name l (Inr [s]) \<Longrightarrow> fssumId s = Some ocid \<Longrightarrow> fs_polls ocid polls r \<Longrightarrow>
    fs_trace ad name (l # polls) r"
| not_created: "lists_fs ad name l res \<Longrightarrow> res = Inr [] \<or> res = Inl FssErrNotFound \<Longrightarrow>
    creates_fs ad name c res' \<Longrightarrow> no_value r \<Longrightarrow> fs_trace ad name [l, c] r"
| created: "lists_fs ad name l res \<Longrightarrow> res = Inr [] \<or> res = Inl FssErrNotFound \<Longrightarrow>
    creates_fs ad name c (Inr fs) \<Longrightarrow> fsId fs = Some ocid \<Longrightarrow> fs_polls ocid polls r \<Longrightarrow>
    fs_trace ad name (l # c # polls) r"

text \<open>
  The requests of \<open>getOrCreateExport\<close>: the pages of the listing up to the first with a usable export,
  which is polled; an export is created only when no page had one.
\<close>

inductive export_trace :: "string \<Rightarrow> string \<Rightarrow> event list \<Rightarrow> Export option outcome \<Rightarrow> bool"
  for fsID exportSetID where
  not_found: "\<forall>x \<in> set ls. lists_exports fsID exportSetID x \<Longrightarrow> no_value r \<Longrightarrow> export_trace fsID exportSetID ls r"
| found: "\<forall>x \<in> set ls. lists_exports fsID exportSetID x \<Longrightarrow> x \<in> set ls \<Longrightarrow> offers x s \<Longrightarrow> exsId s = Some ocid \<Longrightarrow>
    export_polls ocid polls r \<Longrightarrow> export_trace fsID exportSetID (ls @ polls) r"
| not_created: "\<forall>x \<in> set ls. lists_exports fsID exportSetID x \<and> (\<forall>s. \<not> offers x s) \<Longrightarrow>
    creates_export fsID exportSetID c res \<Longrightarrow> no_value r \<Longrightarrow> export_trace fsID exportSetID (ls @ [c]) r"
| created: "\<forall>x \<in> set ls. lists_exports fsID exportSetID x \<and> (\<forall>s. \<not> offers x s) \<Longrightarrow>
    creates_export fsID exportSetID c (Inr e) \<Longrightarrow> exId e = Some ocid \<Longrightarrow> export_polls ocid polls r \<Longrightarrow>
    export_trace fsID exportSetID (ls @ c # polls) r"

lemma awaitFileSystem_polls:
  "awaitFileSystem fsp ctx ocid w = Some (r, w') \<Longrightarrow> \<exists>polls. events w' = events w @ polls \<and> fs_polls ocid polls r"
  by (drule awaitFileSystem_events) (auto simp: poll_end_def fs_polls_def)

lemma awaitExport_polls:
  "awaitExport fsp ctx ocid w = Some (r, w') \<Longrightarrow> \<exists>polls. events w' = events w @ polls \<and> export_polls ocid polls r"
  by (drule awaitExport_events) (auto simp: poll_end_def export_polls_def)

lemma deref_await_polls:
  "go_bind (deref p) (awaitFileSystem fsp ctx) w = Some (r, w') \<Longrightarrow>
     (\<exists>ocid polls. p = Some ocid \<and> events w' = events w @ polls \<and> fs_polls ocid polls r) \<or>
     p = None \<and> events w' = events w \<and> no_value r"
  "go_bind (deref p) (awaitExport fsp ctx) w = Some (r', w') \<Longrightarrow>
     (\<exists>ocid polls. p = Some ocid \<and> events w' = events w @ polls \<and> export_polls ocid polls r') \<or>
     p = None \<and> events w' = events w \<and> no_value r'"
  by (cases p; auto simp: go_simps dest: awaitFileSystem_polls awaitExport_polls)+

lemma create_fs_run:
  assumes "go_bind (invoke (CallCreateFileSystem d) ctx f) (\<lambda>r. go_bind (of_result r) (\<lambda>fs.
      go_bind (deref (fsId fs)) (awaitFileSystem fsp ctx))) w = Some (r, w')"
  shows "\<exists>c res. evCall c = CallCreateFileSystem d res \<and> (events w' = events w @ [c] \<and> no_value r \<or>
    (\<exists>fs ocid polls. res = Inr fs \<and> fsId fs = Some ocid \<and> events w' = events w @ c # polls \<and> fs_polls ocid polls r))"
proof -
  obtain res dur cl where api: "f (clock w) (cloud w) = (res, dur, cl)" by (metis prod_cases3)
  let ?w = "sent ctx (CallCreateFileSystem d res) dur cl w"
  show ?thesis
    by (rule exI [of _ "\<lparr>evAt = clock w, evCtx = ctx, evCall = CallCreateFileSystem d res\<rparr>"], rule exI [of _ res])
      (use assms deref_await_polls(1) [where w = ?w] in
        \<open>cases res; force simp: go_bind_invoke [of f, OF api] go_simps\<close>)
qed

lemma create_export_run:
  assumes "go_bind (invoke (CallCreateExport d) ctx f) (\<lambda>r. go_bind (of_result r) (\<lambda>x.
      go_bind (deref (exId x)) (awaitExport fsp ctx))) w = Some (r, w')"
  shows "\<exists>c res. evCall c = CallCreateExport d res \<and> (events w' = events w @ [c] \<and> no_value r \<or>
    (\<exists>x ocid polls. res = Inr x \<and> exId x = Some ocid \<and> events w' = events w @ c # polls \<and> export_polls ocid polls r))"
proof -
  obtain res dur cl where api: "f (clock w) (cloud w) = (res, dur, cl)" by (metis prod_cases3)
  let ?w = "sent ctx (CallCreateExport d res) dur cl w"
  show ?thesis
    by (rule exI [of _ "\<lparr>evAt = clock w, evCtx = ctx, evCall = CallCreateExport d res\<rparr>"], rule exI [of _ res])
      (use assms deref_await_polls(2) [where w = ?w] in
        \<open>cases res; force simp: go_bind_invoke [of f, OF api] go_simps\<close>)
qed

lemma getFileSystemByDisplayName_run:
  assumes "getFileSystemByDisplayName fsp ctx ad name w = Some (r, w')" and "client_ok (fspClient fsp)"
  shows "(\<exists>l res. events w' = events w @ [l] \<and> lists_fs ad name l res \<and>
      (case r of Ok s \<Rightarrow> res = Inr [s] | Err e \<Rightarrow> e = FssErrNotFound \<longrightarrow> res = Inr [] \<or> res = Inl FssErrNotFound
       | _ \<Rightarrow> False)) \<or>
    events w' = events w \<and> (\<forall>s. r \<noteq> Ok s) \<and> (\<forall>e. r \<noteq> Err e)"
  using assms(1) unfolding getFileSystemByDisplayName_def
proof (cases rule: go_bind_cases)
  case (ok c w1)
  let ?f = "ListFileSystems (pcFSS (fspClient fsp)) ctx (Some c) (Some ad) (Some name)"
  obtain res d cl where api: "?f (clock w1) (cloud w1) = (res, d, cl)" by (metis prod_cases3)
  show ?thesis
    by (rule disjI1, rule exI [of _ "\<lparr>evAt = clock w1, evCtx = ctx,
        evCall = CallListFileSystems (Some c) (Some ad) (Some name) res\<rparr>"], rule exI [of _ res])
      (use ok(2) client_okD(1) [OF assms(2) ok(1)] in
        \<open>auto simp: go_bind_invoke [of ?f, OF api] go_simps lists_fs_def of_result_def split: sum.splits list.splits\<close>)
qed (auto simp: client_okD(1) [OF assms(2)] client_ok_no_error [OF assms(2)])

lemma getOrCreateFileSystem_trace:
  assumes "getOrCreateFileSystem fsp ctx ad name w = Some (r, w')" and "client_ok (fspClient fsp)"
  shows "\<exists>es. events w' = events w @ es \<and> fs_trace ad name es r"
  using assms(1) unfolding getOrCreateFileSystem_def
proof (cases rule: go_try_cases)
  case (ok s w1)
  from getFileSystemByDisplayName_run [OF ok(1) assms(2)] obtain l where
    l: "events w1 = events w @ [l]" "lists_fs ad name l (Inr [s])" by auto
  from ok(2) have "go_bind (deref (fssumId s)) (awaitFileSystem fsp ctx) w1 = Some (r, w')" by simp
  from deref_await_polls(1) [OF this] l show ?thesis
    by (auto intro: fs_trace.found fs_trace.not_listed)
next
  case (err e w1)
  from getFileSystemByDisplayName_run [OF err(1) assms(2)] obtain l res where l: "events w1 = events w @ [l]"
    "lists_fs ad name l res" "e = FssErrNotFound \<longrightarrow> res = Inr [] \<or> res = Inl FssErrNotFound" by auto
  show ?thesis
  proof (cases "e = FssErrNotFound")
    case True
    with err(2) have "go_bind (pcCompartmentOCID (fspClient fsp)) (\<lambda>compartment.
        let details = \<lparr>cfsCompartmentId = Some compartment, cfsAvailabilityDomain = Some ad,
          cfsDisplayName = Some name\<rparr> in
        go_bind (invoke (CallCreateFileSystem details) ctx
          (CreateFileSystem (pcFSS (fspClient fsp)) ctx details)) (\<lambda>r.
        go_bind (of_result r) (\<lambda>fs. go_bind (deref (fsId fs)) (awaitFileSystem fsp ctx)))) w1 = Some (r, w')"
      by simp
    then show ?thesis
    proof (cases rule: go_bind_cases)
      case (ok c w2)
      have w2: "events w2 = events w @ [l]" using client_okD(1) [OF assms(2) ok(1)] l(1) by simp
      from create_fs_run [OF ok(2) [unfolded Let_def]] w2 l(2) l(3) [rule_format, OF True] show ?thesis
        by (elim exE conjE disjE) (auto simp: creates_fs_def intro: fs_trace.created fs_trace.not_created)
    qed (use l client_okD(1) [OF assms(2)] in \<open>auto intro: fs_trace.not_listed\<close>)
  next
    case False
    with err(2) l show ?thesis by (auto simp: go_simps intro: fs_trace.not_listed)
  qed
qed (use getFileSystemByDisplayName_run [OF _ assms(2)] in \<open>force intro: fs_trace.no_compartment\<close>)+

lemma getOrCreateExport_trace:
  assumes "getOrCreateExport fsp ctx fsID exportSetID w = Some (r, w')" and "client_ok (fspClient fsp)"
  shows "\<exists>es. events w' = events w @ es \<and> export_trace fsID exportSetID es r"
  using assms(1) unfolding getOrCreateExport_def
proof (cases rule: go_try_cases)
  case (ok s w1)
  from findExport_loop_found [OF assms(2) ok(1) [unfolded findExport_def]] obtain ls where
    ls: "events w1 = events w @ ls" "export_found fsID exportSetID ls (Ok s)" by blast
  from ok(2) have "go_bind (deref (exsId s)) (awaitExport fsp ctx) w1 = Some (r, w')" by simp
  from deref_await_polls(2) [OF this] ls show ?thesis
    by (auto simp: export_found_def intro: export_trace.found export_trace.not_found)
next
  case (err e w1)
  from findExport_loop_found [OF assms(2) err(1) [unfolded findExport_def]] obtain ls where
    ls: "events w1 = events w @ ls" "export_found fsID exportSetID ls (Err e)" by blast
  show ?thesis
  proof (cases "e = FssErrNotFound")
    case True
    let ?d = "\<lparr>ceExportSetId = Some exportSetID, ceFileSystemId = Some fsID, cePath = Some (''/'' @ fsID)\<rparr>"
    have "go_bind (invoke (CallCreateExport ?d) ctx (CreateExport (pcFSS (fspClient fsp)) ctx ?d)) (\<lambda>r.
        go_bind (of_result r) (\<lambda>x. go_bind (deref (exId x)) (awaitExport fsp ctx))) w1 = Some (r, w')"
      using err(2) True by (simp add: Let_def)
    from create_export_run [OF this] ls show ?thesis
      by (elim exE conjE disjE)
        (auto simp: creates_export_def export_found_def intro: export_trace.created export_trace.not_created)
  next
    case False
    with err(2) ls show ?thesis by (auto simp: go_simps export_found_def intro: export_trace.not_found)
  qed
qed (use findExport_loop_found [OF assms(2)] in
  \<open>fastforce simp: findExport_def export_found_def intro: export_trace.not_found\<close>)+

lemma mount_ip_run:
  assumes "mount_ip fsp ctx mtID target w = Some (r, w')" and "mtPrivateIpIds target \<noteq> []"
  shows "\<exists>x i res. events w' = events w @ [x] \<and> evCall x = CallGetPrivateIp (Some i) res \<and>
    i \<in> set (mtPrivateIpIds target) \<and> (\<forall>a. r = Ok a \<longrightarrow> (\<exists>ip. res = Inr ip \<and> ipAddress ip = Some a)) \<and>
    (\<forall>p. r \<noteq> Panic p)"
proof -
  obtain n w1 where rand: "rand_Int w = Some (Ok n, w1)" "events w1 = events w"
    by (simp add: rand_Int_def draw_def)
  let ?i = "mtPrivateIpIds target ! (n mod length (mtPrivateIpIds target))"
  have in_range: "n mod length (mtPrivateIpIds target) < length (mtPrivateIpIds target)"
    using assms(2) by simp
  let ?f = "GetPrivateIp (pcVCN (fspClient fsp)) ctx (Some ?i)"
  obtain res d cl where api: "?f (clock w1) (cloud w1) = (res, d, cl)" by (metis prod_cases3)
  have run: "(case res of Inl e \<Rightarrow> fail e | Inr ip \<Rightarrow> (case ipAddress ip of
      None \<Rightarrow> fail (Errorf ''PrivateIp %q associated with MountTarget %q has no IpAddress'' [FmtS ?i, FmtS mtID])
    | Some a \<Rightarrow> ret a)) (sent ctx (CallGetPrivateIp (Some ?i) res) d cl w1) = Some (r, w')"
    using assms in_range
    by (cases res) (simp_all add: mount_ip_def go_bind_Ok [of rand_Int w, OF rand(1)] index_def go_simps
        go_bind_invoke [of ?f, OF api])
  show ?thesis
    by (rule exI [of _ "\<lparr>evAt = clock w1, evCtx = ctx, evCall = CallGetPrivateIp (Some ?i) res\<rparr>"], rule exI [of _ ?i],
        rule exI [of _ res])
      (use run rand(2) in_range in \<open>auto simp: go_simps split: sum.splits option.splits\<close>)
qed

lemma rand_Int_total: "go_total rand_Int"
  by (simp add: go_total_def rand_Int_def split: prod.split)

lemma rand_Int_frame [go_frame]: "keeps extends rand_Int" by (rule extends_rand_Int)

lemma fss_frames [go_frame]:
  assumes "client_ok (fspClient fsp)"
  shows "keeps extends (getFileSystemByDisplayName fsp ctx ad name)"
    and "keeps extends (getOrCreateFileSystem fsp ctx ad name)"
    and "keeps extends (getOrCreateExport fsp ctx fsID exportSetID)"
proof -
  from assms have c: "keeps extends (pcCompartmentOCID (fspClient fsp))" by (simp add: client_ok_def)
  show list: "keeps extends (getFileSystemByDisplayName fsp ctx ad name)"
    unfolding getFileSystemByDisplayName_def
    by (intro ext.keeps_rules go_frame c) (auto split: list.split intro: ext.keeps_rules)
  show "keeps extends (getOrCreateFileSystem fsp ctx ad name)"
    unfolding getOrCreateFileSystem_def Let_def by (intro ext.keeps_rules go_frame c list)
  show "keeps extends (getOrCreateExport fsp ctx fsID exportSetID)"
    unfolding getOrCreateExport_def Let_def by (intro ext.keeps_rules go_frame assms)
qed

lemma mount_ip_frame [go_frame]: "keeps extends (mount_ip fsp ctx mtID target)"
  unfolding mount_ip_def by (intro ext.keeps_rules go_frame)

lemma fss_Provision_frame [go_frame]:
  "client_ok (fspClient fsp) \<Longrightarrow> keeps extends (fss_Provision fsp opts ad)"
  unfolding fss_Provision_def fss_attach_def Let_def by (intro ext.keeps_rules go_frame)

lemma fss_Delete_frame [go_frame]: "keeps extends (fss_Delete fsp pv)"
  unfolding fss_Delete_def ignore_not_found_def Let_def by (intro ext.keeps_rules go_frame)

section \<open>Provision\<close>

definition target_event :: "event \<Rightarrow> bool" where
  "target_event e \<longleftrightarrow> (\<exists>i r. evCall e = CallGetMountTarget i r) \<or> (\<exists>i r. evCall e = CallGetPrivateIp i r)"

definition address_event :: "MountTarget \<Rightarrow> event \<Rightarrow> string \<Rightarrow> bool" where
  "address_event target e a \<longleftrightarrow> (\<exists>i ip. evCall e = CallGetPrivateIp (Some i) (Inr ip) \<and>
     i \<in> set (mtPrivateIpIds target) \<and> ipAddress ip = Some a)"

definition describes ::
  "'c filesystemProvisioner \<Rightarrow> VolumeOptions \<Rightarrow> PersistentVolumeClaim \<Rightarrow> string \<Rightarrow> string \<Rightarrow> Export option outcome \<Rightarrow>
     PersistentVolume \<Rightarrow> bool" where
  "describes fsp opts pvc a fsID r pv \<longleftrightarrow> (\<exists>export exportID path. r = Ok (Some export) \<and>
     exId export = Some exportID \<and> exPath export = Some path \<and> pv = fss_pv fsp opts pvc a fsID exportID path)"

lemma fss_attach_cases:
  assumes run: "fss_attach fsp opts pvc ad name mtID target s w = Some (r, w')"
    and ok: "client_ok (fspClient fsp)" and ips: "mtPrivateIpIds target \<noteq> []"
  obtains (no_address) x i res where "events w' = events w @ [x]" "target_event x" "no_value r"
        "evCall x = CallGetPrivateIp (Some i) res" "i \<in> set (mtPrivateIpIds target)"
    | (no_ad) x ip where "adName ad = None" "events w' = events w @ [x]" "target_event x" "no_value r" "address_event target x ip"
    | (no_fs) a x fses r1 ip where "adName ad = Some a" "events w' = events w @ x # fses" "target_event x"
        "fs_trace a name fses r1" "no_value r" "address_event target x ip"
    | (reached) a x ip fses fs fsID exs r2 w2 where "adName ad = Some a" "events w' = events w @ x # fses @ exs"
        "target_event x" "address_event target x ip" "fs_trace a name fses (Ok (Some fs))" "fsId fs = Some fsID"
        "export_trace fsID s exs r2" "\<And>pv. r = Ok pv \<Longrightarrow> describes fsp opts pvc ip fsID r2 pv"
        "events w2 = events w @ x # fses" "getOrCreateExport fsp Background fsID s w2 = Some (r2, w')"
proof -
  obtain r0 w1 where m: "mount_ip fsp Background mtID target w = Some (r0, w1)"
    using run by (auto simp: fss_attach_def go_bind_def split: option.splits)
  from mount_ip_run [OF m ips] obtain x i res where x: "events w1 = events w @ [x]" "target_event x"
    "\<And>ip. r0 = Ok ip \<Longrightarrow> address_event target x ip" "evCall x = CallGetPrivateIp (Some i) res" "i \<in> set (mtPrivateIpIds target)"
    by (fastforce simp: target_event_def address_event_def)
  show thesis
  proof (cases r0)
    case (Ok ip)
    from run m Ok have "go_bind (deref (adName ad)) (\<lambda>ad_name.
      go_bind (getOrCreateFileSystem fsp Background ad_name name) (\<lambda>f.
      go_bind (deref f) (\<lambda>fs.
      go_bind (deref (fsId fs)) (\<lambda>fsID.
      go_bind (getOrCreateExport fsp Background fsID s) (\<lambda>e.
      go_bind (deref e) (\<lambda>export.
      go_bind (deref (exId export)) (\<lambda>exportID.
      go_bind (deref (exPath export)) (\<lambda>path.
      ret (fss_pv fsp opts pvc ip fsID exportID path))))))))) w1 = Some (r, w')"
      by (simp add: fss_attach_def go_bind_Ok [of "mount_ip _ _ _ _"])
    then show thesis
    proof (cases rule: deref_cases)
      case (some a)
      obtain r1 w2 where f: "getOrCreateFileSystem fsp Background a name w1 = Some (r1, w2)"
        using some(2) by (auto simp: go_bind_def split: option.splits)
      from getOrCreateFileSystem_trace [OF f ok] obtain fses where
        fses: "events w2 = events w1 @ fses" "fs_trace a name fses r1" by blast
      show thesis
      proof (cases "\<exists>fs fsID. r1 = Ok (Some fs) \<and> fsId fs = Some fsID")
        case True
        then obtain fs fsID where fs: "r1 = Ok (Some fs)" "fsId fs = Some fsID" by blast
        obtain r2 w3 where e: "getOrCreateExport fsp Background fsID s w2 = Some (r2, w3)"
          using some(2) f fs by (auto simp: go_bind_def go_simps split: option.splits)
        from getOrCreateExport_trace [OF e ok] obtain exs where
          exs: "events w3 = events w2 @ exs" "export_trace fsID s exs r2" by blast
        have "w' = w3" and "describes fsp opts pvc ip fsID r2 pv" if "r = Ok pv" for pv
          using some(2) f fs e that
          by (auto simp: go_bind_def go_simps deref_def describes_def split: option.splits outcome.splits)
        moreover have "w' = w3"
          using some(2) f fs e
          by (auto simp: go_bind_def go_simps deref_def split: option.splits outcome.splits)
        ultimately show thesis
          by (intro reached [OF some(1) _ x(2) x(3) [OF Ok] fses(2) [unfolded fs(1)] fs(2) exs(2) _ _ e [folded \<open>w' = w3\<close>]])
            (use x(1) fses(1) exs(1) in auto)
      next
        case False
        then have "w' = w2 \<and> no_value r"
          using some(2) f by (auto simp: go_bind_def go_simps deref_def split: option.splits outcome.splits)
        then show thesis
          by (intro no_fs [OF some(1) _ x(2) fses(2) _ x(3) [OF Ok]]) (use x(1) fses(1) in auto)
      qed
    qed (use no_ad x(1,2) x(3) [OF Ok] in auto)
  qed (use run m x no_address in \<open>auto simp: fss_attach_def go_bind_def\<close>)
qed

lemma fss_Provision_cases:
  assumes run: "fss_Provision fsp opts ad w = Some (r, w')" and ok: "client_ok (fspClient fsp)"
  obtains (unsent) "events w' = events w" "no_value r"
    | (no_target) es where "events w' = events w @ es" "\<forall>x \<in> set es. target_event x" "no_value r"
        "\<forall>x \<in> set es. mt_poll (getMountTargetID opts) x"
    | (attached) pvc p pre g target s w1 where "optPVC opts = Some pvc" "getMountTargetID opts \<noteq> []"
        "events w1 = events w @ pre @ [g]" "\<forall>x \<in> set (pre @ [g]). target_event x"
        "mt_active (getMountTargetID opts) (Some target) g" "mtExportSetId target = Some s" "mtPrivateIpIds target \<noteq> []"
        "fss_attach fsp opts pvc ad (p @ pvcUID pvc) (getMountTargetID opts) target s w1 = Some (r, w')"
        "GetPrefix w = Some (Ok p, w)" "\<forall>x \<in> set pre. mt_poll (getMountTargetID opts) x"
proof -
  obtain p where p: "GetPrefix w = Some (Ok p, w)" by (rule GetPrefix_run)
  let ?mt = "getMountTargetID opts"
  from run p have "go_bind (deref (optPVC opts)) (\<lambda>pvc.
     if ?mt = [] then fail (Errorf ''no mount target ID provided (via PVC annotation nor StorageClass option)'' [])
     else
     go_bind (awaitMountTarget fsp Background ?mt) (\<lambda>t.
     go_bind (deref t) (\<lambda>target.
     if mtPrivateIpIds target = [] then fail (Errorf ''mount target has no associated private IPs'' [])
     else case mtExportSetId target of
       None \<Rightarrow> fail (Errorf ''mount target has no export set associated with it'' [])
     | Some s \<Rightarrow> fss_attach fsp opts pvc ad (p @ pvcUID pvc) ?mt target s))) w = Some (r, w')"
    by (simp add: fss_Provision_def go_bind_Ok [of GetPrefix] Let_def)
  then show thesis
  proof (cases rule: deref_cases)
    case (some pvc)
    show thesis
    proof (cases "?mt = []")
      case False
      obtain r1 w1 where a: "awaitMountTarget fsp Background ?mt w = Some (r1, w1)"
        using some(2) False by (auto simp: go_bind_def split: option.splits)
      from awaitMountTarget_events [OF a] obtain pre g where ev: "events w1 = events w @ pre @ [g]"
        "\<forall>x \<in> set (pre @ [g]). target_event x" "\<And>v. r1 = Ok v \<Longrightarrow> mt_active ?mt v g" "\<forall>x \<in> set (pre @ [g]). mt_poll ?mt x"
        by (fastforce simp: poll_end_def mt_poll_def target_event_def)
      show thesis
      proof (cases "\<exists>target s. r1 = Ok (Some target) \<and> mtPrivateIpIds target \<noteq> [] \<and> mtExportSetId target = Some s")
        case True
        then obtain target s where t: "r1 = Ok (Some target)" "mtPrivateIpIds target \<noteq> []" "mtExportSetId target = Some s"
          by blast
        have "fss_attach fsp opts pvc ad (p @ pvcUID pvc) ?mt target s w1 = Some (r, w')"
          using some(2) False a t by (simp add: go_bind_def go_simps)
        then show thesis by (rule attached [OF some(1) False ev(1,2) ev(3) [OF t(1)] t(3,2) _ p]) (use ev(4) in auto)
      next
        case nt: False
        then have "w' = w1 \<and> no_value r"
          using some(2) False a
          by (auto simp: go_bind_def go_simps deref_def split: option.splits outcome.splits if_splits)
        then show thesis using ev by (intro no_target) auto
      qed
    qed (use some(2) unsent in \<open>auto simp: go_simps\<close>)
  qed (use unsent in auto)
qed

lemma fss_Provision_Ok:
  assumes "fss_Provision fsp opts ad w = Some (Ok pv, w')" and "client_ok (fspClient fsp)"
  shows "\<exists>pvc ip fsID e path. optPVC opts = Some pvc \<and> pv = fss_pv fsp opts pvc ip fsID e path"
  using assms
proof (cases rule: fss_Provision_cases)
  case (attached pvc p pre g target s w1)
  from attached(8) assms(2) attached(7) show ?thesis
  proof (cases rule: fss_attach_cases)
    case (reached a x ip fses fs fsID exs r2)
    with attached(1) show ?thesis by (fastforce simp: describes_def)
  qed auto
qed auto

lemma fs_trace_Ok:
  assumes "fs_trace ad name es (Ok v)"
  shows "\<exists>ocid. es \<noteq> [] \<and> fs_active ocid v (last es)"
  using assms by (cases rule: fs_trace.cases) (auto simp: fs_polls_def)

lemma export_trace_Ok:
  assumes "export_trace fsID s es (Ok v)"
  shows "\<exists>ocid. es \<noteq> [] \<and> export_active ocid v (last es)"
  using assms by (cases rule: export_trace.cases) (auto simp: export_polls_def)

lemma fss_Provision_named:
  assumes "fss_Provision fsp opts ad w = Some (Ok pv, w')" and "client_ok (fspClient fsp)"
  shows "\<exists>e \<in> set (new_events w w'). \<exists>i fs. evCall e = CallGetFileSystem i (Inr fs) \<and> fsId fs = Some (pvName pv)"
  using assms
proof (cases rule: fss_Provision_cases)
  case (attached pvc p pre g target s w1)
  from attached(8) assms(2) attached(7) show ?thesis
  proof (cases rule: fss_attach_cases)
    case (reached a x ip fses fs fsID exs r2)
    from reached(8) [OF refl] obtain exportID path where pv: "pv = fss_pv fsp opts pvc ip fsID exportID path"
      unfolding describes_def by blast
    have "new_events w w' = pre @ [g, x] @ fses @ exs"
      using attached(3) reached(2) by (simp add: new_events_def)
    moreover from fs_trace_Ok [OF reached(5)] obtain i where "fses \<noteq> []" "fs_active i (Some fs) (last fses)" by blast
    ultimately show ?thesis
      using reached(6) pv by (intro bexI [of _ "last fses"]) (auto simp: fs_active_def fss_pv_def)
  qed auto
qed auto

text \<open>
  C8: a volume that \<open>Provision\<close> returns is backed by resources that were all seen active. The mount
  target that the claim names was seen active, and the server of the volume is the address of one of
  its private IPs; the last request for the file system saw it active, and it is the one that the
  volume names; the last request for its export on the mount target's export set saw it active, and
  the volume carries its identifier and path.
\<close>

theorem fss_Provision_active:
  assumes "fss_Provision fsp opts ad w = Some (Ok pv, w')" and "client_ok (fspClient fsp)"
  shows "\<exists>pvc a p pre g x fses exs target s ip fs fsID export exportID path i j.
    optPVC opts = Some pvc \<and> adName ad = Some a \<and> getMountTargetID opts \<noteq> [] \<and>
    new_events w w' = pre @ [g, x] @ fses @ exs \<and>
    mt_active (getMountTargetID opts) (Some target) g \<and> mtExportSetId target = Some s \<and> address_event target x ip \<and>
    fs_trace a (p @ pvcUID pvc) fses (Ok (Some fs)) \<and> fs_active i (Some fs) (last fses) \<and> fsId fs = Some fsID \<and>
    export_trace fsID s exs (Ok (Some export)) \<and> export_active j (Some export) (last exs) \<and>
    exId export = Some exportID \<and> exPath export = Some path \<and>
    pv = fss_pv fsp opts pvc ip fsID exportID path"
  using assms
proof (cases rule: fss_Provision_cases)
  case (attached pvc p pre g target s w1)
  from attached(8) assms(2) attached(7) show ?thesis
  proof (cases rule: fss_attach_cases)
    case (reached a x ip fses fs fsID exs r2)
    from reached(8) [OF refl] obtain export exportID path where d: "r2 = Ok (Some export)" "exId export = Some exportID"
      "exPath export = Some path" "pv = fss_pv fsp opts pvc ip fsID exportID path"
      unfolding describes_def by blast
    have "new_events w w' = pre @ [g, x] @ fses @ exs"
      using attached(3) reached(2) by (simp add: new_events_def)
    moreover from fs_trace_Ok [OF reached(5)] obtain i where "fs_active i (Some fs) (last fses)" by blast
    moreover from export_trace_Ok [OF reached(7) [unfolded d(1)]] obtain j where "export_active j (Some export) (last exs)"
      by blast
    ultimately show ?thesis using attached(1,2,5,6) reached(1,4,5,6) reached(7) [unfolded d(1)] d(2,3,4) by blast
  qed auto
qed auto

section \<open>Concrete runs\<close>

text \<open>The provisioner of the unit tests, on services that list what it looks for, or nothing.\<close>

definition mock_FSS :: "bool \<Rightarrow> unit FSS" where
  "mock_FSS listed = (if listed then MockFileStorageClient else MockFileStorageClient
     \<lparr>ListFileSystems := (\<lambda>ctx c ad name. answers (Inr [])),
      ListExports := (\<lambda>ctx c f s page. answers (Inr \<lparr>leItems = [], leOpcNextPage = None\<rparr>))\<rparr>)"

definition mock_fsp :: "bool \<Rightarrow> unit filesystemProvisioner" where
  "mock_fsp listed = \<lparr>fspClient = (MockProvisionerClient (MockBlockStorageClient []))\<lparr>pcFSS := mock_FSS listed\<rparr>,
     fspRegion = ''phx''\<rparr>"

lemma mock_fsp_simps [simp]:
  "pcFSS (fspClient (mock_fsp b)) = mock_FSS b" "pcVCN (fspClient (mock_fsp b)) = MockVirtualNetworkClient"
  "pcCompartmentOCID (fspClient (mock_fsp b)) = ret []" "fspRegion (mock_fsp b) = ''phx''"
  by (simp_all add: mock_fsp_def) (simp_all add: MockProvisionerClient_def)

lemma mock_fsp_client_ok [simp]: "client_ok (fspClient (mock_fsp b))"
  by (simp add: client_ok_def ext.keeps_pure qui.keeps_pure total_pure go_simps)

text \<open>A provisioner on those services whose compartment is known without a request.\<close>

definition mock_like :: "bool \<Rightarrow> Config \<Rightarrow> string \<Rightarrow> unit filesystemProvisioner \<Rightarrow> bool" where
  "mock_like b cfg c fsp \<longleftrightarrow> pcFSS (fspClient fsp) = mock_FSS b \<and> pcVCN (fspClient fsp) = MockVirtualNetworkClient \<and>
     (\<forall>w. config w = cfg \<longrightarrow> pcCompartmentOCID (fspClient fsp) w = Some (Ok c, w))"

lemma mock_fsp_like [simp]: "mock_like b cfg [] (mock_fsp b)"
  by (simp add: mock_like_def go_simps)

lemma mock_likeD:
  assumes "mock_like b cfg c fsp"
  shows "pcFSS (fspClient fsp) = mock_FSS b" "pcVCN (fspClient fsp) = MockVirtualNetworkClient"
    "config w = cfg \<Longrightarrow> go_bind (pcCompartmentOCID (fspClient fsp)) k w = k c w"
  using assms by (simp_all add: mock_like_def go_bind_def)

definition active_fs :: "string \<Rightarrow> FileSystem" where
  "active_fs i = \<lparr>fsId = Some i, fsLifecycleState = StateActive\<rparr>"

definition active_export :: Export where
  "active_export = \<lparr>exId = Some mockExportID, exFileSystemId = Some mockFileSystemID,
     exExportSetId = Some mockExportSetID, exPath = Some (''/'' @ mockFileSystemID), exLifecycleState = StateActive\<rparr>"

definition active_target :: MountTarget where
  "active_target = \<lparr>mtId = Some CreatedMountTargetID, mtPrivateIpIds = ServerIPs,
     mtExportSetId = Some mockExportSetID, mtLifecycleState = StateActive\<rparr>"

lemma poll_at_once:
  "cond v w = Some (Ok (True, v'), w') \<Longrightarrow> PollImmediate interval tmo cond v w = Some (Ok v', w')"
  by (simp add: PollImmediate_def go_bind_def go_simps)

lemma mock_awaits:
  assumes "mock_like b cfg c fsp"
  shows "awaitFileSystem fsp ctx i w = Some (Ok (Some (active_fs i)),
     sent ctx (CallGetFileSystem (Some i) (Inr (active_fs i))) 0 (cloud w) w)"
    "awaitExport fsp ctx i w = Some (Ok (Some active_export),
     sent ctx (CallGetExport (Some i) (Inr active_export)) 0 (cloud w) w)"
    "awaitMountTarget fsp ctx i w = Some (Ok (Some active_target),
     sent ctx (CallGetMountTarget (Some i) (Inr active_target)) 0 (cloud w) w)"
  unfolding awaitFileSystem_def awaitExport_def awaitMountTarget_def
  by (rule poll_at_once;
      cases b; simp add: mock_likeD(1) [OF assms] mock_FSS_def fileSystem_condition_def export_condition_def
        mountTarget_condition_def MockFileStorageClient_def go_simps active_fs_def active_export_def active_target_def)+

lemma mock_getOrCreateFileSystem:
  assumes "mock_like b cfg c fsp" and "config w = cfg"
  shows "\<exists>w'. getOrCreateFileSystem fsp ctx ad name w = Some (Ok (Some (active_fs mockFileSystemID)), w') \<and>
     config w' = cfg \<and>
     (\<exists>l p. events w' = events w @ (if b then [l, p] else [l,
        \<lparr>evAt = clock w, evCtx = ctx, evCall = CallCreateFileSystem \<lparr>cfsCompartmentId = Some c, cfsAvailabilityDomain = Some ad,
          cfsDisplayName = Some name\<rparr> (Inr \<lparr>fsId = Some mockFileSystemID, fsLifecycleState = []\<rparr>)\<rparr>, p]))"
  by (cases b; simp add: getOrCreateFileSystem_def getFileSystemByDisplayName_def mock_FSS_def MockFileStorageClient_def
      go_simps go_try_def mock_awaits [OF assms(1)] mock_likeD [OF assms(1)] assms(2))

lemma mock_getOrCreateExport:
  assumes "mock_like b cfg c fsp" and "config w = cfg"
  shows "\<exists>w'. getOrCreateExport fsp ctx fsID s w = Some (Ok (Some active_export), w') \<and>
     config w' = cfg \<and> (\<exists>es. events w' = events w @ es)"
  by (cases b; simp add: getOrCreateExport_def findExport_def go_try_def mock_likeD [OF assms(1)] assms(2), subst findExport_loop.simps,
      simp add: ListExports_page_def mock_FSS_def MockFileStorageClient_def go_simps of_result_def usable_export_def
        mock_likeD [OF assms(1)] assms(2),
      simp add: go_bind_def go_simps mock_awaits [OF assms(1)] invoke_def sent_def assms(2))

abbreviation mock_claim :: VolumeOptions where
  "mock_claim \<equiv> claim [ReadWriteMany] 50 [AnnotationMountTargetID \<mapsto> CreatedMountTargetID]"

lemma mock_mount_target: "getMountTargetID mock_claim = CreatedMountTargetID"
  by (simp add: getMountTargetID_def claim_def map_get0_def)

lemma mock_mount_ip:
  assumes "mock_like b cfg c fsp" and "config w = cfg"
  shows "\<exists>w'. mount_ip fsp ctx m active_target w = Some (Ok mockPrivateIP, w') \<and> config w' = cfg \<and>
    (\<exists>es. events w' = events w @ es)"
  by (simp add: mount_ip_def rand_Int_def draw_def active_target_def index_def go_simps MockVirtualNetworkClient_def
      go_bind_def invoke_def sent_def mock_likeD [OF assms(1)] assms(2))

definition mock_pvc :: PersistentVolumeClaim where
  "mock_pvc = the (optPVC mock_claim)"

lemma mock_pvc: "optPVC mock_claim = Some mock_pvc" "pvcUID mock_pvc = ''uid''"
  by (simp_all add: claim_def mock_pvc_def)

lemma mock_like_run:
  assumes "mock_like b cfg c fsp" and "config w = cfg" and "environ w ''OCI_VOLUME_NAME_PREFIX'' = None"
  shows "\<exists>w'. fss_Provision fsp mock_claim defaultAD w =
    Some (Ok (fss_pv fsp mock_claim mock_pvc mockPrivateIP mockFileSystemID mockExportID (''/'' @ mockFileSystemID)), w') \<and>
    config w' = cfg \<and> (b \<or> (\<exists>x \<in> set (events w'). \<exists>d r. evCall x = CallCreateFileSystem d r))"
proof -
  note like = assms(1)
  let ?t = "active_target"
  let ?w1 = "sent Background (CallGetMountTarget (Some CreatedMountTargetID) (Inr ?t)) 0 () w"
  have "config ?w1 = cfg" using assms(2) by simp
  from mock_mount_ip [OF like this] obtain w2
    where ip: "mount_ip fsp Background CreatedMountTargetID ?t ?w1 = Some (Ok mockPrivateIP, w2)" and c2: "config w2 = cfg"
    by blast
  obtain w3 where fs: "getOrCreateFileSystem fsp Background ''PHX-AD-1'' ''uid'' w2 =
      Some (Ok (Some (active_fs mockFileSystemID)), w3)" and c3: "config w3 = cfg"
    and cr: "b \<or> (\<exists>x \<in> set (events w3). \<exists>d r. evCall x = CallCreateFileSystem d r)"
    using mock_getOrCreateFileSystem [OF like c2, of Background "''PHX-AD-1''" "''uid''"] by fastforce
  from mock_getOrCreateExport [OF like c3] obtain w4 es
    where ex: "getOrCreateExport fsp Background mockFileSystemID mockExportSetID w3 = Some (Ok (Some active_export), w4)"
    and ev: "events w4 = events w3 @ es" and c4: "config w4 = cfg"
    by blast
  have "fss_Provision fsp mock_claim defaultAD w =
      fss_attach fsp mock_claim mock_pvc defaultAD ''uid'' CreatedMountTargetID ?t mockExportSetID ?w1"
    by (simp add: fss_Provision_def go_bind_Ok [of GetPrefix, OF GetPrefix_unset] assms(3) go_simps mock_pvc mock_mount_target Let_def
        go_bind_Ok [of "awaitMountTarget _ _ _", OF mock_awaits(3) [OF like]]) (simp add: active_target_def mock_pvc)
  also have "\<dots> = Some (Ok (fss_pv fsp mock_claim mock_pvc mockPrivateIP mockFileSystemID
      mockExportID (''/'' @ mockFileSystemID)), w4)"
    by (simp add: fss_attach_def go_bind_Ok [of "mount_ip _ _ _ _", OF ip] go_simps defaultAD_def
        go_bind_Ok [of "getOrCreateFileSystem _ _ _ _", OF fs] active_fs_def
        go_bind_Ok [of "getOrCreateExport _ _ _ _", OF ex] active_export_def)
  finally show ?thesis using cr ev c4 by auto
qed

lemma mock_fss_run:
  "\<exists>w'. fss_Provision (mock_fsp b) mock_claim defaultAD (initial Map.empty) =
    Some (Ok (fss_pv (mock_fsp b) mock_claim mock_pvc mockPrivateIP mockFileSystemID
      mockExportID (''/'' @ mockFileSystemID)), w') \<and>
    (b \<or> (\<exists>c \<in> set (events w'). \<exists>d r. evCall c = CallCreateFileSystem d r))"
  using mock_like_run [OF mock_fsp_like refl, where w = "initial Map.empty" and b = b]
  unfolding initial_simps by blast

theorem fss_Provision_active_witness:
  "\<exists>pv w' pre fses exs fs i. fss_Provision (mock_fsp True) mock_claim defaultAD (initial Map.empty) = Some (Ok pv, w') \<and>
    new_events (initial Map.empty) w' = pre @ fses @ exs \<and> fs_active i (Some fs) (last fses) \<and>
    fsId fs = Some (pvName pv)"
proof -
  obtain pv w' where run: "fss_Provision (mock_fsp True) mock_claim defaultAD (initial Map.empty) = Some (Ok pv, w')"
    using mock_fss_run by blast
  from fss_Provision_active [OF run mock_fsp_client_ok] obtain pvc ip fsID exportID path pre g x fses exs fs i where
    new: "new_events (initial Map.empty) w' = pre @ [g, x] @ fses @ exs" and fs: "fs_active i (Some fs) (last fses)" "fsId fs = Some fsID"
    "pv = fss_pv (mock_fsp True) mock_claim pvc ip fsID exportID path"
    by blast
  then have "fsId fs = Some (pvName pv)" by (simp add: fss_pv_def)
  moreover have "new_events (initial Map.empty) w' = (pre @ [g, x]) @ fses @ exs" using new by simp
  ultimately show ?thesis using run fs(1) by blast
qed

section \<open>At most one of each is created\<close>

definition fs_creation :: "event \<Rightarrow> bool" where
  "fs_creation e \<longleftrightarrow> (\<exists>d r. evCall e = CallCreateFileSystem d r)"

definition export_creation :: "event \<Rightarrow> bool" where
  "export_creation e \<longleftrightarrow> (\<exists>d r. evCall e = CallCreateExport d r)"

lemmas event_kinds = fs_creation_def export_creation_def target_event_def lists_exports_def lists_fs_def
  creates_fs_def creates_export_def fs_poll_def export_poll_def mt_poll_def offers_def

lemma filter_none: "\<forall>x \<in> set xs. \<not> P x \<Longrightarrow> filter P xs = []"
  by (simp add: filter_empty_conv)

text \<open>What a list of requests creates, and what it has been told before.\<close>

definition creation_ok :: "event list \<Rightarrow> bool" where
  "creation_ok es \<longleftrightarrow>
     length (filter fs_creation es) \<le> 1 \<and> length (filter export_creation es) \<le> 1 \<and>
     (\<forall>c \<in> set es. fs_creation c \<longrightarrow> (\<exists>l \<in> set es. \<exists>ad name res. lists_fs ad name l res \<and>
        (res = Inr [] \<or> res = Inl FssErrNotFound))) \<and>
     (\<forall>c \<in> set es. export_creation c \<longrightarrow> (\<forall>l \<in> set es. \<forall>s. \<not> offers l s))"

lemma fs_trace_creation:
  assumes "fs_trace ad name es r"
  shows "length (filter fs_creation es) \<le> 1 \<and>
    (\<forall>c \<in> set es. fs_creation c \<longrightarrow> (\<exists>l \<in> set es. \<exists>ad name res. lists_fs ad name l res \<and>
        (res = Inr [] \<or> res = Inl FssErrNotFound))) \<and>
    (\<forall>x \<in> set es. \<not> export_creation x \<and> (\<forall>s. \<not> offers x s))"
proof -
  have polls: "filter fs_creation polls = []" "\<forall>x \<in> set polls. \<not> fs_creation x \<and> \<not> export_creation x \<and> (\<forall>s. \<not> offers x s)"
    if "fs_polls ocid polls r" for ocid polls
    using that by (auto simp: fs_polls_def event_kinds intro!: filter_none)
  from assms show ?thesis
    by (cases rule: fs_trace.cases) (use polls in \<open>auto simp: event_kinds; metis\<close>)+
qed

lemma export_trace_creation:
  assumes "export_trace fsID s es r"
  shows "length (filter export_creation es) \<le> 1 \<and> (\<forall>x \<in> set es. \<not> fs_creation x) \<and>
    (\<forall>c \<in> set es. export_creation c \<longrightarrow> (\<forall>l \<in> set es. \<forall>s. \<not> offers l s))"
proof -
  have polls: "\<forall>x \<in> set polls. \<not> fs_creation x \<and> \<not> export_creation x \<and> (\<forall>s. \<not> offers x s)"
    if "export_polls ocid polls r" for ocid polls
    using that by (auto simp: export_polls_def event_kinds)
  have lists: "\<not> fs_creation x \<and> \<not> export_creation x" if "lists_exports fsID s x" for x
    using that by (auto simp: event_kinds)
  have ls: "filter export_creation ls = []"
    if "\<forall>x \<in> set ls. lists_exports fsID s x \<or> (lists_exports fsID s x \<and> (\<forall>s. \<not> offers x s))" for ls
    using that lists by (auto intro!: filter_none)
  have creates: "\<not> fs_creation c \<and> (\<forall>s. \<not> offers c s)" if "creates_export fsID s c res" for c res
    using that by (auto simp: event_kinds)
  from assms show ?thesis
    by (cases rule: export_trace.cases) (auto dest!: polls lists creates simp: filter_none ls)
qed

text \<open>
  \<open>Provision\<close> never creates more than one file system and one export. Whatever the services answer and
  however the call ends: it creates a file system only after the listing by its display name came
  back empty, and an export only if no page of the listing had one that is being created or active.
\<close>

theorem fss_creates_at_most_once:
  assumes "fss_Provision fsp opts ad w = Some (r, w')" and "client_ok (fspClient fsp)"
  shows "creation_ok (new_events w w')"
  using assms
proof (cases rule: fss_Provision_cases)
  case unsent
  then show ?thesis by (simp add: creation_ok_def new_events_def)
next
  case (no_target es)
  then show ?thesis by (auto simp: creation_ok_def new_events_def event_kinds intro!: filter_none [THEN arg_cong [of _ _ length], THEN eq_refl, THEN order_trans])
next
  case (attached pvc p pre g target s w1)
  have pre: "filter fs_creation (pre @ [g]) = []" "filter export_creation (pre @ [g]) = []"
    "\<forall>x \<in> set (pre @ [g]). \<not> fs_creation x \<and> \<not> export_creation x \<and> (\<forall>s. \<not> offers x s)"
    using attached(4) by (auto simp: event_kinds intro!: filter_none)
  have one: "\<not> fs_creation x \<and> \<not> export_creation x \<and> (\<forall>s. \<not> offers x s)" if "target_event x" for x
    using that by (auto simp: event_kinds)
  from attached(8) assms(2) attached(7) show ?thesis
  proof (cases rule: fss_attach_cases)
    case (no_address x)
    then have "new_events w w' = (pre @ [g]) @ [x]" using attached(3) by (simp add: new_events_def)
    with one [OF no_address(2)] pre show ?thesis by (auto simp: creation_ok_def)
  next
    case (no_ad x ip)
    then have "new_events w w' = (pre @ [g]) @ [x]" using attached(3) by (simp add: new_events_def)
    with one [OF no_ad(3)] pre show ?thesis by (auto simp: creation_ok_def)
  next
    case (no_fs a x fses r1)
    then have new: "new_events w w' = (pre @ [g]) @ x # fses" using attached(3) by (simp add: new_events_def)
    have "filter export_creation fses = []" using fs_trace_creation [OF no_fs(4)] by (auto intro!: filter_none)
    with fs_trace_creation [OF no_fs(4)] one [OF no_fs(3)] pre show ?thesis
      unfolding creation_ok_def new by simp blast
  next
    case (reached a x ip fses fs fsID exs r2)
    then have new: "new_events w w' = (pre @ [g]) @ x # fses @ exs" using attached(3) by (simp add: new_events_def)
    have "filter export_creation fses = []" using fs_trace_creation [OF reached(5)] by (auto intro!: filter_none)
    moreover have "filter fs_creation exs = []" using export_trace_creation [OF reached(7)] by (auto intro!: filter_none)
    ultimately show ?thesis
      using fs_trace_creation [OF reached(5)] export_trace_creation [OF reached(7)] one [OF reached(3)] pre
      unfolding creation_ok_def new by simp blast
  qed
qed

theorem fss_creates_at_most_once_witness:
  "\<exists>r w'. fss_Provision (mock_fsp False) mock_claim defaultAD (initial Map.empty) = Some (r, w') \<and>
    (\<exists>c \<in> set (events w'). fs_creation c) \<and> creation_ok (new_events (initial Map.empty) w')"
proof -
  obtain pv w' where run: "fss_Provision (mock_fsp False) mock_claim defaultAD (initial Map.empty) = Some (Ok pv, w')"
    and c: "\<exists>c \<in> set (events w'). \<exists>d r. evCall c = CallCreateFileSystem d r"
    using mock_fss_run [of False] by blast
  from fss_creates_at_most_once [OF run mock_fsp_client_ok] run c show ?thesis
    unfolding fs_creation_def by blast
qed

section \<open>Refusals, termination and deletion\<close>

text \<open>
  A claim that names no mount target, neither by its annotation nor by the parameter of its storage
  class, is refused before anything is sent; an empty annotation counts as none.
\<close>

theorem fss_no_mount_target:
  assumes "optPVC opts = Some pvc"
    and "pvcAnnotations pvc AnnotationMountTargetID \<in> {None, Some []}"
    and "optParameters opts MntTargetID \<in> {None, Some []}"
  shows "\<exists>e. fss_Provision fsp opts ad w = Some (Err e, w)"
proof -
  obtain p where p: "GetPrefix w = Some (Ok p, w)" by (rule GetPrefix_run)
  have "getMountTargetID opts = []"
    using assms by (auto simp: getMountTargetID_def map_get0_def Let_def split: option.splits)
  then show ?thesis
    by (simp add: fss_Provision_def go_bind_Ok [of GetPrefix, OF p] assms(1) go_simps Let_def)
qed

theorem fss_no_mount_target_witness:
  "\<exists>e. fss_Provision (mock_fsp True) (claim [ReadWriteMany] 50 Map.empty) defaultAD (initial Map.empty) =
    Some (Err e, initial Map.empty)"
  by (rule fss_no_mount_target [where pvc = "the (optPVC (claim [ReadWriteMany] 50 Map.empty))"])
    (simp_all add: claim_def)

text \<open>
  The volume is mounted read only exactly when no access mode of the claim permits writing; a claim
  without access modes counts as read only.
\<close>

theorem isReadOnly_iff: "isReadOnly modes = (set modes \<inter> {ReadWriteMany, ReadWriteOnce} = {})"
  by (induction modes) auto

text \<open>
  The deletion of both resources: first the export; only if that succeeded, or the export does not exist,
  the file system, which may also be gone already; every other error ends it and is passed on.
\<close>

definition deletes_both :: "string \<Rightarrow> string \<Rightarrow> event list \<Rightarrow> unit outcome \<Rightarrow> bool" where
  "deletes_both exportID fsID es r \<longleftrightarrow>
     (\<exists>x xerr. evCall x = CallDeleteExport (Some exportID) xerr \<and>
       (if xerr = None \<or> IsNotFound xerr
        then \<exists>y yerr. evCall y = CallDeleteFileSystem (Some fsID) yerr \<and> es = [x, y] \<and>
          r = (if yerr = None \<or> IsNotFound yerr then Ok () else Err (the yerr))
        else es = [x] \<and> r = Err (the xerr)))"

lemma fss_Delete_run:
  assumes "map_get0 (pvAnnotations pv) ociExportID = exportID" and "exportID \<noteq> []"
    and "map_get0 (pvAnnotations pv) fss_ociVolumeID = fsID" and "fsID \<noteq> []"
  shows "\<exists>r w'. fss_Delete fsp pv w = Some (r, w') \<and> deletes_both exportID fsID (new_events w w') r"
proof -
  let ?f = "DeleteExport (pcFSS (fspClient fsp)) Background (Some exportID)"
  let ?g = "DeleteFileSystem (pcFSS (fspClient fsp)) Background (Some fsID)"
  obtain xerr d cl where x: "?f (clock w) (cloud w) = (xerr, d, cl)" by (metis prod_cases3)
  let ?w1 = "sent Background (CallDeleteExport (Some exportID) xerr) d cl w"
  obtain yerr d' cl' where y: "?g (clock ?w1) (cloud ?w1) = (yerr, d', cl')" by (metis prod_cases3)
  let ?w2 = "sent Background (CallDeleteFileSystem (Some fsID) yerr) d' cl' ?w1"
  let ?x = "\<lparr>evAt = clock w, evCtx = Background, evCall = CallDeleteExport (Some exportID) xerr\<rparr>"
  have run: "fss_Delete fsp pv w = go_bind (ignore_not_found xerr) (\<lambda>_.
      go_bind (invoke (CallDeleteFileSystem (Some fsID)) Background ?g) ignore_not_found) ?w1"
    using assms by (simp add: fss_Delete_def Let_def go_bind_invoke [of ?f, OF x])
  show ?thesis
  proof (cases "xerr = None \<or> IsNotFound xerr")
    case True
    then have "ignore_not_found xerr = (ret () :: ('a world, unit) go)"
      by (cases xerr) (simp_all add: ignore_not_found_def)
    then have "fss_Delete fsp pv w = ignore_not_found yerr ?w2"
      unfolding run by (simp only: go_bind_ret go_bind_invoke [of ?g, OF y])
    then have res: "fss_Delete fsp pv w = Some (if yerr = None \<or> IsNotFound yerr then Ok () else Err (the yerr), ?w2)"
      by (cases yerr) (simp_all add: ignore_not_found_def go_simps)
    show ?thesis
      by (rule exI, rule exI, rule conjI, rule res, unfold deletes_both_def, rule exI [of _ ?x], rule exI [of _ xerr],
          rule conjI, simp, simp only: True if_True,
          rule exI [of _ "\<lparr>evAt = clock ?w1, evCtx = Background, evCall = CallDeleteFileSystem (Some fsID) yerr\<rparr>"],
          rule exI [of _ yerr], simp add: new_events_def)
  next
    case False
    then obtain e where e: "xerr = Some e" "\<not> IsNotFound (Some e)" by (cases xerr) auto
    then have res: "fss_Delete fsp pv w = Some (Err e, ?w1)"
      unfolding run by (simp add: ignore_not_found_def go_simps)
    show ?thesis
      by (rule exI, rule exI, rule conjI, rule res, unfold deletes_both_def, rule exI [of _ ?x], rule exI [of _ xerr],
          rule conjI, simp, simp only: False if_False) (simp add: new_events_def e)
  qed
qed

text \<open>
  C19: \<open>Delete\<close> always returns. Without both identifiers it fails and sends nothing. Otherwise it asks first
  for the deletion of the export; only if that succeeded, or the export does not exist, it asks for the
  deletion of the file system, which may also be gone already; every other error ends it and is
  passed on.
\<close>

theorem fss_Delete_spec:
  "\<exists>r w'. fss_Delete fsp pv w = Some (r, w') \<and>
    (if map_get0 (pvAnnotations pv) ociExportID = [] \<or> map_get0 (pvAnnotations pv) fss_ociVolumeID = []
     then (\<exists>e. r = Err e) \<and> w' = w
     else deletes_both (map_get0 (pvAnnotations pv) ociExportID) (map_get0 (pvAnnotations pv) fss_ociVolumeID)
       (new_events w w') r)"
  using fss_Delete_run [OF refl _ refl, of pv fsp w] by (auto simp: fss_Delete_def Let_def go_simps)

lemma findExport_total:
  assumes "\<forall>fsID s. \<exists>pages tok. serves_pages fsp fsID s pages tok" and "compartment_known (fspClient fsp)"
  shows "go_total (findExport fsp ctx fsID s)"
  using assms findExport_pages_run by (fastforce simp: go_total_def)

lemma fss_Provision_total:
  assumes "\<forall>fsID s. \<exists>pages tok. serves_pages fsp fsID s pages tok" and "compartment_known (fspClient fsp)"
  shows "go_total (fss_Provision fsp opts ad)"
proof -
  from assms(2) have c: "go_total (pcCompartmentOCID (fspClient fsp))"
    by (simp add: compartment_known_def client_ok_def)
  have list: "go_total (getFileSystemByDisplayName fsp ctx a name)" for ctx a name
    unfolding getFileSystemByDisplayName_def by (intro go_total c) (auto split: list.split intro: go_total)
  have fs: "go_total (getOrCreateFileSystem fsp ctx a name)" for ctx a name
    unfolding getOrCreateFileSystem_def Let_def by (intro go_total c list)
  have ex: "go_total (getOrCreateExport fsp ctx fsID s)" for ctx fsID s
    unfolding getOrCreateExport_def Let_def by (intro go_total findExport_total assms)
  have ip: "go_total (mount_ip fsp ctx m t)" for ctx m t
    unfolding mount_ip_def by (intro go_total rand_Int_total)
  show ?thesis
    unfolding fss_Provision_def fss_attach_def Let_def by (intro go_total GetPrefix_total fs ex ip)
qed

text \<open>
  \<open>Provision\<close> returns when every listing of exports ends. Whatever the other answers are and however
  long they take, a call ends once the service's pages of exports do not go on for ever.
\<close>

theorem fss_Provision_returns:
  assumes "\<forall>fsID s. \<exists>pages tok. serves_pages fsp fsID s pages tok" and "compartment_known (fspClient fsp)"
  shows "\<exists>r w'. fss_Provision fsp opts ad w = Some (r, w')"
  by (rule go_totalE [OF fss_Provision_total [OF assms]])

theorem fss_Provision_returns_witness:
  "\<exists>r w'. fss_Provision (mock_fsp True) mock_claim defaultAD (initial Map.empty) = Some (r, w')"
proof (rule fss_Provision_returns)
  show "compartment_known (fspClient (mock_fsp True))"
    by (simp add: compartment_known_def go_simps)
  have "serves_pages (mock_fsp True) fsID s [[\<lparr>exsId = Some mockExportID, exsExportSetId = Some s,
      exsFileSystemId = Some fsID, exsLifecycleState = ''ACTIVE''\<rparr>]] (\<lambda>_. [])" for fsID s
    by (simp add: serves_pages_def mock_FSS_def MockFileStorageClient_def)
  then show "\<forall>fsID s. \<exists>pages tok. serves_pages (mock_fsp True) fsID s pages tok" by blast
qed

section \<open>The file system provisioner is a plugin\<close>

interpretation fil: provisioner_plugin "fss_Provision (f\<lparr>fspClient := client_of p\<rparr>)"
  "fss_Delete (f\<lparr>fspClient := client_of p\<rparr>)" "{fss_ociVolumeID, ociExportID}"
  for f :: "'c filesystemProvisioner" and p :: "'c provisionerClient"
proof unfold_locales
  fix opts ad show "keeps extends (fss_Provision (f\<lparr>fspClient := client_of p\<rparr>) opts ad)"
    by (rule fss_Provision_frame) simp
next
  fix pv show "keeps extends (fss_Delete (f\<lparr>fspClient := client_of p\<rparr>) pv)"
    by (rule fss_Delete_frame)
next
  fix opts ad w pv w'
  assume run: "fss_Provision (f\<lparr>fspClient := client_of p\<rparr>) opts ad w = Some (Ok pv, w')"
  have "client_ok (fspClient (f\<lparr>fspClient := client_of p\<rparr>))" by simp
  from fss_Provision_Ok [OF run this] obtain pvc ip fsID e path where
    "pv = fss_pv (f\<lparr>fspClient := client_of p\<rparr>) opts pvc ip fsID e path" by blast
  then show "(\<exists>a. pvAnnotations pv = Some a \<and> {fss_ociVolumeID, ociExportID} \<subseteq> dom a) \<and> pvLabels pv \<noteq> None"
    by (simp add: fss_pv_def)
next
  fix pv pv' :: PersistentVolume
  assume "\<And>k. k \<in> {fss_ociVolumeID, ociExportID} \<Longrightarrow> map_get (pvAnnotations pv) k = map_get (pvAnnotations pv') k"
  then show "fss_Delete (f\<lparr>fspClient := client_of p\<rparr>) pv = fss_Delete (f\<lparr>fspClient := client_of p\<rparr>) pv'"
    by (simp add: fss_Delete_def map_get0_def)
qed

end
