(* ===== verification/Fss_Protocol.thy ===== *)
theory Fss_Protocol
  imports Fss
begin

text \<open>
  The file system provisioner against two specifications: progress, that \<open>Provision\<close> succeeds if the services
  make its resources active in time; and a protocol, the state machine that the requests of every call follow.
\<close>

section \<open>Progress\<close>

text \<open>\<open>prompt dur P f\<close>: the service \<open>f\<close> answers within \<open>dur\<close>, at every time \<open>t\<close> with a result that satisfies \<open>P t\<close>.\<close>

definition prompt :: "int \<Rightarrow> (time \<Rightarrow> 'a \<Rightarrow> bool) \<Rightarrow> ('c, error + 'a) api \<Rightarrow> bool" where
  "prompt dur P f \<longleftrightarrow> (\<forall>t c. \<exists>x d c'. f t c = (Inr x, d, c') \<and> int d \<le> dur \<and> P t x)"

lemma prompt_invoke:
  assumes "prompt dur P f"
  obtains x d c where "P (clock w) x" "int d \<le> dur"
    "\<And>k. go_bind (invoke mk ctx f) (\<lambda>r. go_bind (of_result r) k) w = k x (sent ctx (mk (Inr x)) d c w)"
proof -
  obtain x d c where f: "f (clock w) (cloud w) = (Inr x, d, c)" "int d \<le> dur" "P (clock w) x"
    using assms unfolding prompt_def by blast
  from that [OF f(3,2)] show thesis by (simp add: go_bind_invoke [of f, OF f(1)] go_simps)
qed

text \<open>
  A wait for a resource that is usable from \<open>ready\<close> on returns it. The conditions of the three waits differ in the request
  and in the reading \<open>k\<close> of the answer.
\<close>

lemma prompt_wait:
  fixes w :: "'c world"
  assumes cond: "\<And>v. cond v = go_bind (invoke mk Background f) (\<lambda>r. go_bind (of_result r) k)"
    and f: "prompt dur P f"
    and k: "\<And>t x s. P t x \<Longrightarrow> k x s = Some (Ok (good x, Some x), s)"
    and good: "\<And>t x. P t x \<Longrightarrow> ready \<le> t \<Longrightarrow> good x"
    and ready: "ready \<le> clock w + defaultTimeout"
  shows "\<exists>t x w'. PollImmediate defaultInterval defaultTimeout cond v w = Some (Ok (Some x), w') \<and> P t x \<and> good x \<and>
    clock w \<le> clock w'"
proof -
  have run: "\<exists>x d c. P (clock s) x \<and> int d \<le> dur \<and>
      cond v s = Some (Ok (good x, Some x), sent Background (mk (Inr x)) d c s)" for v s
  proof -
    obtain x d c where x: "P (clock s) x" "int d \<le> dur"
      "go_bind (invoke mk Background f) (\<lambda>r. go_bind (of_result r) k) s = k x (sent Background (mk (Inr x)) d c s)"
      by (rule prompt_invoke [OF f, where w = s and mk = mk and ctx = Background]) blast
    have "cond v s = Some (Ok (good x, Some x), sent Background (mk (Inr x)) d c s)"
      unfolding cond x(3) by (rule k [OF x(1)])
    with x(1,2) show ?thesis by blast
  qed
  let ?l = "\<bar>ready\<bar> + \<bar>dur\<bar> + \<bar>clock w\<bar> + defaultInterval + 1"
  have "settles ready dur ?l cond"
    unfolding settles_def
  proof (intro allI impI)
    fix v and s :: "'c world" assume "clock s < ?l"
    obtain x d c where x: "P (clock s) x" "int d \<le> dur" "cond v s = Some (Ok (good x, Some x), sent Background (mk (Inr x)) d c s)"
      using run by blast
    then show "\<exists>d v' s'. cond v s = Some (Ok (d, v'), s') \<and> clock s \<le> clock s' \<and> clock s' \<le> clock s + dur \<and> (ready \<le> clock s \<longrightarrow> d)"
      using good [OF x(1)] by auto
  qed
  then have "\<exists>v' s'. PollImmediate defaultInterval defaultTimeout cond v w = Some (Ok v', s')"
    by (rule PollImmediate_settles) (use ready default_interval in auto)
  then obtain v' s' where p: "PollImmediate defaultInterval defaultTimeout cond v w = Some (Ok v', s')" by blast
  let ?Q = "\<lambda>r s. \<forall>v'. r = Ok v' \<longrightarrow> (\<exists>t x. v' = Some x \<and> P t x \<and> good x) \<and> clock w \<le> clock s"
  have "?Q (Ok v') s'"
  proof (rule PollImmediate_rule [OF p default_interval(1), where I = "\<lambda>_ s. clock w \<le> clock s" and Q = ?Q])
    fix v s r s1 assume I: "clock w \<le> clock s" and c: "cond v s = Some (r, s1)"
    from run [of s v] c I show "cond_ends ?Q (\<lambda>_ s. clock w \<le> clock s) r s1" by (auto simp: cond_ends_def)
  qed (auto simp: runtime_step_def)
  with p show ?thesis by blast
qed

text \<open>
  Services that let the claim succeed: the mount target is there, with an address and the export set \<open>s\<close>, once it is active;
  the listing by name shows at most the file system \<open>fsID\<close>, which is also the one that is created; the pages of the
  listing of its exports offer at most \<open>exID\<close>, the one that is created; and what is waited for is active from \<open>ready\<close> on.
\<close>

definition serves_files ::
  "'c filesystemProvisioner \<Rightarrow> string \<Rightarrow> string \<Rightarrow> string \<Rightarrow> string \<Rightarrow> string \<Rightarrow> string \<Rightarrow> time \<Rightarrow> int \<Rightarrow> bool" where
  "serves_files fsp mtID ad name s fsID exID ready dur \<longleftrightarrow>
     (let fss = pcFSS (fspClient fsp) in
       prompt dur (\<lambda>t mt. mtLifecycleState mt \<notin> {StateFailed, StateDeleting, StateDeleted} \<and>
         (ready \<le> t \<longrightarrow> mtLifecycleState mt = StateActive) \<and>
         (mtLifecycleState mt = StateActive \<longrightarrow> mtPrivateIpIds mt \<noteq> [] \<and> mtExportSetId mt = Some s))
         (GetMountTarget fss Background (Some mtID)) \<and>
       (\<forall>i. prompt dur (\<lambda>t ip. ipAddress ip \<noteq> None) (GetPrivateIp (pcVCN (fspClient fsp)) Background (Some i))) \<and>
       (\<forall>c. prompt dur (\<lambda>t items. items = [] \<or> (\<exists>x. items = [x] \<and> fssumId x = Some fsID))
         (ListFileSystems fss Background c (Some ad) (Some name))) \<and>
       (\<forall>details. prompt dur (\<lambda>t fs. fsId fs = Some fsID) (CreateFileSystem fss Background details)) \<and>
       prompt dur (\<lambda>t fs. fsId fs = Some fsID \<and> fsLifecycleState fs \<notin> {StateDeleting, StateDeleted} \<and>
         (ready \<le> t \<longrightarrow> fsLifecycleState fs = StateActive)) (GetFileSystem fss Background (Some fsID)) \<and>
       (\<exists>pages tok. serves_pages fsp fsID s pages tok \<and>
         (\<forall>x \<in> set (concat pages). usable_export x \<longrightarrow> exsId x = Some exID)) \<and>
       (\<forall>details. prompt dur (\<lambda>t x. exId x = Some exID) (CreateExport fss Background details)) \<and>
       prompt dur (\<lambda>t x. exId x = Some exID \<and> exPath x \<noteq> None \<and> exLifecycleState x \<notin> {StateDeleting, StateDeleted} \<and>
         (ready \<le> t \<longrightarrow> exLifecycleState x = StateActive)) (GetExport fss Background (Some exID)))"

lemma served_waits:
  assumes "serves_files fsp mtID ad name s fsID exID ready dur" and "ready \<le> clock w + defaultTimeout"
  shows "\<exists>mt w'. awaitMountTarget fsp Background mtID w = Some (Ok (Some mt), w') \<and> mtPrivateIpIds mt \<noteq> [] \<and>
      mtExportSetId mt = Some s \<and> clock w \<le> clock w'"
    and "\<exists>fs w'. awaitFileSystem fsp Background fsID w = Some (Ok (Some fs), w') \<and> fsId fs = Some fsID \<and> clock w \<le> clock w'"
    and "\<exists>x w'. awaitExport fsp Background exID w = Some (Ok (Some x), w') \<and> exId x = Some exID \<and> exPath x \<noteq> None \<and> clock w \<le> clock w'"
proof -
  note fss = assms(1) [unfolded serves_files_def Let_def]
  show "\<exists>mt w'. awaitMountTarget fsp Background mtID w = Some (Ok (Some mt), w') \<and> mtPrivateIpIds mt \<noteq> [] \<and>
      mtExportSetId mt = Some s \<and> clock w \<le> clock w'"
    using prompt_wait [OF mountTarget_condition_def [unfolded Let_def] conjunct1 [OF fss],
        where good = "\<lambda>mt. mtLifecycleState mt = StateActive", OF _ _ assms(2)]
    unfolding awaitMountTarget_def by (fastforce simp: go_simps)
  show "\<exists>fs w'. awaitFileSystem fsp Background fsID w = Some (Ok (Some fs), w') \<and> fsId fs = Some fsID \<and> clock w \<le> clock w'"
    using prompt_wait [OF fileSystem_condition_def [unfolded Let_def] conjunct1 [OF conjunct2 [OF conjunct2 [OF conjunct2 [OF conjunct2 [OF fss]]]]],
        where good = "\<lambda>fs. fsLifecycleState fs = StateActive", OF _ _ assms(2)]
    unfolding awaitFileSystem_def by (fastforce simp: go_simps)
  have ex: "prompt dur (\<lambda>t x. exId x = Some exID \<and> exPath x \<noteq> None \<and> exLifecycleState x \<notin> {StateDeleting, StateDeleted} \<and>
         (ready \<le> t \<longrightarrow> exLifecycleState x = StateActive)) (GetExport (pcFSS (fspClient fsp)) Background (Some exID))"
    using fss by blast
  show "\<exists>x w'. awaitExport fsp Background exID w = Some (Ok (Some x), w') \<and> exId x = Some exID \<and> exPath x \<noteq> None \<and> clock w \<le> clock w'"
    using prompt_wait [OF export_condition_def [unfolded Let_def] ex, where good = "\<lambda>x. exLifecycleState x = StateActive", OF _ _ assms(2)]
    unfolding awaitExport_def by (fastforce simp: go_simps)
qed

lemma getOrCreateFileSystem_served:
  assumes "serves_files fsp mtID ad name s fsID exID ready dur" and "ready \<le> clock w + defaultTimeout"
    and "compartment_known (fspClient fsp)"
  shows "\<exists>fs w'. getOrCreateFileSystem fsp Background ad name w = Some (Ok (Some fs), w') \<and> fsId fs = Some fsID \<and>
    clock w \<le> clock w'"
proof -
  note fss = assms(1) [unfolded serves_files_def Let_def]
  have ok: "client_ok (fspClient fsp)" using assms(3) by (simp add: compartment_known_def)
  have compartment: "\<exists>c w'. pcCompartmentOCID (fspClient fsp) w = Some (Ok c, w') \<and> clock w \<le> clock w'" for w
    using assms(3) client_okD(4) [OF ok] unfolding compartment_known_def by metis
  obtain c w1 where c: "pcCompartmentOCID (fspClient fsp) w = Some (Ok c, w1)" "clock w \<le> clock w1"
    using compartment by blast
  obtain items d cl where items: "items = [] \<or> (\<exists>x. items = [x] \<and> fssumId x = Some fsID)"
    "ListFileSystems (pcFSS (fspClient fsp)) Background (Some c) (Some ad) (Some name) (clock w1) (cloud w1) = (Inr items, d, cl)"
    using fss unfolding prompt_def by meson
  let ?w2 = "sent Background (CallListFileSystems (Some c) (Some ad) (Some name) (Inr items)) d cl w1"
  have list: "getFileSystemByDisplayName fsp Background ad name w =
      Some (case items of [x] \<Rightarrow> Ok x | _ \<Rightarrow> Err FssErrNotFound, ?w2)"
    using items(1) by (auto simp: getFileSystemByDisplayName_def go_bind_Ok [of "pcCompartmentOCID _", OF c(1)]
        go_bind_invoke [of "ListFileSystems _ _ _ _ _", OF items(2)] go_simps)
  show ?thesis
    using items(1)
  proof
    assume none: "items = []"
    obtain c' w3 where c': "pcCompartmentOCID (fspClient fsp) ?w2 = Some (Ok c', w3)" "clock ?w2 \<le> clock w3"
      using compartment by blast
    let ?d = "\<lparr>cfsCompartmentId = Some c', cfsAvailabilityDomain = Some ad, cfsDisplayName = Some name\<rparr>"
    obtain fs d' cl' where fs: "CreateFileSystem (pcFSS (fspClient fsp)) Background ?d (clock w3) (cloud w3) = (Inr fs, d', cl')"
      "fsId fs = Some fsID" using fss unfolding prompt_def by meson
    let ?w4 = "sent Background (CallCreateFileSystem ?d (Inr fs)) d' cl' w3"
    have later: "clock w \<le> clock ?w4" using c(2) c'(2) by simp
    with assms(2) have "ready \<le> clock ?w4 + defaultTimeout" by linarith
    from served_waits(2) [OF assms(1) this] later show ?thesis
      by (auto simp: getOrCreateFileSystem_def go_try_def list none go_bind_Ok [of "pcCompartmentOCID _", OF c'(1) [unfolded none]] Let_def
          go_bind_invoke [of "CreateFileSystem _ _ _", OF fs(1)] go_simps fs(2))
  next
    assume "\<exists>x. items = [x] \<and> fssumId x = Some fsID"
    then obtain x where x: "items = [x]" "fssumId x = Some fsID" by blast
    have later: "clock w \<le> clock ?w2" using c(2) by simp
    with assms(2) have "ready \<le> clock ?w2 + defaultTimeout" by linarith
    from served_waits(2) [OF assms(1) this] later show ?thesis
      by (auto simp: getOrCreateFileSystem_def go_try_def list x go_simps)
  qed
qed

lemma getOrCreateExport_served:
  assumes "serves_files fsp mtID ad name s fsID exID ready dur" and "ready \<le> clock w + defaultTimeout"
    and "compartment_known (fspClient fsp)"
  shows "\<exists>x w'. getOrCreateExport fsp Background fsID s w = Some (Ok (Some x), w') \<and> exId x = Some exID \<and> exPath x \<noteq> None"
proof -
  note fss = assms(1) [unfolded serves_files_def Let_def]
  have ok: "client_ok (fspClient fsp)" using assms(3) by (simp add: compartment_known_def)
  obtain pages tok where pages: "serves_pages fsp fsID s pages tok" "\<forall>x \<in> set (concat pages). usable_export x \<longrightarrow> exsId x = Some exID"
    using fss by blast
  obtain w1 where find: "findExport fsp Background fsID s w =
      Some (case find usable_export (concat pages) of None \<Rightarrow> Err FssErrNotFound | Some x \<Rightarrow> Ok x, w1)"
    using findExport_pages_run [OF pages(1) assms(3)] by blast
  have later: "clock w \<le> clock w1" using keepsD [OF findExport_frame [OF ok] find] by (simp add: extends_def)
  show ?thesis
  proof (cases "find usable_export (concat pages)")
    case None
    let ?d = "\<lparr>ceExportSetId = Some s, ceFileSystemId = Some fsID, cePath = Some (CHR ''/'' # fsID)\<rparr>"
    obtain x d cl where x: "CreateExport (pcFSS (fspClient fsp)) Background ?d (clock w1) (cloud w1) = (Inr x, d, cl)"
      "exId x = Some exID" using fss unfolding prompt_def by meson
    let ?w2 = "sent Background (CallCreateExport ?d (Inr x)) d cl w1"
    have "ready \<le> clock ?w2 + defaultTimeout" using later assms(2) by simp
    from served_waits(3) [OF assms(1) this] show ?thesis
      by (auto simp: getOrCreateExport_def go_try_def find None Let_def go_bind_invoke [of "CreateExport _ _ _", OF x(1)]
          go_simps x(2))
  next
    case (Some x)
    then have "x \<in> set (concat pages) \<and> usable_export x" by (metis find_Some_iff nth_mem)
    then have "exsId x = Some exID" using pages(2) by blast
    moreover have "ready \<le> clock w1 + defaultTimeout" using later assms(2) by simp
    ultimately show ?thesis using served_waits(3) [OF assms(1), of w1]
      by (auto simp: getOrCreateExport_def go_try_def find Some go_simps)
  qed
qed

lemma mount_ip_served:
  assumes "serves_files fsp mtID ad name s fsID exID ready dur" and "mtPrivateIpIds target \<noteq> []"
  shows "\<exists>a w'. mount_ip fsp Background m target w = Some (Ok a, w') \<and> clock w \<le> clock w'"
proof -
  note fss = assms(1) [unfolded serves_files_def Let_def]
  obtain n w1 where rand: "rand_Int w = Some (Ok n, w1)" "clock w1 = clock w"
    by (simp add: rand_Int_def draw_def)
  let ?i = "mtPrivateIpIds target ! (n mod length (mtPrivateIpIds target))"
  obtain ip d cl where ip: "GetPrivateIp (pcVCN (fspClient fsp)) Background (Some ?i) (clock w1) (cloud w1) = (Inr ip, d, cl)"
    "ipAddress ip \<noteq> None" using fss unfolding prompt_def by meson
  then show ?thesis using assms(2) rand(2)
    by (auto simp: mount_ip_def go_bind_Ok [of rand_Int w, OF rand(1)] index_def go_simps
        go_bind_invoke [of "GetPrivateIp _ _ _", OF ip(1)])
qed

text \<open>
  C10: a claim gets its file system. Suppose the services answer within \<open>dur\<close>, know the mount target that the claim names, and
  what they have, or create, is active from \<open>ready\<close> on, no later than the five minutes for which the code waits. Then
  \<open>Provision\<close> returns the volume, whether the file system or its export had to be created or existed before, and however
  the listing of exports is cut into pages.
\<close>

theorem fss_Provision_succeeds:
  assumes "GetPrefix w = Some (Ok p, w)" and "optPVC opts = Some pvc" and "adName ad = Some a" and "getMountTargetID opts = mtID" and "mtID \<noteq> []"
    and "serves_files fsp mtID a (p @ pvcUID pvc) s fsID exID ready dur" and "ready \<le> clock w + defaultTimeout"
    and "compartment_known (fspClient fsp)"
  shows "\<exists>pv w'. fss_Provision fsp opts ad w = Some (Ok pv, w') \<and> pvName pv = fsID \<and>
    pvAnnotations pv = Some [fss_ociVolumeID \<mapsto> fsID, ociExportID \<mapsto> exID]"
proof -
  obtain mt w1 where mt: "awaitMountTarget fsp Background mtID w = Some (Ok (Some mt), w1)" "mtPrivateIpIds mt \<noteq> []"
    "mtExportSetId mt = Some s" "clock w \<le> clock w1"
    using served_waits(1) [OF assms(6,7)] by blast
  obtain ip w2 where ip: "mount_ip fsp Background mtID mt w1 = Some (Ok ip, w2)" "clock w1 \<le> clock w2"
    using mount_ip_served [OF assms(6) mt(2)] by blast
  have "ready \<le> clock w2 + defaultTimeout" using assms(7) mt(4) ip(2) by linarith
  then obtain fs w3 where fs: "getOrCreateFileSystem fsp Background a (p @ pvcUID pvc) w2 = Some (Ok (Some fs), w3)"
    "fsId fs = Some fsID" "clock w2 \<le> clock w3"
    using getOrCreateFileSystem_served [OF assms(6) _ assms(8)] by blast
  have "ready \<le> clock w3 + defaultTimeout" using assms(7) mt(4) ip(2) fs(3) by linarith
  then obtain x w4 path where x: "getOrCreateExport fsp Background fsID s w3 = Some (Ok (Some x), w4)" "exId x = Some exID" "exPath x = Some path"
    using getOrCreateExport_served [OF assms(6) _ assms(8)] by blast
  have "fss_Provision fsp opts ad w = fss_attach fsp opts pvc ad (p @ pvcUID pvc) mtID mt s w1"
    using assms(2,4,5) mt by (simp add: fss_Provision_def go_bind_Ok [of GetPrefix, OF assms(1)] go_simps Let_def
        go_bind_Ok [of "awaitMountTarget _ _ _", OF mt(1)])
  also have "\<dots> = Some (Ok (fss_pv fsp opts pvc ip fsID exID path), w4)"
    by (simp add: fss_attach_def go_bind_Ok [of "mount_ip _ _ _ _", OF ip(1)] go_simps assms(3)
        go_bind_Ok [of "getOrCreateFileSystem _ _ _ _", OF fs(1)] fs(2)
        go_bind_Ok [of "getOrCreateExport _ _ _ _", OF x(1)] x(2,3))
  finally show ?thesis by (simp add: fss_pv_def)
qed

lemma mock_fsp_known: "compartment_known (fspClient (mock_fsp b))"
  by (simp add: compartment_known_def go_simps)

theorem fss_Provision_succeeds_witness:
  "\<exists>pv w'. fss_Provision (mock_fsp False) mock_claim defaultAD (initial Map.empty) = Some (Ok pv, w') \<and> pvName pv = mockFileSystemID"
proof -
  let ?page = "[] :: ExportSummary list"
  have pages: "serves_pages (mock_fsp False) mockFileSystemID mockExportSetID [?page] (\<lambda>_. [])"
    by (simp add: serves_pages_def mock_FSS_def)
  have "serves_files (mock_fsp False) CreatedMountTargetID ''PHX-AD-1'' ''uid'' mockExportSetID mockFileSystemID mockExportID 0 0"
    unfolding serves_files_def Let_def
    by (intro conjI allI exI [of _ "[?page]"] exI [of _ "\<lambda>_. []"] pages)
      (simp_all add: prompt_def mock_FSS_def MockFileStorageClient_def MockVirtualNetworkClient_def)
  then have "\<exists>pv w'. fss_Provision (mock_fsp False) mock_claim defaultAD (initial Map.empty) = Some (Ok pv, w') \<and>
      pvName pv = mockFileSystemID \<and> pvAnnotations pv = Some [fss_ociVolumeID \<mapsto> mockFileSystemID, ociExportID \<mapsto> mockExportID]"
    by (intro fss_Provision_succeeds [where p = "[]" and ready = 0, OF GetPrefix_unset mock_pvc(1) _ mock_mount_target _ _ _ mock_fsp_known])
      (simp_all add: defaultAD_def mock_pvc defaultTimeout_def Minute_def Second_def)
  then show ?thesis by blast
qed

section \<open>The protocol\<close>

text \<open>
  Where a call is: waiting for the mount target; about to ask for its address, which one of its private IPs has; looking for a file
  system of the name, then without one, or waiting for one; asking for a page of the exports of the active file system, then
  without one that is usable, or waiting for one; and done, with all that the volume needs. \<open>FFailed\<close>: the
  last answer ended the call.
\<close>

datatype fstate =
    FTarget
  | FAddress string "string list"
  | FListing string string
  | FMissing string string
  | FFileSystem string string string
  | FPages string string string "string option"
  | FNoExport string string string
  | FExport string string string string
  | FServed string string string string
  | FFailed

definition page_event :: "string \<Rightarrow> string \<Rightarrow> string option \<Rightarrow> error + ListExportsResponse \<Rightarrow> event \<Rightarrow> bool" where
  "page_event fsID s pg res e \<longleftrightarrow> (\<exists>c. evCall e = CallListExports c (Some fsID) (Some s) pg res)"

inductive fstep :: "string \<Rightarrow> string \<Rightarrow> string \<Rightarrow> fstate \<Rightarrow> event \<Rightarrow> fstate \<Rightarrow> bool" for mtID ad name where
  target_polled: "mt_poll mtID e \<Longrightarrow> fstep mtID ad name FTarget e FTarget"
| target_active: "mt_active mtID (Some t) e \<Longrightarrow> mtExportSetId t = Some s \<Longrightarrow> fstep mtID ad name FTarget e (FAddress s (mtPrivateIpIds t))"
| addressed: "evCall e = CallGetPrivateIp (Some i) (Inr ip) \<Longrightarrow> i \<in> set ips \<Longrightarrow> ipAddress ip = Some adr \<Longrightarrow>
    fstep mtID ad name (FAddress s ips) e (FListing s adr)"
| no_address: "evCall e = CallGetPrivateIp (Some i) res \<Longrightarrow> i \<in> set ips \<Longrightarrow> fstep mtID ad name (FAddress s ips) e FFailed"
| listed: "lists_fs ad name e (Inr [x]) \<Longrightarrow> fssumId x = Some i \<Longrightarrow> fstep mtID ad name (FListing s adr) e (FFileSystem s adr i)"
| missing: "lists_fs ad name e res \<Longrightarrow> res = Inr [] \<or> res = Inl FssErrNotFound \<Longrightarrow> fstep mtID ad name (FListing s adr) e (FMissing s adr)"
| unlisted: "lists_fs ad name e res \<Longrightarrow> fstep mtID ad name (FListing s adr) e FFailed"
| fs_created: "creates_fs ad name e (Inr fs) \<Longrightarrow> fsId fs = Some i \<Longrightarrow> fstep mtID ad name (FMissing s adr) e (FFileSystem s adr i)"
| fs_refused: "creates_fs ad name e res \<Longrightarrow> fstep mtID ad name (FMissing s adr) e FFailed"
| fs_polled: "fs_poll i e \<Longrightarrow> fstep mtID ad name (FFileSystem s adr i) e (FFileSystem s adr i)"
| fs_ready: "fs_active i (Some fs) e \<Longrightarrow> fsId fs = Some j \<Longrightarrow> fstep mtID ad name (FFileSystem s adr i) e (FPages s adr j None)"
| page: "page_event j s pg (Inr resp) e \<Longrightarrow> find usable_export (leItems resp) = None \<Longrightarrow> leOpcNextPage resp = Some p \<Longrightarrow>
    fstep mtID ad name (FPages s adr j pg) e (FPages s adr j (Some p))"
| last_page: "page_event j s pg res e \<Longrightarrow>
    res = Inl FssErrNotFound \<or> (\<exists>resp. res = Inr resp \<and> find usable_export (leItems resp) = None \<and> leOpcNextPage resp = None) \<Longrightarrow>
    fstep mtID ad name (FPages s adr j pg) e (FNoExport s adr j)"
| offered: "page_event j s pg (Inr resp) e \<Longrightarrow> find usable_export (leItems resp) = Some x \<Longrightarrow> exsId x = Some k \<Longrightarrow>
    fstep mtID ad name (FPages s adr j pg) e (FExport s adr j k)"
| no_page: "page_event j s pg res e \<Longrightarrow> fstep mtID ad name (FPages s adr j pg) e FFailed"
| export_created: "creates_export j s e (Inr x) \<Longrightarrow> exId x = Some k \<Longrightarrow> fstep mtID ad name (FNoExport s adr j) e (FExport s adr j k)"
| export_refused: "creates_export j s e res \<Longrightarrow> fstep mtID ad name (FNoExport s adr j) e FFailed"
| export_polled: "export_poll k e \<Longrightarrow> fstep mtID ad name (FExport s adr j k) e (FExport s adr j k)"
| export_ready: "export_active k (Some x) e \<Longrightarrow> exId x = Some l \<Longrightarrow> exPath x = Some p \<Longrightarrow>
    fstep mtID ad name (FExport s adr j k) e (FServed adr j l p)"

inductive fsteps :: "string \<Rightarrow> string \<Rightarrow> string \<Rightarrow> fstate \<Rightarrow> event list \<Rightarrow> fstate \<Rightarrow> bool" for mtID ad name where
  fnil: "fsteps mtID ad name s [] s"
| fcons: "fstep mtID ad name s e t \<Longrightarrow> fsteps mtID ad name t es u \<Longrightarrow> fsteps mtID ad name s (e # es) u"

lemma fsteps_append: "fsteps m a n s es t \<Longrightarrow> fsteps m a n t fs u \<Longrightarrow> fsteps m a n s (es @ fs) u"
  by (induction rule: fsteps.induct) (auto intro: fcons)

lemma fsteps_one: "fstep m a n s e t \<Longrightarrow> fsteps m a n s [e] t"
  by (auto intro: fnil fcons)

lemma fsteps_stay: "(\<And>x. x \<in> set es \<Longrightarrow> fstep m a n s x s) \<Longrightarrow> fsteps m a n s es s"
  by (induction es) (auto intro: fnil fcons)

lemma fs_polls_fsteps:
  assumes "fs_polls i polls r"
  shows "\<exists>st. fsteps m a n (FFileSystem s adr i) polls st \<and> (\<forall>fs j. r = Ok (Some fs) \<and> fsId fs = Some j \<longrightarrow> st = FPages s adr j None)"
proof -
  from assms obtain es e where polls: "polls = es @ [e]" "\<forall>x \<in> set polls. fs_poll i x" "\<And>v. r = Ok v \<Longrightarrow> fs_active i v e"
    unfolding fs_polls_def by blast
  have pre: "fsteps m a n (FFileSystem s adr i) es (FFileSystem s adr i)"
    by (rule fsteps_stay) (use polls(1,2) in \<open>auto intro: fs_polled\<close>)
  show ?thesis
  proof (cases "\<exists>fs j. r = Ok (Some fs) \<and> fsId fs = Some j")
    case True
    then obtain fs j where fs: "r = Ok (Some fs)" "fsId fs = Some j" by blast
    from fsteps_append [OF pre fsteps_one [OF fs_ready [OF polls(3) [OF fs(1)] fs(2)]]] fs polls(1) show ?thesis by auto
  next
    case False
    have "fs_poll i e" using polls(1,2) by simp
    from fsteps_append [OF pre fsteps_one [OF fs_polled [OF this]]] False polls(1) show ?thesis by auto
  qed
qed

lemma export_polls_fsteps:
  assumes "export_polls k polls r"
  shows "\<exists>st. fsteps m a n (FExport s adr j k) polls st \<and>
    (\<forall>x l p. r = Ok (Some x) \<and> exId x = Some l \<and> exPath x = Some p \<longrightarrow> st = FServed adr j l p)"
proof -
  from assms obtain es e where polls: "polls = es @ [e]" "\<forall>x \<in> set polls. export_poll k x" "\<And>v. r = Ok v \<Longrightarrow> export_active k v e"
    unfolding export_polls_def by blast
  have pre: "fsteps m a n (FExport s adr j k) es (FExport s adr j k)"
    by (rule fsteps_stay) (use polls(1,2) in \<open>auto intro: export_polled\<close>)
  show ?thesis
  proof (cases "\<exists>x l p. r = Ok (Some x) \<and> exId x = Some l \<and> exPath x = Some p")
    case True
    then obtain x l p where x: "r = Ok (Some x)" "exId x = Some l" "exPath x = Some p" by blast
    from fsteps_append [OF pre fsteps_one [OF export_ready [OF polls(3) [OF x(1)] x(2,3)]]] x polls(1) show ?thesis by auto
  next
    case False
    have "export_poll k e" using polls(1,2) by simp
    from fsteps_append [OF pre fsteps_one [OF export_polled [OF this]]] False polls(1) show ?thesis by auto
  qed
qed

lemma fs_trace_fsteps:
  assumes "fs_trace ad name es r"
  shows "\<exists>st. fsteps m ad name (FListing s adr) es st \<and> (\<forall>fs j. r = Ok (Some fs) \<and> fsId fs = Some j \<longrightarrow> st = FPages s adr j None)"
  using assms
proof (cases rule: fs_trace.cases)
  case no_compartment
  then show ?thesis by (auto simp: no_value_def intro: fnil)
next
  case (not_listed l res)
  from fsteps_one [OF unlisted [OF not_listed(2)]] not_listed show ?thesis by (auto simp: no_value_def)
next
  case (found l x ocid polls)
  from fs_polls_fsteps [OF found(4)] obtain st where "fsteps m ad name (FFileSystem s adr ocid) polls st"
    "\<forall>fs j. r = Ok (Some fs) \<and> fsId fs = Some j \<longrightarrow> st = FPages s adr j None" by metis
  with fcons [OF listed [OF found(2,3)]] found(1) show ?thesis by blast
next
  case (not_created l res c res')
  from fcons [OF missing [OF not_created(2,3)] fsteps_one [OF fs_refused [OF not_created(4)]]] not_created show ?thesis
    by (auto simp: no_value_def)
next
  case (created l res c fs ocid polls)
  from fs_polls_fsteps [OF created(6)] obtain st where st: "fsteps m ad name (FFileSystem s adr ocid) polls st"
    "\<forall>fs j. r = Ok (Some fs) \<and> fsId fs = Some j \<longrightarrow> st = FPages s adr j None" by metis
  from fcons [OF missing [OF created(2,3)] fcons [OF fs_created [OF created(4,5)] st(1)]] st(2) created(1) show ?thesis by blast
qed

text \<open>The search for an export asks for the pages one after the other.\<close>

lemma findExport_fsteps:
  assumes "findExport_loop fsp ctx j s pg w = Some (r, w')" and "client_ok (fspClient fsp)"
  shows "\<exists>es st. events w' = events w @ es \<and> fsteps m a n (FPages s adr j pg) es st \<and>
    (\<forall>x k. r = Ok x \<and> exsId x = Some k \<longrightarrow> st = FExport s adr j k) \<and> (r = Err FssErrNotFound \<longrightarrow> st = FNoExport s adr j)"
  using assms(1)
proof (rule findExport_loop_rule)
  fix pg w r1 w1
  assume run: "ListExports_page fsp ctx j s pg w = Some (r1, w1)"
    and stop: "\<And>resp. r1 = Ok resp \<Longrightarrow> find usable_export (leItems resp) = None \<Longrightarrow> leOpcNextPage resp = None"
  let ?claim = "\<exists>es st. events w1 = events w @ es \<and> fsteps m a n (FPages s adr j pg) es st \<and>
      (\<forall>x k. page_result r1 = Ok x \<and> exsId x = Some k \<longrightarrow> st = FExport s adr j k) \<and>
      (page_result r1 = Err FssErrNotFound \<longrightarrow> st = FNoExport s adr j)"
  from ListExports_page_one(2) [OF run assms(2)] show ?claim
  proof (elim disjE exE conjE)
    fix e res c assume e: "events w1 = events w @ [e]" "evCall e = CallListExports c (Some j) (Some s) pg res"
      "case r1 of Ok resp \<Rightarrow> res = Inr resp | Err err \<Rightarrow> res = Inl err | _ \<Rightarrow> False"
    have pe: "page_event j s pg res e" using e(2) by (auto simp: page_event_def)
    have "\<exists>st. fstep m a n (FPages s adr j pg) e st \<and> (\<forall>x k. page_result r1 = Ok x \<and> exsId x = Some k \<longrightarrow> st = FExport s adr j k) \<and>
      (page_result r1 = Err FssErrNotFound \<longrightarrow> st = FNoExport s adr j)"
    proof (cases r1)
      case (Ok resp)
      then have res: "res = Inr resp" using e(3) by simp
      show ?thesis
      proof (cases "find usable_export (leItems resp)")
        case None
        then have "fstep m a n (FPages s adr j pg) e (FNoExport s adr j)"
          using stop [OF Ok] res by (intro last_page [OF pe]) simp
        then show ?thesis using Ok None by (auto simp: page_result_def)
      next
        case (Some x)
        then show ?thesis
          using no_page [OF pe, of m a n adr] offered [OF pe [unfolded res] Some, of _ m a n adr] Ok
          by (cases "exsId x") (auto simp: page_result_def)
      qed
    next
      case (Err err)
      then show ?thesis
        using e(3) no_page [OF pe, of m a n adr] last_page [OF pe, of m a n adr]
        by (cases "err = FssErrNotFound") (auto simp: page_result_def)
    qed (use e(3) in auto)
    then obtain st where "fsteps m a n (FPages s adr j pg) [e] st" "\<forall>x k. page_result r1 = Ok x \<and> exsId x = Some k \<longrightarrow> st = FExport s adr j k"
      "page_result r1 = Err FssErrNotFound \<longrightarrow> st = FNoExport s adr j" by (blast intro: fsteps_one)
    with e(1) show ?claim by blast
  next
    assume "events w1 = events w" "\<forall>resp. r1 \<noteq> Ok resp" "\<forall>e. r1 \<noteq> Err e"
    then show ?claim using fnil by (cases r1) (fastforce simp: page_result_def)+
  qed
next
  fix pg w resp w1 p r w2
  assume run: "ListExports_page fsp ctx j s pg w = Some (Ok resp, w1)" and none: "find usable_export (leItems resp) = None"
    and next_page: "leOpcNextPage resp = Some p"
    and IH: "\<exists>es st. events w2 = events w1 @ es \<and> fsteps m a n (FPages s adr j (Some p)) es st \<and>
      (\<forall>x k. r = Ok x \<and> exsId x = Some k \<longrightarrow> st = FExport s adr j k) \<and> (r = Err FssErrNotFound \<longrightarrow> st = FNoExport s adr j)"
  from ListExports_page_one(2) [OF run assms(2)] obtain e where e: "events w1 = events w @ [e]" "page_event j s pg (Inr resp) e"
    by (auto simp: page_event_def)
  from IH obtain es st where es: "events w2 = events w1 @ es" "fsteps m a n (FPages s adr j (Some p)) es st"
    "\<forall>x k. r = Ok x \<and> exsId x = Some k \<longrightarrow> st = FExport s adr j k" "r = Err FssErrNotFound \<longrightarrow> st = FNoExport s adr j" by blast
  have "events w2 = events w @ e # es" using e(1) es(1) by simp
  with fcons [OF page [OF e(2) none next_page] es(2)] es(3,4) show "\<exists>es st. events w2 = events w @ es \<and> fsteps m a n (FPages s adr j pg) es st \<and>
      (\<forall>x k. r = Ok x \<and> exsId x = Some k \<longrightarrow> st = FExport s adr j k) \<and> (r = Err FssErrNotFound \<longrightarrow> st = FNoExport s adr j)"
    by blast
qed

lemma getOrCreateExport_fsteps:
  assumes run: "getOrCreateExport fsp ctx j s w = Some (r, w')" and ok: "client_ok (fspClient fsp)"
  shows "\<exists>es st. events w' = events w @ es \<and> fsteps m a n (FPages s adr j None) es st \<and>
    (\<forall>x l p. r = Ok (Some x) \<and> exId x = Some l \<and> exPath x = Some p \<longrightarrow> st = FServed adr j l p)"
  using run unfolding getOrCreateExport_def findExport_def
proof (cases rule: go_try_cases)
  case (ok x w1)
  from findExport_fsteps [OF ok(1) assms(2), of m a n adr] obtain es st where es: "events w1 = events w @ es"
    "fsteps m a n (FPages s adr j None) es st" "\<And>k. exsId x = Some k \<Longrightarrow> st = FExport s adr j k" by blast
  from ok(2) have "go_bind (deref (exsId x)) (awaitExport fsp ctx) w1 = Some (r, w')" by simp
  from deref_await_polls(2) [OF this] show ?thesis
  proof (elim disjE exE conjE)
    fix k polls assume k: "exsId x = Some k" "events w' = events w1 @ polls" "export_polls k polls r"
    from export_polls_fsteps [OF k(3)] obtain st' where "fsteps m a n (FExport s adr j k) polls st'"
      "\<forall>x l p. r = Ok (Some x) \<and> exId x = Some l \<and> exPath x = Some p \<longrightarrow> st' = FServed adr j l p" by metis
    with fsteps_append [OF es(2) [unfolded es(3) [OF k(1)]]] es(1) k(2) show ?thesis by fastforce
  qed (use es in \<open>auto simp: no_value_def\<close>)
next
  case (err e w1)
  from findExport_fsteps [OF err(1) assms(2), of m a n adr] obtain es st where es: "events w1 = events w @ es"
    "fsteps m a n (FPages s adr j None) es st" "e = FssErrNotFound \<Longrightarrow> st = FNoExport s adr j" by blast
  show ?thesis
  proof (cases "e = FssErrNotFound")
    case True
    let ?d = "\<lparr>ceExportSetId = Some s, ceFileSystemId = Some j, cePath = Some (''/'' @ j)\<rparr>"
    note found = fsteps_append [OF es(2) [unfolded es(3) [OF True]]]
    have "go_bind (invoke (CallCreateExport ?d) ctx (CreateExport (pcFSS (fspClient fsp)) ctx ?d)) (\<lambda>r.
        go_bind (of_result r) (\<lambda>x. go_bind (deref (exId x)) (awaitExport fsp ctx))) w1 = Some (r, w')"
      using err(2) True by (simp add: Let_def)
    from create_export_run [OF this] obtain c res where c: "creates_export j s c res"
      "events w' = events w1 @ [c] \<and> no_value r \<or> (\<exists>x k polls. res = Inr x \<and> exId x = Some k \<and>
        events w' = events w1 @ c # polls \<and> export_polls k polls r)" unfolding creates_export_def by blast
    from c(2) show ?thesis
    proof (elim disjE exE conjE)
      assume "events w' = events w1 @ [c]" "no_value r"
      with found [OF fsteps_one [OF export_refused [OF c(1)]]] es(1) show ?thesis by (auto simp: no_value_def)
    next
      fix x k polls assume x: "res = Inr x" "exId x = Some k" "events w' = events w1 @ c # polls" "export_polls k polls r"
      from export_polls_fsteps [OF x(4)] obtain st' where st': "fsteps m a n (FExport s adr j k) polls st'"
        "\<forall>x l p. r = Ok (Some x) \<and> exId x = Some l \<and> exPath x = Some p \<longrightarrow> st' = FServed adr j l p" by metis
      from found [OF fcons [OF export_created [OF c(1) [unfolded x(1)] x(2)] st'(1)]] st'(2) es(1) x(3) show ?thesis by fastforce
    qed
  next
    case False
    with err(2) es show ?thesis by (auto simp: go_simps)
  qed
next
  case (panic q)
  from findExport_fsteps [OF panic(1) assms(2), of m a n adr] panic(2) show ?thesis by blast
next
  case (exit q)
  from findExport_fsteps [OF exit(1) assms(2), of m a n adr] exit(2) show ?thesis by blast
qed

lemma fss_attach_fsteps:
  assumes run: "fss_attach fsp opts pvc ad name mtID target s w = Some (r, w')"
    and ok: "client_ok (fspClient fsp)" and ips: "mtPrivateIpIds target \<noteq> []" and a: "adName ad = Some a"
  shows "\<exists>es st. events w' = events w @ es \<and> fsteps m a name (FAddress s (mtPrivateIpIds target)) es st \<and>
    (\<forall>pv. r = Ok pv \<longrightarrow> (\<exists>adr j l p. st = FServed adr j l p \<and> pv = fss_pv fsp opts pvc adr j l p))"
  using run ok ips
proof (cases rule: fss_attach_cases)
  case (no_address x i res)
  from fsteps_one [OF fstep.no_address [OF no_address(4,5)], of m a name s] no_address(1,3) show ?thesis by (auto simp: no_value_def)
next
  case (no_fs a' x fses r1 ip)
  then have x: "fstep m a name (FAddress s (mtPrivateIpIds target)) x (FListing s ip)"
    by (auto simp: address_event_def intro: addressed)
  from fs_trace_fsteps [OF no_fs(4), of m s ip] obtain st where "fsteps m a name (FListing s ip) fses st" using no_fs(1) a by auto
  from fcons [OF x this] no_fs(2,5) show ?thesis by (auto simp: no_value_def)
next
  case (reached a' x ip fses fs j exs r2 w2)
  then have x: "fstep m a name (FAddress s (mtPrivateIpIds target)) x (FListing s ip)"
    by (auto simp: address_event_def intro: addressed)
  from fs_trace_fsteps [OF reached(5), of m s ip] reached(1,6) a have fses: "fsteps m a name (FListing s ip) fses (FPages s ip j None)"
    by auto
  from getOrCreateExport_fsteps [OF reached(10) ok, of m a name ip] obtain es st where es: "events w' = events w2 @ es"
    "fsteps m a name (FPages s ip j None) es st"
    "\<And>x l p. r2 = Ok (Some x) \<Longrightarrow> exId x = Some l \<Longrightarrow> exPath x = Some p \<Longrightarrow> st = FServed ip j l p" by blast
  have "events w' = events w @ (x # fses) @ es" using es(1) reached(9) by simp
  moreover have "\<exists>adr j l p. st = FServed adr j l p \<and> pv = fss_pv fsp opts pvc adr j l p" if "r = Ok pv" for pv
    using reached(8) [OF that] es(3) unfolding describes_def by blast
  ultimately show ?thesis using fsteps_append [OF fcons [OF x fses] es(2)] by blast
qed (use a in auto)

text \<open>
  C12: \<open>Provision\<close> implements the protocol of a file system volume. The requests of every call, however it ends, are a run of the
  protocol for the mount target that the claim names and the display name of the claim, from its start: nothing is
  created before the mount target was active and gave an address; a file system is created only after a listing showed none of that
  name; its exports are looked for once it was active, page after page, and one is created only after the last page; and nothing is deleted. A call
  that returns a volume has reached the end, and the volume carries the address, the identifiers and the path that the protocol collected.
\<close>

theorem fss_Provision_protocol:
  assumes "fss_Provision fsp opts ad w = Some (r, w')" and "client_ok (fspClient fsp)"
    and "GetPrefix w = Some (Ok p, w)" and "optPVC opts = Some pvc" and "adName ad = Some a"
  shows "\<exists>st. fsteps (getMountTargetID opts) a (p @ pvcUID pvc) FTarget (new_events w w') st \<and>
    (\<forall>pv. r = Ok pv \<longrightarrow> (\<exists>adr fsID exID path. st = FServed adr fsID exID path \<and> pv = fss_pv fsp opts pvc adr fsID exID path))"
  using assms(1,2)
proof (cases rule: fss_Provision_cases)
  case unsent
  then have "new_events w w' = []" by (simp add: new_events_def)
  then show ?thesis using unsent(2) fnil [of "getMountTargetID opts" a "p @ pvcUID pvc" FTarget] by (auto simp: no_value_def)
next
  case (no_target es)
  then have "new_events w w' = es" by (simp add: new_events_def)
  moreover have "fsteps (getMountTargetID opts) a (p @ pvcUID pvc) FTarget es FTarget"
    by (rule fsteps_stay) (use no_target(4) in \<open>auto intro: target_polled\<close>)
  ultimately show ?thesis using no_target(3) by (auto simp: no_value_def)
next
  case (attached pvc' p' pre g target s w1)
  let ?run = "fsteps (getMountTargetID opts) a (p @ pvcUID pvc)"
  have pvc: "pvc' = pvc" "p' = p" using attached(1,9) assms(3,4) by simp_all
  have "?run FTarget pre FTarget" by (rule fsteps_stay) (use attached(10) in \<open>auto intro: target_polled\<close>)
  then have start: "?run FTarget (pre @ [g]) (FAddress s (mtPrivateIpIds target))"
    by (rule fsteps_append [OF _ fsteps_one [OF target_active [OF attached(5,6)]]])
  from fss_attach_fsteps [OF attached(8) [unfolded pvc] assms(2) attached(7) assms(5), of "getMountTargetID opts"]
  obtain es st where es: "events w' = events w1 @ es" "?run (FAddress s (mtPrivateIpIds target)) es st"
    "\<forall>pv. r = Ok pv \<longrightarrow> (\<exists>adr j l p. st = FServed adr j l p \<and> pv = fss_pv fsp opts pvc adr j l p)" by (elim exE conjE) (rule that)
  have "new_events w w' = (pre @ [g]) @ es" using es(1) attached(3) by (simp add: new_events_def)
  then show ?thesis using fsteps_append [OF start es(2)] es(3) by auto
qed

theorem fss_Provision_protocol_witness:
  "\<exists>pv w' adr exID path. fss_Provision (mock_fsp False) mock_claim defaultAD (initial Map.empty) = Some (Ok pv, w') \<and>
    fsteps CreatedMountTargetID ''PHX-AD-1'' ''uid'' FTarget (new_events (initial Map.empty) w') (FServed adr (pvName pv) exID path)"
proof -
  obtain w' where run: "fss_Provision (mock_fsp False) mock_claim defaultAD (initial Map.empty) =
      Some (Ok (fss_pv (mock_fsp False) mock_claim mock_pvc mockPrivateIP mockFileSystemID mockExportID (''/'' @ mockFileSystemID)), w')"
    using mock_fss_run [of False] by blast
  have "adName defaultAD = Some ''PHX-AD-1''" by (simp add: defaultAD_def)
  from fss_Provision_protocol [OF run mock_fsp_client_ok GetPrefix_unset mock_pvc(1) this] run show ?thesis
    by (fastforce simp: mock_mount_target mock_pvc(2) fss_pv_def)
qed

end
