(* ===== verification/Zones.thy ===== *)
theory Zones
  imports Polling "HOL-Library.Word" "HOL-Library.List_Lexorder" "HOL-Library.Char_ord"
begin

text \<open>
  The choice of a zone for a claim that names none: \<open>ChooseZoneForVolume\<close> of
  \<open>k8s.io/kubernetes/pkg/volume/util\<close> (vendored), with the FNV-1 hash of package \<open>hash/fnv\<close>, the
  parser of decimal numbers of package \<open>strconv\<close> and the string sets of \<open>apimachinery\<close>.
\<close>

section \<open>Definitions\<close>

text \<open>
  \<open>sets.String\<close> is a set of strings; \<open>List\<close> gives its elements in ascending (bytewise) order.
\<close>

definition sets_List :: "string set \<Rightarrow> string list" where
  "sets_List s = sorted_list_of_set s"

text \<open>\<open>fnv.New32\<close>: multiply by the prime, then xor the byte, on 32 bits.\<close>

definition fnv_write :: "32 word \<Rightarrow> char \<Rightarrow> 32 word" where
  "fnv_write h c = xor (h * 16777619) (of_char c)"

definition fnv32 :: "string \<Rightarrow> 32 word" where
  "fnv32 s = foldl fnv_write 2166136261 s"

text \<open>\<open>strconv.ParseUint(s, 10, 32)\<close>: digits only, and no more than 32 bits.\<close>

definition ParseUint32 :: "string \<Rightarrow> nat option" where
  "ParseUint32 s =
     (if s = [] then None
      else case digits_value 0 s of None \<Rightarrow> None | Some v \<Rightarrow> if v < 2 ^ 32 then Some v else None)"

definition rand_Uint32 :: "('x clocked_scheme, 32 word) go" where
  "rand_Uint32 s = (case draw s of (n, s') \<Rightarrow> Some (Ok (of_nat n), s'))"

definition stateful_name :: "string \<Rightarrow> string \<times> 32 word" where
  \<comment> \<open>the string to hash and the offset, for a name that is not empty\<close>
  "stateful_name pvcName =
     (case LastIndexByte pvcName (CHR ''-'') of
        None \<Rightarrow> (pvcName, 0)
      | Some lastDash \<Rightarrow>
          (case ParseUint32 (drop (lastDash + 1) pvcName) of
             None \<Rightarrow> (pvcName, 0)
           | Some statefulsetID \<Rightarrow>
               (let hashString = take lastDash pvcName in
                case LastIndexByte hashString (CHR ''-'') of
                  None \<Rightarrow> (hashString, of_nat statefulsetID)
                | Some dash \<Rightarrow> (drop (dash + 1) hashString, of_nat statefulsetID))))"

definition getPVCNameHashAndIndexOffset :: "string \<Rightarrow> ('x clocked_scheme, 32 word \<times> 32 word) go" where
  "getPVCNameHashAndIndexOffset pvcName =
     (if pvcName = [] then go_bind rand_Uint32 (\<lambda>hash. ret (hash, 0))
      else case stateful_name pvcName of (hashString, offset) \<Rightarrow> ret (fnv32 hashString, offset))"

definition ChooseZoneForVolume :: "string set \<Rightarrow> string \<Rightarrow> ('x clocked_scheme, string) go" where
  "ChooseZoneForVolume zones pvcName =
     go_bind (getPVCNameHashAndIndexOffset pvcName) (\<lambda>(hash, offset).
       let zoneSlice = sets_List zones
       in index zoneSlice (unat ((hash + offset) mod of_nat (length zoneSlice))))"

section \<open>Names with a number\<close>

text \<open>The decimal numeral of a number.\<close>

definition digit :: "nat \<Rightarrow> char" where
  "digit n = char_of (48 + n)"

fun decimal :: "nat \<Rightarrow> string" where
  "decimal n = (if n < 10 then [digit n] else decimal (n div 10) @ [digit (n mod 10)])"

declare decimal.simps [simp del]

lemma digit_value_digit: "d < 10 \<Longrightarrow> digit_value (digit d) = Some d"
  by (simp add: digit_value_def digit_def Let_def)

lemma digit_not_dash: "d < 10 \<Longrightarrow> digit d \<noteq> CHR ''-''"
  using digit_value_digit [of d] by (auto simp: digit_value_def)

lemma digits_value_decimal: "digits_value 0 (decimal n) = Some n"
proof (induction n rule: decimal.induct)
  case (1 n)
  then show ?case
    by (subst decimal.simps) (auto simp: digits_value_append digit_value_digit)
qed

lemma decimal_no_dash: "CHR ''-'' \<notin> set (decimal n)"
proof (induction n rule: decimal.induct)
  case (1 n)
  then show ?case
    using digit_not_dash [of n] digit_not_dash [of "n mod 10"] by (subst decimal.simps) auto
qed

lemma decimal_not_Nil: "decimal n \<noteq> []"
  by (subst decimal.simps) simp

lemma ParseUint32_decimal: "ParseUint32 (decimal n) = (if n < 2 ^ 32 then Some n else None)"
  by (simp add: ParseUint32_def digits_value_decimal decimal_not_Nil)

lemma stateful_name_number:
  assumes "n < 2 ^ 32"
  shows "stateful_name (base @ CHR ''-'' # decimal n) =
    (case LastIndexByte base (CHR ''-'') of None \<Rightarrow> base | Some d \<Rightarrow> drop (d + 1) base, of_nat n)"
  using assms decimal_no_dash [of n]
  by (simp add: stateful_name_def LastIndexByte_append ParseUint32_decimal Let_def split: option.split)


section \<open>The chosen zone\<close>

lemma sets_List_set: "finite zones \<Longrightarrow> set (sets_List zones) = zones"
  by (simp add: sets_List_def)

lemma sets_List_length: "finite zones \<Longrightarrow> length (sets_List zones) = card zones"
  by (simp add: sets_List_def)

lemma zone_index:
  assumes "0 < n" and "n < 2 ^ 32"
  shows "unat ((h :: 32 word) mod of_nat n) = unat h mod n"
proof -
  have "unat (of_nat n :: 32 word) = n" using assms(2) by (simp add: unsigned_of_nat take_bit_nat_eq_self)
  then show ?thesis by (simp add: unat_mod)
qed

lemma ChooseZoneForVolume_named:
  assumes "finite zones" and "zones \<noteq> {}" and "card zones < 2 ^ 32" and "name \<noteq> []"
    and "stateful_name name = (s, i)"
  shows "ChooseZoneForVolume zones name w =
    Some (Ok (sets_List zones ! (unat (fnv32 s + i) mod card zones)), w)"
proof -
  have "0 < card zones" using assms(1,2) by (simp add: card_gt_0_iff)
  then show ?thesis
    using assms zone_index [of "card zones" "fnv32 s + i"]
    by (simp add: ChooseZoneForVolume_def getPVCNameHashAndIndexOffset_def go_simps Let_def index_def sets_List_length)
qed

text \<open>
  A zone is always chosen, from the given ones. For a non-empty set of zones the code never indexes
  out of range, whatever the name; for an empty name the choice is random.
\<close>

theorem ChooseZoneForVolume_member:
  assumes "finite zones" and "zones \<noteq> {}" and "card zones < 2 ^ 32"
  shows "\<exists>z w'. ChooseZoneForVolume zones name w = Some (Ok z, w') \<and> z \<in> zones"
proof -
  have pos: "0 < card zones" using assms(1,2) by (simp add: card_gt_0_iff)
  have member: "sets_List zones ! (k mod card zones) \<in> zones" for k
    using pos nth_mem [of "k mod card zones" "sets_List zones"] assms(1)
    by (simp add: sets_List_length sets_List_set)
  show ?thesis
  proof (cases "name = []")
    case True
    obtain k w' where "rand_Uint32 w = Some (Ok k, w')"
      by (simp add: rand_Uint32_def draw_def)
    then have "ChooseZoneForVolume zones name w = Some (Ok (sets_List zones ! (unat k mod card zones)), w')"
      using True pos zone_index [OF pos assms(3), of k] assms(1)
      by (simp add: ChooseZoneForVolume_def getPVCNameHashAndIndexOffset_def go_bind_def go_simps Let_def index_def
          sets_List_length)
    with member show ?thesis by blast
  next
    case False
    obtain s i where "stateful_name name = (s, i)" by fastforce
    from ChooseZoneForVolume_named [OF assms False this] member show ?thesis by blast
  qed
qed

theorem ChooseZoneForVolume_member_witness:
  "\<exists>z w'. ChooseZoneForVolume {''AD-1'', ''AD-2''} ''claim'' \<lparr>clock = 0, choices = (\<lambda>_. 0)\<rparr> = Some (Ok z, w') \<and>
     z \<in> {''AD-1'', ''AD-2''}"
  by (rule ChooseZoneForVolume_member) (simp_all add: card_insert_if)

text \<open>The part of a base name that is hashed: what follows its last dash.\<close>

definition hashed :: "string \<Rightarrow> string" where
  "hashed base = (case LastIndexByte base (CHR ''-'') of None \<Rightarrow> base | Some d \<Rightarrow> drop (d + 1) base)"

definition zones_ok :: "string set \<Rightarrow> bool" where
  "zones_ok zones \<longleftrightarrow> finite zones \<and> zones \<noteq> {} \<and> card zones < 2 ^ 32"

lemma ChooseZoneForVolume_number:
  assumes "zones_ok zones" and "n < 2 ^ 32"
  shows "ChooseZoneForVolume zones (base @ CHR ''-'' # decimal n) w =
    Some (Ok (sets_List zones ! (unat (fnv32 (hashed base) + of_nat n) mod card zones)), w)"
  using assms by (intro ChooseZoneForVolume_named) (auto simp: zones_ok_def stateful_name_number hashed_def)

lemma unat_add_number: "unat (h :: 32 word) + n < 2 ^ 32 \<Longrightarrow> unat (h + of_nat n) = unat h + n"
  by (simp add: unat_word_ariths unsigned_of_nat take_bit_nat_eq_self)

lemma mod_neq: "i < j \<Longrightarrow> j < i + m \<Longrightarrow> (h + i) mod m \<noteq> (h + j) mod (m :: nat)"
proof
  assume ij: "i < j" "j < i + m" and eq: "(h + i) mod m = (h + j) mod m"
  then have "m dvd (h + j) - (h + i)" by (metis mod_eq_dvd_iff_nat add_le_cancel_left less_imp_le)
  with ij show False by (auto dest: dvd_imp_le)
qed

text \<open>
  C24: the volumes of a stateful set spread over the zones. Two members whose numbers differ by less than
  the number of zones get different zones, as long as the sum of hash and number stays within 32 bits.
\<close>

theorem stateful_set_spread:
  assumes "zones_ok zones" and "i < j" and "j < i + card zones" and "unat (fnv32 (hashed base)) + j < 2 ^ 32"
  shows "\<exists>y z. ChooseZoneForVolume zones (base @ CHR ''-'' # decimal i) w = Some (Ok y, w) \<and>
    ChooseZoneForVolume zones (base @ CHR ''-'' # decimal j) w = Some (Ok z, w) \<and> y \<noteq> z"
proof -
  let ?h = "unat (fnv32 (hashed base))" and ?n = "card zones" and ?L = "sets_List zones"
  have fin: "finite zones" and pos: "0 < ?n" using assms(1) by (auto simp: zones_ok_def card_gt_0_iff)
  have "distinct ?L" by (simp add: sets_List_def)
  moreover have "(?h + i) mod ?n < length ?L" "(?h + j) mod ?n < length ?L"
    using pos by (simp_all add: sets_List_length [OF fin])
  ultimately have "?L ! ((?h + i) mod ?n) \<noteq> ?L ! ((?h + j) mod ?n)"
    using mod_neq [OF assms(2,3)] by (simp add: nth_eq_iff_index_eq)
  moreover have "unat (fnv32 (hashed base) + of_nat i) = ?h + i" "unat (fnv32 (hashed base) + of_nat j) = ?h + j"
    using assms(2,4) by (simp_all add: unat_add_number)
  ultimately show ?thesis
    using ChooseZoneForVolume_number [OF assms(1), of i base w] ChooseZoneForVolume_number [OF assms(1), of j base w]
      assms(2,4) by simp
qed

lemma hash_web: "hashed ''data-web'' = ''web''" "fnv32 ''web'' = 1181096325"
  by (simp_all add: hashed_def fnv32_def fnv_write_def)

theorem stateful_set_spread_witness:
  "\<exists>y z. ChooseZoneForVolume {''AD-1'', ''AD-2''} (''data-web'' @ CHR ''-'' # decimal 0) \<lparr>clock = 0, choices = (\<lambda>_. 0)\<rparr> =
      Some (Ok y, \<lparr>clock = 0, choices = (\<lambda>_. 0)\<rparr>) \<and>
    ChooseZoneForVolume {''AD-1'', ''AD-2''} (''data-web'' @ CHR ''-'' # decimal 1) \<lparr>clock = 0, choices = (\<lambda>_. 0)\<rparr> =
      Some (Ok z, \<lparr>clock = 0, choices = (\<lambda>_. 0)\<rparr>) \<and> y \<noteq> z"
proof (rule stateful_set_spread)
  show "unat (fnv32 (hashed ''data-web'')) + 1 < 2 ^ 32" by (simp add: hash_web)
qed (simp_all add: zones_ok_def card_insert_if)

text \<open>
  But not across the wrap-around of the sum. With three zones, the member whose number brings the sum
  to \<open>2 ^ 32 - 1\<close> and the next member get the same zone.
\<close>

theorem stateful_set_wrap:
  assumes "zones_ok zones" and "card zones = 3" and "0 < unat (fnv32 (hashed base))"
    and "i = 2 ^ 32 - 1 - unat (fnv32 (hashed base))"
  shows "\<exists>z. ChooseZoneForVolume zones (base @ CHR ''-'' # decimal i) w = Some (Ok z, w) \<and>
    ChooseZoneForVolume zones (base @ CHR ''-'' # decimal (i + 1)) w = Some (Ok z, w)"
proof -
  let ?h = "fnv32 (hashed base)"
  have "unat ?h < 2 ^ 32" using unsigned_less [of ?h] by simp
  then have i: "i < 2 ^ 32" "i + 1 < 2 ^ 32" "unat ?h + i = 2 ^ 32 - 1" using assms(3,4) by simp_all
  have last: "unat (?h + of_nat i) = 2 ^ 32 - 1" using i(3) by (subst unat_add_number) simp_all
  have "?h + of_nat i = of_nat (unat (?h + of_nat i))" by simp
  then have "?h + of_nat i = of_nat (2 ^ 32 - 1)" unfolding last .
  then have h: "?h + of_nat i = 4294967295" by simp
  have "?h + of_nat (i + 1) = (?h + of_nat i) + 1" by (simp only: of_nat_add of_nat_1 add.assoc)
  also have "\<dots> = 0" unfolding h by simp
  finally have zero: "?h + of_nat (i + 1) = 0" .
  then show ?thesis
    using ChooseZoneForVolume_number [OF assms(1) i(1), of base w] ChooseZoneForVolume_number [OF assms(1) i(2), of base w]
      assms(2) unfolding last zero by simp
qed

theorem stateful_set_wrap_witness:
  "\<exists>z. ChooseZoneForVolume {''AD-1'', ''AD-2'', ''AD-3''} (''data-web'' @ CHR ''-'' # decimal 3113870970) \<lparr>clock = 0, choices = (\<lambda>_. 0)\<rparr> =
      Some (Ok z, \<lparr>clock = 0, choices = (\<lambda>_. 0)\<rparr>) \<and>
    ChooseZoneForVolume {''AD-1'', ''AD-2'', ''AD-3''} (''data-web'' @ CHR ''-'' # decimal (3113870970 + 1)) \<lparr>clock = 0, choices = (\<lambda>_. 0)\<rparr> =
      Some (Ok z, \<lparr>clock = 0, choices = (\<lambda>_. 0)\<rparr>)"
  by (rule stateful_set_wrap) (simp_all add: zones_ok_def card_insert_if hash_web)



end
