(* ===== verification/Core.thy ===== *)
theory Core
  imports Block Fss Zones
begin

text \<open>
  The provisioner that the controller library drives: \<open>pkg/provisioner/core/provisioner.go\<close> and
  \<open>pkg/provisioner/core/utils.go\<close>. It chooses the availability domain, lets its plugin provision the
  volume there, and marks the volume as its own; it deletes only volumes that carry its mark. The
  node lister and the wait for its cache are parameters of the record.
\<close>

section \<open>Definitions\<close>

abbreviation ProvisionerNameDefault :: string where "ProvisionerNameDefault \<equiv> ''oracle.com/oci''"
abbreviation ProvisionerNameBlock :: string where "ProvisionerNameBlock \<equiv> ''oracle.com/oci-block''"
abbreviation ProvisionerNameFss :: string where "ProvisionerNameFss \<equiv> ''oracle.com/oci-fss''"
abbreviation ociProvisionerIdentity :: string where "ociProvisionerIdentity \<equiv> ''ociProvisionerIdentity''"
abbreviation ociAvailabilityDomain :: string where "ociAvailabilityDomain \<equiv> ''ociAvailabilityDomain''"
abbreviation ociCompartment :: string where "ociCompartment \<equiv> ''ociCompartment''"
abbreviation configFilePath :: string where "configFilePath \<equiv> ''/etc/oci/config.yaml''"

record 'c OCIProvisioner =
  opClient :: "'c ProvisionerClient"
  opNodeLister :: "'c world \<Rightarrow> error + Node list" \<comment> \<open>\<open>nodeLister.List(labels.Everything())\<close>, from the cache\<close>
  opCachesSynced :: "('c world, bool) go" \<comment> \<open>\<open>cache.WaitForCacheSync(stopCh, nodeListerSynced)\<close>\<close>
  opPlugin :: "'c ProvisionerPlugin"

fun find_ad :: "string \<Rightarrow> AvailabilityDomain list \<Rightarrow> AvailabilityDomain list \<Rightarrow> ('s, AvailabilityDomain) go" where
  \<comment> \<open>the loop of \<open>findADByName\<close>, on what is left of the items\<close>
  "find_ad name items [] = fail (Errorf ''error looking up availability domain '%s':%v''
     [FmtS name, FmtL (List.map_filter adName items)])"
| "find_ad name items (ad # ads) = go_bind (deref (adName ad)) (\<lambda>n.
     if HasSuffix n name then ret ad else find_ad name items ads)"

definition findADByName ::
  "'c OCIProvisioner \<Rightarrow> ctx \<Rightarrow> string \<Rightarrow> ('c world, AvailabilityDomain) go" where
  "findADByName p ctx name =
     go_bind (pcCompartmentOCID (opClient p)) (\<lambda>compartment.
     go_bind (go_WithTimeout ctx (pcTimeout (opClient p))) (\<lambda>ctx'.
     go_bind (invoke (CallListAvailabilityDomains (Some compartment)) ctx'
       (ListAvailabilityDomains (pcIdentity (opClient p)) ctx' (Some compartment))) (\<lambda>r.
     go_bind (of_result r) (\<lambda>items. find_ad name items items))))"

definition selected_zone :: "PersistentVolumeClaim \<Rightarrow> string option" where
  "selected_zone pvc =
     (case pvcSelector pvc of
        None \<Rightarrow> None
      | Some MatchLabels \<Rightarrow>
          (case MatchLabels kubeLabelZoneFailureDomain of
             Some z \<Rightarrow> Some z
           | None \<Rightarrow> MatchLabels ''oci-availability-domain''))"

definition node_zones :: "Node list \<Rightarrow> string set" where
  "node_zones nodes = set (List.map_filter (\<lambda>node. nodeLabels node kubeLabelZoneFailureDomain) nodes)"

definition automatic_zone :: "'c OCIProvisioner \<Rightarrow> PersistentVolumeClaim \<Rightarrow> ('c world, string) go" where
  "automatic_zone p pvc =
     go_bind (gets (opNodeLister p)) (\<lambda>r.
       case r of
         Inl err \<Rightarrow> fail (Errorf ''failed to list nodes when choosing availability domain: %v'' [FmtE err])
       | Inr nodes \<Rightarrow>
           (let validADs = node_zones nodes in
            if card validADs = 0 then fail (Errorf
              ''failed to choose availability domain; no zone labels (%q) on nodes'' [FmtS kubeLabelZoneFailureDomain])
            else ChooseZoneForVolume validADs (pvcName pvc)))"

definition chooseAvailabilityDomain ::
  "'c OCIProvisioner \<Rightarrow> ctx \<Rightarrow> PersistentVolumeClaim option \<Rightarrow> ('c world, string \<times> AvailabilityDomain) go" where
  "chooseAvailabilityDomain p ctx pvc_ptr =
     go_bind (deref pvc_ptr) (\<lambda>pvc.
     go_bind (case selected_zone pvc of Some z \<Rightarrow> ret z | None \<Rightarrow> automatic_zone p pvc) (\<lambda>name.
     go_bind (findADByName p ctx name) (\<lambda>ad.
     ret (name, ad))))"

definition mapAvailabilityDomainToFailureDomain :: "string \<Rightarrow> string" where
  "mapAvailabilityDomainToFailureDomain AD =
     (let parts = SplitN AD (CHR '':'') 2 in if parts = [] then [] else parts ! (length parts - 1))"

definition mark :: "'c OCIProvisioner \<Rightarrow> string \<Rightarrow> AvailabilityDomain \<Rightarrow> PersistentVolume \<Rightarrow> ('c world, PersistentVolume) go" where
  \<comment> \<open>the assignments to the volume's annotations and labels\<close>
  "mark p ad_name ad pv =
     go_bind (map_put ociProvisionerIdentity ociProvisionerIdentity (pvAnnotations pv)) (\<lambda>a1.
     go_bind (map_put ociAvailabilityDomain ad_name a1) (\<lambda>a2.
     go_bind (pcCompartmentOCID (opClient p)) (\<lambda>compartment.
     go_bind (map_put ociCompartment compartment a2) (\<lambda>a3.
     go_bind (deref (adName ad)) (\<lambda>n.
     go_bind (map_put kubeLabelZoneFailureDomain (mapAvailabilityDomainToFailureDomain n) (pvLabels pv)) (\<lambda>ls.
     ret (pv\<lparr>pvAnnotations := a3, pvLabels := ls\<rparr>)))))))"

definition core_Provision :: "'c OCIProvisioner \<Rightarrow> VolumeOptions \<Rightarrow> ('c world, PersistentVolume) go" where
  "core_Provision p options =
     go_bind (chooseAvailabilityDomain p Background (optPVC options)) (\<lambda>(ad_name, ad).
     go_bind (plProvision (opPlugin p) options ad) (mark p ad_name ad))"

definition core_Delete :: "'c OCIProvisioner \<Rightarrow> PersistentVolume \<Rightarrow> ('c world, unit) go" where
  "core_Delete p volume =
     (case map_get (pvAnnotations volume) ociProvisionerIdentity of
        None \<Rightarrow> fail (Errorf ''identity annotation not found on PV'' [])
      | Some owner \<Rightarrow>
          if owner \<noteq> ociProvisionerIdentity
          then fail (IgnoredError ''identity annotation on PV does not match ours'')
          else plDelete (opPlugin p) volume)"

definition Ready :: "'c OCIProvisioner \<Rightarrow> ('c world, unit) go" where
  "Ready p = go_bind (opCachesSynced p) (\<lambda>synced.
     if \<not> synced then fail (Errorf ''unable to sync caches for OCI Volume Provisioner'' []) else ret ())"

definition core_roundUpSize :: "int64 \<Rightarrow> int64 \<Rightarrow> int64" where
  \<comment> \<open>declared beside the provisioner and not used by it\<close>
  "core_roundUpSize volumeSizeBytes allocationUnitBytes =
     quo64 (wrap64 (wrap64 (volumeSizeBytes + allocationUnitBytes) - 1)) allocationUnitBytes"

lemma core_roundUpSize: "core_roundUpSize = roundUpSize"
  by (intro ext) (simp add: core_roundUpSize_def roundUpSize_def)

section \<open>The availability domain\<close>

lemma find_ad_quiet: "find_ad name items ads w = Some (r, w') \<Longrightarrow> w' = w"
  by (induction ads) (auto simp: go_simps elim!: deref_cases split: if_splits)

text \<open>The first of the listed availability domains whose name ends with the given one.\<close>

definition first_match :: "string \<Rightarrow> AvailabilityDomain list \<Rightarrow> AvailabilityDomain \<Rightarrow> bool" where
  "first_match name items ad \<longleftrightarrow> (\<exists>pre post n. items = pre @ ad # post \<and> adName ad = Some n \<and> HasSuffix n name \<and>
     (\<forall>x \<in> set pre. \<exists>m. adName x = Some m \<and> \<not> HasSuffix m name))"

lemma first_match_Cons:
  "adName a = Some n \<Longrightarrow> first_match name (a # ads) ad \<longleftrightarrow>
     (if HasSuffix n name then ad = a else first_match name ads ad)"
  by (auto simp: first_match_def Cons_eq_append_conv) (metis append_Nil list.set_intros(1) list.set(1) empty_iff
      append_Cons set_ConsD)+

lemma find_ad_Ok: "find_ad name items ads w = Some (Ok ad, w') \<Longrightarrow> first_match name ads ad"
proof (induction ads)
  case (Cons a ads)
  from Cons.prems have "go_bind (deref (adName a)) (\<lambda>n. if HasSuffix n name then ret a else find_ad name items ads) w =
      Some (Ok ad, w')" by simp
  then show ?case
    by (cases rule: deref_cases) (use Cons.IH in \<open>auto simp: first_match_Cons go_simps split: if_splits\<close>)
qed (simp add: go_simps)

lemma find_ad_total [go_total]: "go_total (find_ad name items ads)"
  by (induction ads) (simp_all add: go_total)

lemma findADByName_run:
  assumes "findADByName p ctx name w = Some (r, w')" and "client_ok (opClient p)"
  shows "events w' = events w \<and> (\<forall>ad. r \<noteq> Ok ad) \<or>
    (\<exists>e c res. events w' = events w @ [e] \<and> evCall e = CallListAvailabilityDomains (Some c) res \<and>
      (\<forall>ad. r = Ok ad \<longrightarrow> (\<exists>items. res = Inr items \<and> first_match name items ad)))"
  using assms(1) unfolding findADByName_def
proof (cases rule: go_bind_cases)
  case (ok c w1)
  let ?ctx = "WithTimeout ctx (clock w1) (pcTimeout (opClient p))"
  let ?f = "ListAvailabilityDomains (pcIdentity (opClient p)) ?ctx (Some c)"
  obtain res d cl where api: "?f (clock w1) (cloud w1) = (res, d, cl)" by (metis prod_cases3)
  let ?e = "\<lparr>evAt = clock w1, evCtx = ?ctx, evCall = CallListAvailabilityDomains (Some c) res\<rparr>"
  from ok(2) have run: "go_bind (of_result res) (\<lambda>items. find_ad name items items)
      (sent ?ctx (CallListAvailabilityDomains (Some c) res) d cl w1) = Some (r, w')"
    by (simp add: go_simps go_bind_invoke [of ?f, OF api])
  have "events w' = events w @ [?e]"
    using run client_okD(1) [OF assms(2) ok(1)] by (cases res) (auto simp: go_simps dest: find_ad_quiet)
  moreover have "\<exists>items. res = Inr items \<and> first_match name items ad" if "r = Ok ad" for ad
    using run that by (cases res) (auto simp: go_simps dest: find_ad_Ok)
  ultimately show ?thesis
    by (intro disjI2 exI [of _ ?e] exI [of _ c] exI [of _ res]) simp
qed (auto simp: client_okD(1) [OF assms(2)])

lemma ChooseZone_world:
  fixes w :: "'c world"
  assumes "ChooseZoneForVolume zones name w = Some (r, w')" and "finite zones"
  shows "events w' = events w \<and> environ w' = environ w \<and> clock w' = clock w \<and> (\<forall>z. r = Ok z \<longrightarrow> z \<in> zones)"
proof -
  have mem: "z \<in> zones" if "index (sets_List zones) k v = Some (Ok z, v')" for z k and v v' :: "'c world"
    using that assms(2) nth_mem [of k "sets_List zones"]
    by (auto simp: index_def go_simps sets_List_set split: if_splits)
  have idx: "v' = v" if "index (sets_List zones) k v = Some (r, v')" for k and v v' :: "'c world"
    using that by (auto simp: index_def go_simps split: if_splits)
  show ?thesis
    using assms(1) mem idx
    by (cases "stateful_name name")
      (fastforce simp: ChooseZoneForVolume_def getPVCNameHashAndIndexOffset_def rand_Uint32_def draw_def go_bind_def
        go_simps Let_def split: if_splits)
qed

lemma node_zones_finite [simp]: "finite (node_zones nodes)"
  by (simp add: node_zones_def)

lemma automatic_zone_run:
  assumes "automatic_zone p pvc w = Some (r, w')"
  shows "events w' = events w \<and> environ w' = environ w \<and> clock w' = clock w \<and>
    (\<forall>z. r = Ok z \<longrightarrow> (\<exists>nodes. opNodeLister p w = Inr nodes \<and> z \<in> node_zones nodes))"
proof (cases "opNodeLister p w")
  case (Inr nodes)
  with assms show ?thesis
    by (auto simp: automatic_zone_def go_simps Let_def dest: ChooseZone_world split: if_splits)
qed (use assms in \<open>auto simp: automatic_zone_def go_simps\<close>)

lemma find_ad_frame [go_frame]: "keeps extends (find_ad name items ads)"
  by (rule keepsI) (auto dest: find_ad_quiet simp: ext.refl)

lemma automatic_zone_frame [go_frame]: "keeps extends (automatic_zone p pvc)"
  by (rule keepsI) (drule automatic_zone_run, auto simp: extends_def)

lemma findADByName_frame [go_frame]: "client_ok (opClient p) \<Longrightarrow> keeps extends (findADByName p ctx name)"
  unfolding findADByName_def client_ok_def by (intro ext.keeps_rules go_frame; blast)

lemma chooseAvailabilityDomain_frame [go_frame]:
  "client_ok (opClient p) \<Longrightarrow> keeps extends (chooseAvailabilityDomain p ctx pvc_ptr)"
  unfolding chooseAvailabilityDomain_def by (intro ext.keeps_rules go_frame)

lemma map_put_frame [go_frame]: "keeps extends (map_put k v m)"
  by (cases m) (simp_all add: go_simps ext.keeps_pure)

lemma mark_frame [go_frame]: "client_ok (opClient p) \<Longrightarrow> keeps extends (mark p name ad pv)"
  unfolding mark_def client_ok_def by (intro ext.keeps_rules go_frame; blast)

lemma map_put_quiet: "keeps quiet (map_put k v m)"
  by (cases m) (simp_all add: go_simps qui.keeps_pure)

lemma mark_quiet: "client_ok (opClient p) \<Longrightarrow> keeps quiet (mark p name ad pv)"
  unfolding mark_def client_ok_def by (intro qui.keeps_rules map_put_quiet; blast)

text \<open>Where the name of the zone comes from: the claim's selector, else a label of a node.\<close>

definition zone_source :: "'c OCIProvisioner \<Rightarrow> 'c world \<Rightarrow> PersistentVolumeClaim \<Rightarrow> string \<Rightarrow> bool" where
  "zone_source p w pvc z \<longleftrightarrow>
     (case selected_zone pvc of
        Some s \<Rightarrow> z = s
      | None \<Rightarrow> (\<exists>nodes. opNodeLister p w = Inr nodes \<and> z \<in> node_zones nodes))"

definition zone_lookup :: "string \<Rightarrow> AvailabilityDomain \<Rightarrow> event \<Rightarrow> bool" where
  "zone_lookup name ad e \<longleftrightarrow> (\<exists>c items. evCall e = CallListAvailabilityDomains (Some c) (Inr items) \<and> first_match name items ad)"

lemma chooseAvailabilityDomain_Ok:
  assumes "chooseAvailabilityDomain p ctx claim0 w = Some (Ok (name, ad), w')" and "client_ok (opClient p)"
  shows "\<exists>pvc e. claim0 = Some pvc \<and> zone_source p w pvc name \<and> events w' = events w @ [e] \<and> zone_lookup name ad e"
proof -
  from assms(1) obtain pvc w1 where pvc: "claim0 = Some pvc"
    and z: "(case selected_zone pvc of Some z \<Rightarrow> ret z | None \<Rightarrow> automatic_zone p pvc) w = Some (Ok name, w1)"
    and f: "findADByName p ctx name w1 = Some (Ok ad, w')"
    unfolding chooseAvailabilityDomain_def
    by (cases claim0) (auto simp: go_simps go_bind_eq_Ok)
  have "zone_source p w pvc name \<and> events w1 = events w"
    using z automatic_zone_run [of p pvc w "Ok name" w1]
    by (cases "selected_zone pvc") (auto simp: zone_source_def go_simps)
  with findADByName_run [OF f assms(2)] pvc show ?thesis by (fastforce simp: zone_lookup_def)
qed

lemma mark_Ok:
  assumes "mark p name ad pv0 w = Some (Ok pv, w')"
  shows "\<exists>n a l c. adName ad = Some n \<and> pvAnnotations pv0 = Some a \<and> pvLabels pv0 = Some l \<and>
    pv = pv0\<lparr>pvAnnotations := Some (a(ociProvisionerIdentity \<mapsto> ociProvisionerIdentity, ociAvailabilityDomain \<mapsto> name,
      ociCompartment \<mapsto> c)), pvLabels := Some (l(kubeLabelZoneFailureDomain \<mapsto> mapAvailabilityDomainToFailureDomain n))\<rparr>"
  using assms unfolding mark_def
  by (cases "pvAnnotations pv0"; cases "pvLabels pv0"; cases "adName ad") (auto simp: go_simps go_bind_eq_Ok)

lemma core_Provision_Ok:
  assumes "core_Provision p opts w = Some (Ok pv, w')" and "client_ok (opClient p)"
  obtains name ad pvc e w1 pv0 w2 where "optPVC opts = Some pvc" "zone_source p w pvc name"
    "events w1 = events w @ [e]" "zone_lookup name ad e"
    "plProvision (opPlugin p) opts ad w1 = Some (Ok pv0, w2)" "mark p name ad pv0 w2 = Some (Ok pv, w')"
proof -
  from assms(1) obtain name ad w1 pv0 w2 where
    "chooseAvailabilityDomain p Background (optPVC opts) w = Some (Ok (name, ad), w1)"
    "plProvision (opPlugin p) opts ad w1 = Some (Ok pv0, w2)" "mark p name ad pv0 w2 = Some (Ok pv, w')"
    by (auto simp: core_Provision_def go_bind_eq_Ok)
  then show thesis using chooseAvailabilityDomain_Ok [OF _ assms(2)] that by blast
qed

lemma label_suffix:
  assumes "HasSuffix n z" and "CHR '':'' \<notin> set z"
  shows "HasSuffix (mapAvailabilityDomainToFailureDomain n) z"
proof (cases "cut_at (CHR '':'') n")
  case (Some ab)
  then obtain a b where cut: "cut_at (CHR '':'') n = Some (a, b)" by (cases ab) auto
  then have ab: "n = a @ CHR '':'' # b" by (simp add: cut_at_Some)
  from assms obtain c where c: "n = c @ z" by (auto simp: HasSuffix_iff suffix_def)
  have "suffix z n" "suffix b n" using c ab by (auto simp: suffix_def intro: exI [of _ "a @ [CHR '':'']"])
  then have "suffix z b \<or> suffix b z" by (rule suffix_same_cases)
  moreover have "suffix z b" if "suffix b z"
  proof (rule ccontr)
    assume "\<not> suffix z b"
    with that obtain d where "z = d @ b" "d \<noteq> []" by (auto simp: suffix_def)
    with c ab have "CHR '':'' \<in> set z" by (cases d rule: rev_cases) auto
    with assms(2) show False by simp
  qed
  ultimately have "suffix z b" by blast
  with cut show ?thesis
    by (simp add: mapAvailabilityDomainToFailureDomain_def SplitN_2 HasSuffix_iff Let_def)
next
  case None
  with assms(1) show ?thesis by (simp add: mapAvailabilityDomainToFailureDomain_def SplitN_2 Let_def)
qed

section \<open>What the core relies on of a plugin\<close>

text \<open>A plugin whose annotations are not the ones that the core writes.\<close>

locale managed_plugin = provisioner_plugin +
  assumes keys_free: "keys \<inter> {ociProvisionerIdentity, ociAvailabilityDomain, ociCompartment} = {}"
begin

text \<open>
  A volume that the core provisioned through the plugin carries the core's annotations, and deleting it
  is deleting what the plugin returned, whatever else the core wrote on it.
\<close>

lemma provisioned:
  assumes run: "core_Provision p opts w = Some (Ok pv, w')" and "client_ok (opClient p)"
    and plugin: "opPlugin p = \<lparr>plProvision = provision, plDelete = delete\<rparr>"
  obtains ad w1 pv0 w2 where "provision opts ad w1 = Some (Ok pv0, w2)" "core_Delete p pv = delete pv0"
    "pvName pv = pvName pv0" "extends w w1" "extends w2 w'"
    "\<And>k. k \<in> keys \<Longrightarrow> map_get (pvAnnotations pv) k = map_get (pvAnnotations pv0) k"
proof -
  from core_Provision_Ok [OF run assms(2)] obtain name ad w1 pv0 w2 e where
    p: "plProvision (opPlugin p) opts ad w1 = Some (Ok pv0, w2)" "mark p name ad pv0 w2 = Some (Ok pv, w')"
    and w1: "chooseAvailabilityDomain p Background (optPVC opts) w = Some (Ok (name, ad), w1)"
    using run by (auto simp: core_Provision_def go_bind_eq_Ok)
  from mark_Ok [OF p(2)] obtain n a l c where m: "pvAnnotations pv0 = Some a"
    "pv = pv0\<lparr>pvAnnotations := Some (a(ociProvisionerIdentity \<mapsto> ociProvisionerIdentity, ociAvailabilityDomain \<mapsto> name,
      ociCompartment \<mapsto> c)), pvLabels := Some (l(kubeLabelZoneFailureDomain \<mapsto> mapAvailabilityDomainToFailureDomain n))\<rparr>"
    by blast
  have same: "map_get (pvAnnotations pv) k = map_get (pvAnnotations pv0) k" if "k \<in> keys" for k
    using m keys_free that by auto
  then have "delete pv = delete pv0" by (rule delete_cong)
  then have "core_Delete p pv = delete pv0"
    using m by (simp add: core_Delete_def plugin)
  moreover have "extends w w1"
    by (rule keepsD [OF chooseAvailabilityDomain_frame [OF assms(2)] w1])
  moreover have "extends w2 w'"
    by (rule keepsD [OF mark_frame [OF assms(2)] p(2)])
  ultimately show thesis using that p(1) m(2) plugin same by simp
qed

end

interpretation blm: managed_plugin "block_Provision (b\<lparr>bpClient := client_of p\<rparr>)"
  "block_Delete (b\<lparr>bpClient := client_of p\<rparr>)" "{OCIVolumeID}"
  for b :: "'c blockProvisioner" and p :: "'c provisionerClient"
  by unfold_locales simp

interpretation fim: managed_plugin "fss_Provision (f\<lparr>fspClient := client_of p\<rparr>)"
  "fss_Delete (f\<lparr>fspClient := client_of p\<rparr>)" "{fss_ociVolumeID, ociExportID}"
  for f :: "'c filesystemProvisioner" and p :: "'c provisionerClient"
  by unfold_locales simp

section \<open>Correctness\<close>

definition block_core :: "'c OCIProvisioner \<Rightarrow> 'c provisionerClient \<Rightarrow> 'c blockProvisioner \<Rightarrow> bool" where
  \<comment> \<open>a core provisioner with the block plugin, both on the client \<open>c\<close>\<close>
  "block_core p c b \<longleftrightarrow> opClient p = client_of c \<and>
     opPlugin p = \<lparr>plProvision = block_Provision (b\<lparr>bpClient := client_of c\<rparr>),
       plDelete = block_Delete (b\<lparr>bpClient := client_of c\<rparr>)\<rparr>"

definition fss_core :: "'c OCIProvisioner \<Rightarrow> 'c provisionerClient \<Rightarrow> 'c filesystemProvisioner \<Rightarrow> bool" where
  "fss_core p c f \<longleftrightarrow> opClient p = client_of c \<and>
     opPlugin p = \<lparr>plProvision = fss_Provision (f\<lparr>fspClient := client_of c\<rparr>),
       plDelete = fss_Delete (f\<lparr>fspClient := client_of c\<rparr>)\<rparr>"

text \<open>
  C1: deleting a block volume deletes the volume that provisioning created. The persistent volume that the
  core returned names a volume that one of its requests created; when the core is later asked to delete
  it, in whatever state, it sends exactly one request, to delete that volume.
\<close>

theorem block_round_trip:
  assumes "block_core p c b" and "core_Provision p opts w = Some (Ok pv, w')"
  shows "(\<exists>cr d vol. cr \<in> set (new_events w w') \<and> evCall cr = CallCreateVolume d (Inr vol) \<and> volId vol = Some (pvName pv)) \<and>
    (\<exists>r u' x res. core_Delete p pv u = Some (r, u') \<and> new_events u u' = [x] \<and>
      evCall x = CallDeleteVolume (Some (pvName pv)) res)"
proof -
  let ?b = "b\<lparr>bpClient := client_of c\<rparr>"
  have ok: "client_ok (opClient p)" "client_ok (bpClient ?b)"
    and pl: "opPlugin p = \<lparr>plProvision = block_Provision ?b, plDelete = block_Delete ?b\<rparr>"
    using assms(1) by (simp_all add: block_core_def)
  obtain ad w1 pv0 w2 where run: "block_Provision ?b opts ad w1 = Some (Ok pv0, w2)"
    and del: "core_Delete p pv = block_Delete ?b pv0" and name: "pvName pv = pvName pv0" and ext: "extends w w1" "extends w2 w'"
    using blm.provisioned [OF assms(2) ok(1) pl] by metis
  from block_Provision_available' [OF run ok(2)] obtain cr d vol where
    cr: "cr \<in> set (new_events w1 w2)" "evCall cr = CallCreateVolume d (Inr vol)" "volId vol = Some (pvName pv0)"
    and ann: "map_get (pvAnnotations pv0) OCIVolumeID = Some (pvName pv0)" by blast
  from cr(1) ext keepsD [OF block_Provision_frame [OF ok(2)] run] have "cr \<in> set (new_events w w')"
    by (auto simp: extends_def new_events_def)
  moreover from block_Delete_sends [OF ann] have "\<exists>r u' x res. core_Delete p pv u = Some (r, u') \<and> new_events u u' = [x] \<and>
      evCall x = CallDeleteVolume (Some (pvName pv)) res"
    unfolding del name by blast
  ultimately show ?thesis using cr name by auto
qed

text \<open>
  C2: deleting a file system volume deletes what provisioning found or created. The persistent volume that
  the core returned carries the identifiers of an export and of a file system; if they are not empty,
  then asking the core to delete that volume, in whatever state, deletes first that export and then that
  file system, in the way of \<open>deletes_both\<close>.
\<close>

theorem fss_round_trip:
  assumes "fss_core p c f" and "core_Provision p opts w = Some (Ok pv, w')"
    and "pvName pv \<noteq> []" and "map_get (pvAnnotations pv) ociExportID \<noteq> Some []"
  shows "\<exists>exportID r u'. map_get (pvAnnotations pv) ociExportID = Some exportID \<and>
    core_Delete p pv u = Some (r, u') \<and> deletes_both exportID (pvName pv) (new_events u u') r"
proof -
  let ?f = "f\<lparr>fspClient := client_of c\<rparr>"
  have ok: "client_ok (opClient p)" "client_ok (fspClient ?f)"
    and pl: "opPlugin p = \<lparr>plProvision = fss_Provision ?f, plDelete = fss_Delete ?f\<rparr>"
    using assms(1) by (simp_all add: fss_core_def)
  obtain ad w1 pv0 w2 where run: "fss_Provision ?f opts ad w1 = Some (Ok pv0, w2)"
    and del: "core_Delete p pv = fss_Delete ?f pv0" and name: "pvName pv = pvName pv0"
    and key: "map_get (pvAnnotations pv) ociExportID = map_get (pvAnnotations pv0) ociExportID"
    using fim.provisioned [OF assms(2) ok(1) pl] by (metis insertI1 insertI2)
  from fss_Provision_Ok [OF run ok(2)] obtain pvc ip fsID e path where "pv0 = fss_pv ?f opts pvc ip fsID e path" by blast
  then have ann: "map_get (pvAnnotations pv0) ociExportID = Some e" "map_get0 (pvAnnotations pv0) ociExportID = e"
    "map_get0 (pvAnnotations pv0) fss_ociVolumeID = pvName pv0"
    by (simp_all add: fss_pv_def map_get0_def)
  with assms(3,4) key name have "e \<noteq> []" "pvName pv0 \<noteq> []" by auto
  from fss_Delete_run [OF ann(2) this(1) ann(3) this(2)] show ?thesis
    unfolding del name key ann(1) by blast
qed

text \<open>
  C6: a volume is placed where the claim wants it, and says so. The volume that the core returns was
  provisioned in the first listed availability domain whose name ends with the claim's zone, or, if the
  claim names none, with the zone label of some node; its zone label is the part of that domain's name
  after the colon, and it ends with that zone in turn.
\<close>

theorem core_Provision_placed:
  assumes "block_core p c b \<or> fss_core p c f" and "core_Provision p opts w = Some (Ok pv, w')"
  shows "\<exists>pvc name ad n e l. optPVC opts = Some pvc \<and> zone_source p w pvc name \<and>
    e \<in> set (new_events w w') \<and> zone_lookup name ad e \<and> adName ad = Some n \<and> HasSuffix n name \<and>
    (\<exists>w1 pv0 w2. plProvision (opPlugin p) opts ad w1 = Some (Ok pv0, w2)) \<and>
    map_get (pvAnnotations pv) ociAvailabilityDomain = Some name \<and>
    map_get (pvLabels pv) kubeLabelZoneFailureDomain = Some l \<and> l = mapAvailabilityDomainToFailureDomain n \<and>
    (CHR '':'' \<in> set name \<or> HasSuffix l name)"
proof -
  have ok: "client_ok (opClient p)" and pe: "keeps extends (plProvision (opPlugin p) opts ad)" for ad
    using assms(1) blk.provision_extends fil.provision_extends by (auto simp: block_core_def fss_core_def)
  obtain name ad pvc e w1 pv0 w2 where r: "optPVC opts = Some pvc" "zone_source p w pvc name"
    "events w1 = events w @ [e]" "zone_lookup name ad e"
    "plProvision (opPlugin p) opts ad w1 = Some (Ok pv0, w2)" "mark p name ad pv0 w2 = Some (Ok pv, w')"
    by (rule core_Provision_Ok [OF assms(2) ok])
  have "e \<in> set (new_events w w')"
    using r(3) keepsD [OF pe r(5)] keepsD [OF mark_frame [OF ok] r(6)] by (auto simp: extends_def new_events_def)
  moreover from mark_Ok [OF r(6)] obtain n where n: "adName ad = Some n"
    "map_get (pvAnnotations pv) ociAvailabilityDomain = Some name"
    "map_get (pvLabels pv) kubeLabelZoneFailureDomain = Some (mapAvailabilityDomainToFailureDomain n)" by auto
  moreover from r(4) n(1) have "HasSuffix n name" by (auto simp: zone_lookup_def first_match_def)
  ultimately show ?thesis using r(1,2,4,5) label_suffix by blast
qed

text \<open>
  The core deletes only its own volumes. A volume without its mark is refused, and one with another
  provisioner's mark is refused with the error that tells the controller to ignore it; nothing is sent.
\<close>

theorem core_Delete_foreign:
  "map_get (pvAnnotations pv) ociProvisionerIdentity = Some ociProvisionerIdentity \<and>
     core_Delete p pv w = plDelete (opPlugin p) pv w \<or>
   map_get (pvAnnotations pv) ociProvisionerIdentity = None \<and>
     core_Delete p pv w = Some (Err (Errorf ''identity annotation not found on PV'' []), w) \<or>
   map_get (pvAnnotations pv) ociProvisionerIdentity \<notin> {None, Some ociProvisionerIdentity} \<and>
     core_Delete p pv w = Some (Err (IgnoredError ''identity annotation on PV does not match ours''), w)"
  by (cases "map_get (pvAnnotations pv) ociProvisionerIdentity") (auto simp: core_Delete_def go_simps)

section \<open>Concrete runs\<close>

text \<open>
  The core on the real client (\<open>client_of\<close>), whose services are the mocks of the unit tests, with one
  availability domain listed and one node labelled.
\<close>

definition mock_services :: "unit provisionerClient" where
  "mock_services = \<lparr>cfgSet = True, tenancyID = [], blockStorage = MockBlockStorageClient VolumeLifecycleStateAvailable,
     identity = \<lparr>ListAvailabilityDomains = (\<lambda>ctx c. answers (Inr [defaultAD]))\<rparr>, fileStorage = mock_FSS True,
     virtualNetwork = MockVirtualNetworkClient, timeout = Minute, metadata = None\<rparr>"

definition mock_core :: "unit ProvisionerPlugin \<Rightarrow> unit OCIProvisioner" where
  "mock_core plugin = \<lparr>opClient = client_of mock_services,
     opNodeLister = (\<lambda>_. Inr [\<lparr>nodeLabels = [kubeLabelZoneFailureDomain \<mapsto> ''AD-1'']\<rparr>]),
     opCachesSynced = ret True, opPlugin = plugin\<rparr>"

definition mock_b :: "unit blockProvisioner" where
  "mock_b = (mock_block VolumeLifecycleStateAvailable (NewMock None) Minute)\<lparr>bpClient := client_of mock_services\<rparr>"

definition mock_f :: "unit filesystemProvisioner" where
  "mock_f = (mock_fsp True)\<lparr>fspClient := client_of mock_services\<rparr>"

definition configured :: "unit world" where
  "configured = (initial [''OCI_SHORT_REGION'' \<mapsto> ''phx''])\<lparr>config := zeroConfig\<lparr>cfgCompartmentOCID := ''compartment''\<rparr>\<rparr>"

lemma mock_compartment:
  "cfgCompartmentOCID (config w) = ''compartment'' \<Longrightarrow>
    pcCompartmentOCID (client_of mock_services) w = Some (Ok ''compartment'', w)"
  by (simp add: client_of_def CompartmentOCID_configured mock_services_def)

definition looked_up :: "unit world" where
  "looked_up = sent (WithTimeout Background 0 Minute)
     (CallListAvailabilityDomains (Some ''compartment'') (Inr [defaultAD])) 0 () configured"

lemma looked_up_simps [simp]:
  "config looked_up = zeroConfig\<lparr>cfgCompartmentOCID := ''compartment''\<rparr>"
  "environ looked_up = [''OCI_SHORT_REGION'' \<mapsto> ''phx'']"
  by (simp_all add: looked_up_def configured_def)

lemma mock_zone: "ChooseZoneForVolume {z} ''claim'' w = Some (Ok z, w)"
  by (subst ChooseZoneForVolume_named [where s = "''claim''" and i = 0])
    (simp_all add: stateful_name_def sets_List_def)

lemma mock_choose:
  "chooseAvailabilityDomain (mock_core pl) Background (optPVC (claim modes n an)) configured =
     Some (Ok (''AD-1'', defaultAD), looked_up)"
proof -
  have zone: "automatic_zone (mock_core pl) (the (optPVC (claim modes n an))) configured = Some (Ok ''AD-1'', configured)"
    by (simp add: automatic_zone_def mock_core_def go_simps node_zones_def List.map_filter_def claim_def mock_zone)
  have "findADByName (mock_core pl) Background ''AD-1'' configured = Some (Ok defaultAD, looked_up)"
    by (simp add: findADByName_def mock_core_def go_bind_Ok [of "pcCompartmentOCID _", OF mock_compartment] configured_def
        go_simps looked_up_def)
      (simp add: client_of_def mock_services_def go_simps defaultAD_def HasSuffix_def)
  with zone show ?thesis
    by (simp add: chooseAvailabilityDomain_def go_bind_def claim_def go_simps selected_zone_def)
qed

lemma mock_services_simps [simp]:
  "pcFSS (client_of mock_services) = mock_FSS True" "pcVCN (client_of mock_services) = MockVirtualNetworkClient"
  "pcTimeout (client_of mock_services) = Minute"
  "pcBlockStorage (client_of mock_services) = MockBlockStorageClient VolumeLifecycleStateAvailable"
  by (simp_all add: client_of_def mock_services_def)

lemma mock_f_like: "mock_like True (zeroConfig\<lparr>cfgCompartmentOCID := ''compartment''\<rparr>) ''compartment'' mock_f"
  by (simp add: mock_like_def mock_f_def mock_compartment)

lemma mock_mark:
  assumes "cfgCompartmentOCID (config w) = ''compartment''" and "pvAnnotations pv = Some a" and "pvLabels pv = Some l"
  shows "\<exists>pv'. mark (mock_core pl) name defaultAD pv w = Some (Ok pv', w) \<and> pvName pv' = pvName pv \<and>
    (\<forall>k. k \<notin> {ociProvisionerIdentity, ociAvailabilityDomain, ociCompartment} \<longrightarrow>
      map_get (pvAnnotations pv') k = a k)"
  by (simp add: mark_def mock_core_def go_bind_Ok [of "pcCompartmentOCID _", OF mock_compartment [OF assms(1)]] assms go_simps
      defaultAD_def)

abbreviation mock_fss_core :: "unit OCIProvisioner" where
  "mock_fss_core \<equiv> mock_core \<lparr>plProvision = fss_Provision mock_f, plDelete = fss_Delete mock_f\<rparr>"

abbreviation mock_block_core :: "unit OCIProvisioner" where
  "mock_block_core \<equiv> mock_core \<lparr>plProvision = block_Provision mock_b, plDelete = block_Delete mock_b\<rparr>"

lemma mock_cores:
  "fss_core mock_fss_core mock_services (mock_fsp True)"
  "block_core mock_block_core mock_services (mock_block VolumeLifecycleStateAvailable (NewMock None) Minute)"
  by (simp_all add: fss_core_def block_core_def mock_core_def mock_f_def mock_b_def)

lemma fss_pv_maps:
  "\<exists>a l. pvAnnotations (fss_pv f opts pvc ip fsID e path) = Some a \<and> pvLabels (fss_pv f opts pvc ip fsID e path) = Some l \<and>
    a ociExportID = Some e"
  "pvName (fss_pv f opts pvc ip fsID e path) = fsID"
  by (simp_all add: fss_pv_def)

lemma mock_fss_core_run:
  "\<exists>pv w'. core_Provision mock_fss_core mock_claim configured = Some (Ok pv, w') \<and> pvName pv = mockFileSystemID \<and>
    map_get (pvAnnotations pv) ociExportID = Some mockExportID"
proof -
  let ?pv = "fss_pv mock_f mock_claim mock_pvc mockPrivateIP mockFileSystemID mockExportID (''/'' @ mockFileSystemID)"
  obtain w2 where run: "fss_Provision mock_f mock_claim defaultAD looked_up = Some (Ok ?pv, w2)"
    and cfg: "config w2 = zeroConfig\<lparr>cfgCompartmentOCID := ''compartment''\<rparr>"
    using mock_like_run [OF mock_f_like, of looked_up] by auto
  obtain a l where al: "pvAnnotations ?pv = Some a" "pvLabels ?pv = Some l" "a ociExportID = Some mockExportID"
    using fss_pv_maps(1) by blast
  have "cfgCompartmentOCID (config w2) = ''compartment''" using cfg by simp
  from mock_mark [OF this al(1,2)] obtain pv' where m: "mark mock_fss_core ''AD-1'' defaultAD ?pv w2 = Some (Ok pv', w2)"
    "pvName pv' = pvName ?pv"
    "\<forall>k. k \<notin> {ociProvisionerIdentity, ociAvailabilityDomain, ociCompartment} \<longrightarrow> map_get (pvAnnotations pv') k = a k"
    by blast
  from m(3) al(3) have ex: "map_get (pvAnnotations pv') ociExportID = Some mockExportID" by simp
  from run m(1) have "core_Provision mock_fss_core mock_claim configured = Some (Ok pv', w2)"
    by (simp add: core_Provision_def go_bind_Ok [of "chooseAvailabilityDomain _ _ _", OF mock_choose])
      (simp add: mock_core_def go_bind_def)
  with m(2) ex fss_pv_maps(2) show ?thesis by metis
qed

theorem fss_round_trip_witness:
  "\<exists>pv w' r u'. core_Provision mock_fss_core mock_claim configured = Some (Ok pv, w') \<and>
    core_Delete mock_fss_core pv configured = Some (r, u') \<and>
    deletes_both mockExportID mockFileSystemID (new_events configured u') r"
proof -
  obtain pv w' where run: "core_Provision mock_fss_core mock_claim configured = Some (Ok pv, w')"
    and pv: "pvName pv = mockFileSystemID" "map_get (pvAnnotations pv) ociExportID = Some mockExportID"
    using mock_fss_core_run by blast
  then have "pvName pv \<noteq> []" "map_get (pvAnnotations pv) ociExportID \<noteq> Some []" by simp_all
  from fss_round_trip [OF mock_cores(1) run this, of configured] run pv show ?thesis by auto
qed

theorem core_Provision_placed_witness:
  "\<exists>pv w' e ad. core_Provision mock_fss_core mock_claim configured = Some (Ok pv, w') \<and>
    e \<in> set (new_events configured w') \<and> zone_lookup ''AD-1'' ad e"
proof -
  obtain pv w' where run: "core_Provision mock_fss_core mock_claim configured = Some (Ok pv, w')"
    using mock_fss_core_run by blast
  from core_Provision_placed [OF disjI2 [OF mock_cores(1)] run] obtain pvc name ad e where
    e: "optPVC mock_claim = Some pvc" "zone_source mock_fss_core configured pvc name"
    "e \<in> set (new_events configured w')" "zone_lookup name ad e"
    by blast
  have "name = ''AD-1''"
    using e(1,2) by (auto simp: zone_source_def claim_def selected_zone_def mock_core_def node_zones_def List.map_filter_def)
  with run e show ?thesis by blast
qed


lemma block_create_cong:
  assumes "pcBlockStorage (bpClient b) = pcBlockStorage (bpClient b')" and "pcTimeout (bpClient b) = pcTimeout (bpClient b')"
    and "bpTimeout b = bpTimeout b'"
  shows "block_create b d = block_create b' d"
proof -
  have "volume_condition b = volume_condition b'"
    by (intro ext) (simp add: volume_condition_def isVolumeReady_def assms)
  then show ?thesis unfolding block_create_def waitForVolumeAvailable_def assms by (rule ssubst) (rule refl)
qed

lemma mock_block_core_run:
  "\<exists>pv w'. core_Provision mock_block_core (claim [ReadWriteOnce] 20 Map.empty) configured = Some (Ok pv, w') \<and>
    pvName pv = VolumeBackupID"
proof -
  let ?opts = "claim [ReadWriteOnce] 20 Map.empty"
  let ?pvc = "the (optPVC ?opts)"
  let ?d = "volumeDetails ?pvc defaultAD ''compartment'' [] 51200"
  let ?pv = "block_pv ?opts ?pvc ''PHX-AD-1'' (GiB 50) VolumeBackupID ''phx''"
  have b: "bpVolumeRoundingEnabled mock_b" "bpMinVolumeSize mock_b = GiB 50" "bpClient mock_b = client_of mock_services"
    by (simp_all add: mock_b_def mock_block_def)
  have size: "block_sizing mock_b Map.empty (GiB 20) = (51200, GiB 50)"
    by (simp add: block_sizing_def b(1,2) GiB_def volumeRoundingEnabled_def Quantity_Cmp_def roundUpSize_div)
      (simp add: NewQuantity_def Amount_Cmp_def int_cmp_def)
  have "block_create mock_b ?d = block_create (mock_block VolumeLifecycleStateAvailable (NewMock None) Minute) ?d"
    by (rule block_create_cong) (simp_all add: mock_b_def)
  with mock_create_available [of "NewMock None" Minute ?d looked_up] obtain w2 where
    cr: "block_create mock_b ?d looked_up = Some (Ok VolumeBackupID, w2)" and w2: "environ w2 = environ looked_up"
    "config w2 = config looked_up" by auto
  have reg: "block_region mock_b w2 = Some (Ok ''phx'', w2)"
    using w2(1) by (simp add: block_region_def go_simps)
  have comp: "pcCompartmentOCID (bpClient mock_b) looked_up = Some (Ok ''compartment'', looked_up)"
    by (simp add: b(3) mock_compartment)
  have pfx: "GetPrefix looked_up = Some (Ok [], looked_up)" by (rule GetPrefix_unset) simp
  have run: "block_Provision mock_b ?opts defaultAD looked_up = Some (Ok ?pv, w2)"
    by (simp add: block_Provision_accepted [OF claim_accepts mock_details(2)] mock_details(1) size go_simps
        go_bind_Ok [of "pcCompartmentOCID _", OF comp] go_bind_Ok [of GetPrefix, OF pfx]
        go_bind_Ok [of "block_create _ _", OF cr] go_bind_Ok [of "block_region _", OF reg])
  obtain a l where al: "pvAnnotations ?pv = Some a" "pvLabels ?pv = Some l" "pvName ?pv = VolumeBackupID"
    by (simp add: block_pv_def)
  have "cfgCompartmentOCID (config w2) = ''compartment''" using w2(2) by simp
  from mock_mark [OF this al(1,2)] obtain pv' where m: "mark mock_block_core ''AD-1'' defaultAD ?pv w2 = Some (Ok pv', w2)"
    "pvName pv' = pvName ?pv" by blast
  from run m(1) have "core_Provision mock_block_core ?opts configured = Some (Ok pv', w2)"
    by (simp add: core_Provision_def go_bind_Ok [of "chooseAvailabilityDomain _ _ _", OF mock_choose])
      (simp add: mock_core_def go_bind_def)
  with m(2) al(3) show ?thesis by metis
qed

theorem block_round_trip_witness:
  "\<exists>pv w' r u' x res. core_Provision mock_block_core (claim [ReadWriteOnce] 20 Map.empty) configured = Some (Ok pv, w') \<and>
    core_Delete mock_block_core pv configured = Some (r, u') \<and> new_events configured u' = [x] \<and>
    evCall x = CallDeleteVolume (Some VolumeBackupID) res"
proof -
  obtain pv w' where run: "core_Provision mock_block_core (claim [ReadWriteOnce] 20 Map.empty) configured = Some (Ok pv, w')"
    "pvName pv = VolumeBackupID"
    using mock_block_core_run by blast
  from block_round_trip [OF mock_cores(2) run(1), of configured] run show ?thesis by auto
qed

end
