(* ===== verification/Retries.thy ===== *)
theory Retries
  imports Core
begin

text \<open>
  Provisioning again. The provision controller calls \<open>Provision\<close> until it succeeds, across failures and restarts of
  the process, so that a call must find what an earlier one has left. For file systems it does: in any
  sequence of calls of the core with the file system plugin, at most one file system of a name is
  ever created in an availability domain.
\<close>

section \<open>A service that counts\<close>

text \<open>
  \<open>count k c\<close> is the number of file systems with the compartment, availability domain and name \<open>k\<close> in the
  state \<open>c\<close> of the cloud. The contract of the services says how it changes: a creation adds at most the file system that it
  describes, whatever it answers, and nothing else adds one; an empty listing means that there is none.
\<close>

type_synonym fs_key = "string \<times> string \<times> string"

type_synonym 'c fs_count = "fs_key \<Rightarrow> 'c \<Rightarrow> nat"

definition adds_none :: "'c fs_count \<Rightarrow> ('c, 'r) api \<Rightarrow> bool" where
  "adds_none count f \<longleftrightarrow> (\<forall>t c r d c' k. f t c = (r, d, c') \<longrightarrow> count k c' \<le> count k c)"

definition fs_details :: "fs_key \<Rightarrow> CreateFileSystemDetails" where
  "fs_details k = (case k of (cid, ad, name) \<Rightarrow>
     \<lparr>cfsCompartmentId = Some cid, cfsAvailabilityDomain = Some ad, cfsDisplayName = Some name\<rparr>)"

definition counted_service :: "'c fs_count \<Rightarrow> 'c FSS \<Rightarrow> 'c VCN \<Rightarrow> 'c Identity \<Rightarrow> bool" where
  "counted_service count fss vcn ident \<longleftrightarrow>
     (\<forall>ctx details t c r d c' k. CreateFileSystem fss ctx details t c = (r, d, c') \<longrightarrow>
        count k c' \<le> count k c + (if details = fs_details k then 1 else 0)) \<and>
     (\<forall>ctx cid ad name t c r d c'. ListFileSystems fss ctx (Some cid) (Some ad) (Some name) t c = (r, d, c') \<longrightarrow>
        (r = Inr [] \<longrightarrow> count (cid, ad, name) c' = 0) \<and> r \<noteq> Inl FssErrNotFound) \<and>
     (\<forall>ctx a b n. adds_none count (ListFileSystems fss ctx a b n)) \<and> (\<forall>ctx i. adds_none count (GetFileSystem fss ctx i)) \<and>
     (\<forall>ctx i. adds_none count (DeleteFileSystem fss ctx i)) \<and> (\<forall>ctx d. adds_none count (CreateExport fss ctx d)) \<and>
     (\<forall>ctx a b e n. adds_none count (ListExports fss ctx a b e n)) \<and> (\<forall>ctx i. adds_none count (GetExport fss ctx i)) \<and>
     (\<forall>ctx i. adds_none count (DeleteExport fss ctx i)) \<and> (\<forall>ctx i. adds_none count (GetMountTarget fss ctx i)) \<and>
     (\<forall>ctx i. adds_none count (GetPrivateIp vcn ctx i)) \<and> (\<forall>ctx a. adds_none count (ListAvailabilityDomains ident ctx a))"

text \<open>What every step keeps.\<close>

definition no_twins :: "'c fs_count \<Rightarrow> 'c world \<Rightarrow> 'c world \<Rightarrow> bool" where
  "no_twins count w w' \<longleftrightarrow> (\<forall>k. count k (cloud w) \<le> 1 \<longrightarrow> count k (cloud w') \<le> 1)"

interpretation twins: frame "no_twins count" for count :: "'c fs_count"
  by unfold_locales (auto simp: no_twins_def)

lemma twins_same_cloud: "cloud w' = cloud w \<Longrightarrow> no_twins count w w'"
  by (simp add: no_twins_def)

lemma twins_quiet: "keeps quiet m \<Longrightarrow> keeps (no_twins count) m"
  by (rule keepsI) (drule (1) keepsD, simp add: quiet_def twins_same_cloud)

lemma twins_invoke: "adds_none count f \<Longrightarrow> keeps (no_twins count) (invoke mk ctx f)"
  by (rule keepsI) (fastforce simp: invoke_def adds_none_def no_twins_def split: prod.splits intro: order_trans)

lemma twins_poll:
  assumes "0 < interval" and "\<And>v. keeps (no_twins count) (fn v)"
  shows "keeps (no_twins count) (PollImmediate interval tmo fn v)"
  by (rule keeps_PollImmediate [OF twins.frame_axioms _ assms]) (auto simp: runtime_step_def intro: twins_same_cloud)

lemma twins_rand: "keeps (no_twins count) rand_Int"
  by (rule keepsI) (auto simp: rand_Int_def draw_def intro: twins_same_cloud)

lemma twins_invokes:
  assumes "counted_service count fss vcn ident"
  shows "keeps (no_twins count) (invoke mk1 ctx (ListFileSystems fss ctx a b n))" "keeps (no_twins count) (invoke mk2 ctx (GetFileSystem fss ctx i))"
    "keeps (no_twins count) (invoke mk3 ctx (DeleteFileSystem fss ctx i))" "keeps (no_twins count) (invoke mk4 ctx (CreateExport fss ctx det))"
    "keeps (no_twins count) (invoke mk5 ctx (ListExports fss ctx a b e n))" "keeps (no_twins count) (invoke mk6 ctx (GetExport fss ctx i))"
    "keeps (no_twins count) (invoke mk7 ctx (DeleteExport fss ctx i))" "keeps (no_twins count) (invoke mk8 ctx (GetMountTarget fss ctx i))"
    "keeps (no_twins count) (invoke mk9 ctx (GetPrivateIp vcn ctx i))" "keeps (no_twins count) (invoke mk10 ctx (ListAvailabilityDomains ident ctx a))"
  using assms by (simp_all add: counted_service_def twins_invoke)

section \<open>The file system\<close>

text \<open>What a client says about its compartment once, it says again with the same configuration.\<close>

definition stable_client :: "'c ProvisionerClient \<Rightarrow> bool" where
  "stable_client c \<longleftrightarrow> client_ok c \<and>
     (\<forall>w x w' u r u'. pcCompartmentOCID c w = Some (Ok x, w') \<longrightarrow> config u = config w' \<longrightarrow>
        pcCompartmentOCID c u = Some (r, u') \<longrightarrow> r = Ok x)"

lemma CompartmentOCID_stable:
  "CompartmentOCID p w = Some (Ok x, w') \<Longrightarrow> config u = config w' \<Longrightarrow> CompartmentOCID p u = Some (r, u') \<Longrightarrow> r = Ok x"
  by (auto simp: CompartmentOCID_def go_simps split: option.splits if_splits)

lemma client_of_stable [simp]: "stable_client (client_of p)"
proof -
  have "pcCompartmentOCID (client_of p) = CompartmentOCID p" by (simp add: client_of_def)
  then show ?thesis unfolding stable_client_def by (auto dest: CompartmentOCID_stable)
qed

lemma stable_client_ok: "stable_client c \<Longrightarrow> client_ok c" "stable_client c \<Longrightarrow> keeps quiet (pcCompartmentOCID c)"
  by (simp_all add: stable_client_def client_ok_def)

lemma twins_getFileSystem:
  assumes "counted_service count (pcFSS (fspClient fsp)) vcn ident" and "stable_client (fspClient fsp)"
    and "getFileSystemByDisplayName fsp ctx ad name w = Some (r, w')"
  shows "no_twins count w w' \<and> (r = Err FssErrNotFound \<longrightarrow>
    (\<forall>x u. pcCompartmentOCID (fspClient fsp) w' = Some (x, u) \<longrightarrow> (\<exists>cid. x = Ok cid \<and> count (cid, ad, name) (cloud u) = 0)))"
proof -
  let ?c = "pcCompartmentOCID (fspClient fsp)"
  note quiet = twins_quiet [OF stable_client_ok(2) [OF assms(2)], of count]
  from assms(3) show ?thesis
    unfolding getFileSystemByDisplayName_def
  proof (cases rule: go_bind_cases)
    case (ok cid w1)
    let ?f = "ListFileSystems (pcFSS (fspClient fsp)) ctx (Some cid) (Some ad) (Some name)"
    obtain res d cl where api: "?f (clock w1) (cloud w1) = (res, d, cl)" by (metis prod_cases3)
    have w': "w' = sent ctx (CallListFileSystems (Some cid) (Some ad) (Some name) res) d cl w1"
      and r: "r = Err FssErrNotFound \<Longrightarrow> res = Inr [] \<or> res = Inl FssErrNotFound"
      using ok(2) by (cases res; auto simp: go_bind_invoke [of ?f, OF api] go_simps split: list.splits)+
    have none: "(res = Inr [] \<longrightarrow> count (cid, ad, name) cl = 0) \<and> res \<noteq> Inl FssErrNotFound"
      using assms(1) [unfolded counted_service_def, THEN conjunct2, THEN conjunct1, rule_format, OF api] by simp
    have "invoke (CallListFileSystems (Some cid) (Some ad) (Some name)) ctx ?f w1 = Some (Ok res, w')"
      by (simp add: invoke_def w' api)
    from keepsD [OF twins_invokes(1) [OF assms(1)] this] have "no_twins count w1 w'" .
    then have "no_twins count w w'" using twins.trans keepsD [OF quiet ok(1)] by blast
    moreover have "\<exists>cid. x = Ok cid \<and> count (cid, ad, name) (cloud u) = 0"
      if "r = Err FssErrNotFound" "?c w' = Some (x, u)" for x u
    proof -
      have "config w' = config w1" by (simp add: w')
      then have "x = Ok cid" using assms(2) [unfolded stable_client_def] ok(1) that(2) by blast
      moreover have "cloud u = cl" using client_okD(2) [OF stable_client_ok(1) [OF assms(2)] that(2)] w' by simp
      ultimately show ?thesis using r [OF that(1)] none by auto
    qed
    ultimately show ?thesis by blast
  next
    case (err e)
    then show ?thesis using client_ok_no_error [OF stable_client_ok(1) [OF assms(2)]] by blast
  qed (use keepsD [OF quiet] in blast)+
qed

lemma twins_conditions:
  assumes "counted_service count (pcFSS (fspClient fsp)) vcn ident"
  shows "keeps (no_twins count) (awaitFileSystem fsp ctx ocid)" "keeps (no_twins count) (awaitMountTarget fsp ctx ocid)"
    "keeps (no_twins count) (awaitExport fsp ctx ocid)"
proof -
  note invokes = twins_invokes [OF assms]
  have "keeps (no_twins count) (fileSystem_condition fsp ctx ocid v)" for v
    unfolding fileSystem_condition_def Let_def by (intro twins.keeps_rules invokes)
  moreover have "keeps (no_twins count) (mountTarget_condition fsp ctx ocid v)" for v
    unfolding mountTarget_condition_def Let_def by (intro twins.keeps_rules invokes)
  moreover have "keeps (no_twins count) (export_condition fsp ctx ocid v)" for v
    unfolding export_condition_def Let_def by (intro twins.keeps_rules invokes)
  ultimately show "keeps (no_twins count) (awaitFileSystem fsp ctx ocid)" "keeps (no_twins count) (awaitMountTarget fsp ctx ocid)"
    "keeps (no_twins count) (awaitExport fsp ctx ocid)"
    unfolding awaitFileSystem_def awaitMountTarget_def awaitExport_def by (blast intro: twins_poll default_interval(1))+
qed

lemma twins_create:
  assumes "counted_service count fss vcn ident" and "count k (cloud w) = 0"
    and "invoke mk ctx (CreateFileSystem fss ctx (fs_details k)) w = Some (r, w')"
  shows "no_twins count w w'"
proof -
  obtain res d cl where api: "CreateFileSystem fss ctx (fs_details k) (clock w) (cloud w) = (res, d, cl)" by (metis prod_cases3)
  have bound: "count k' cl \<le> count k' (cloud w) + (if fs_details k = fs_details k' then 1 else 0)" for k'
    using assms(1) [unfolded counted_service_def, THEN conjunct1, rule_format, OF api, of k'] by simp
  have same: "fs_details k = fs_details k' \<Longrightarrow> k' = k" for k'
    by (cases k; cases k') (simp add: fs_details_def)
  have w': "cloud w' = cl" using assms(3) api by (auto simp: invoke_def)
  show ?thesis
    unfolding no_twins_def w'
  proof (intro allI impI)
    fix k' assume "count k' (cloud w) \<le> 1"
    then show "count k' cl \<le> 1" using bound [of k'] same [of k'] assms(2) by (cases "k' = k") (auto split: if_splits)
  qed
qed

lemma twins_getOrCreate:
  assumes "counted_service count (pcFSS (fspClient fsp)) vcn ident" and "stable_client (fspClient fsp)"
  shows "keeps (no_twins count) (getOrCreateFileSystem fsp ctx ad name)"
proof (rule keepsI)
  fix w r w' assume "getOrCreateFileSystem fsp ctx ad name w = Some (r, w')"
  note quiet = twins_quiet [OF stable_client_ok(2) [OF assms(2)], of count]
  note awaits = twins_conditions [OF assms(1)]
  from \<open>getOrCreateFileSystem fsp ctx ad name w = Some (r, w')\<close> show "no_twins count w w'"
    unfolding getOrCreateFileSystem_def
  proof (cases rule: go_try_cases)
    case (ok fs w1)
    have "keeps (no_twins count) (go_bind (deref (fssumId fs)) (awaitFileSystem fsp ctx))"
      by (intro twins.keeps_rules awaits)
    from keepsD [OF this] ok(2) twins_getFileSystem [OF assms ok(1)] show ?thesis by (auto intro: twins.trans)
  next
    case (err e w1)
    note found = twins_getFileSystem [OF assms err(1)]
    show ?thesis
    proof (cases "e = FssErrNotFound")
      case False
      then show ?thesis using err(2) found by (simp add: go_simps)
    next
      case True
      with err(2) have "go_bind (pcCompartmentOCID (fspClient fsp)) (\<lambda>compartment.
          go_bind (invoke (CallCreateFileSystem (fs_details (compartment, ad, name))) ctx
            (CreateFileSystem (pcFSS (fspClient fsp)) ctx (fs_details (compartment, ad, name)))) (\<lambda>r.
          go_bind (of_result r) (\<lambda>fs.
          go_bind (deref (fsId fs)) (awaitFileSystem fsp ctx)))) w1 = Some (r, w')"
        by (simp add: fs_details_def Let_def)
      then have "no_twins count w1 w'"
      proof (cases rule: go_bind_cases)
        case (ok cid w2)
        from found True ok(1) have "count (cid, ad, name) (cloud w2) = 0" by auto
        note create = twins_create [OF assms(1) this]
        have "keeps (no_twins count) (go_bind (of_result x) (\<lambda>fs. go_bind (deref (fsId fs)) (awaitFileSystem fsp ctx)))" for x
          by (intro twins.keeps_rules awaits)
        note rest = keepsD [OF this]
        from ok(2) have "no_twins count w2 w'"
          by (cases rule: go_bind_cases) (blast intro: create rest twins.trans)+
        then show ?thesis using keepsD [OF quiet ok(1)] twins.trans by blast
      qed (use keepsD [OF quiet] in blast)+
      then show ?thesis using found twins.trans by blast
    qed
  qed (use twins_getFileSystem [OF assms] in blast)+
qed

section \<open>The plugin and the core\<close>

lemma twins_findExport:
  assumes "counted_service count (pcFSS (fspClient fsp)) vcn ident" and "stable_client (fspClient fsp)"
  shows "keeps (no_twins count) (findExport fsp ctx fsID exportSetID)"
proof (rule keepsI)
  fix w r w' assume run: "findExport fsp ctx fsID exportSetID w = Some (r, w')"
  have page: "keeps (no_twins count) (ListExports_page fsp ctx fsID exportSetID pg)" for pg
    unfolding ListExports_page_def
    by (intro twins.keeps_rules twins_invokes [OF assms(1)] twins_quiet stable_client_ok(2) [OF assms(2)])
  let ?P = "\<lambda>fsp' ctx' f s (page :: string option) w y. fsp' = fsp \<and> ctx' = ctx \<and> f = fsID \<and> s = exportSetID \<longrightarrow>
    no_twins count w (snd y)"
  have "?P fsp ctx fsID exportSetID None w (r, w')"
    by (rule findExport_loop.raw_induct [where P = ?P, OF _ run [unfolded findExport_def]])
      (auto split: option.splits prod.splits outcome.splits dest!: keepsD [OF page] intro: twins.trans)
  then show "no_twins count w w'" by simp
qed

lemma twins_fss:
  assumes "counted_service count (pcFSS (fspClient fsp)) (pcVCN (fspClient fsp)) ident" and "stable_client (fspClient fsp)"
  shows "keeps (no_twins count) (fss_Provision fsp opts ad)" and "keeps (no_twins count) (fss_Delete fsp pv)"
proof -
  note invokes = twins_invokes [OF assms(1)] and awaits = twins_conditions [OF assms(1)]
  have ip: "keeps (no_twins count) (mount_ip fsp ctx mtID target)" for ctx mtID target
    unfolding mount_ip_def by (intro twins.keeps_rules twins_rand invokes)
  have export: "keeps (no_twins count) (getOrCreateExport fsp ctx fsID exportSetID)" for ctx fsID exportSetID
    unfolding getOrCreateExport_def Let_def by (intro twins.keeps_rules invokes awaits twins_findExport [OF assms])
  show "keeps (no_twins count) (fss_Provision fsp opts ad)"
    unfolding fss_Provision_def fss_attach_def Let_def
    by (intro twins.keeps_rules twins_quiet [OF GetPrefix_frame(2)] awaits ip export twins_getOrCreate [OF assms])
  show "keeps (no_twins count) (fss_Delete fsp pv)"
    unfolding fss_Delete_def ignore_not_found_def Let_def by (intro twins.keeps_rules invokes)
qed

lemma automatic_zone_cloud: "automatic_zone p pvc w = Some (r, w') \<Longrightarrow> cloud w' = cloud w"
  by (auto simp: automatic_zone_def ChooseZoneForVolume_def getPVCNameHashAndIndexOffset_def rand_Uint32_def draw_def go_simps
      go_bind_def index_def Let_def split: sum.splits if_splits prod.splits)

lemma twins_core:
  assumes "counted_service count (fileStorage c) (virtualNetwork c) (identity c)" and "fss_core p c f"
  shows "keeps (no_twins count) (core_Provision p opts)" and "keeps (no_twins count) (core_Delete p pv)"
proof -
  let ?f = "f\<lparr>fspClient := client_of c\<rparr>"
  have client: "opClient p = client_of c" and plugin: "opPlugin p = \<lparr>plProvision = fss_Provision ?f, plDelete = fss_Delete ?f\<rparr>"
    using assms(2) by (simp_all add: fss_core_def)
  have service: "counted_service count (pcFSS (fspClient ?f)) (pcVCN (fspClient ?f)) (pcIdentity (opClient p))"
    using assms(1) by (simp add: client client_of_def)
  have stable: "stable_client (fspClient ?f)" "stable_client (opClient p)" by (simp_all add: client)
  note quiet = twins_quiet [OF stable_client_ok(2) [OF stable(2)], of count]
  have ad: "keeps (no_twins count) (find_ad name items ads)" for name items ads
    by (rule keepsI) (auto dest: find_ad_quiet intro: twins.refl)
  have zone: "keeps (no_twins count) (automatic_zone p pvc)" for pvc
    by (rule keepsI) (auto dest: automatic_zone_cloud intro: twins_same_cloud)
  have lookup: "keeps (no_twins count) (findADByName p ctx name)" for ctx name
    unfolding findADByName_def by (intro twins.keeps_rules quiet twins_quiet [OF frame_env(6)] twins_invokes [OF service] ad)
  have choose: "keeps (no_twins count) (chooseAvailabilityDomain p ctx pvc)" for ctx pvc
    unfolding chooseAvailabilityDomain_def by (intro twins.keeps_rules zone lookup)
  have put: "keeps (no_twins count) (map_put k v m)" for k v and m :: "strmap option"
    by (cases m) (simp_all add: go_simps twins.keeps_pure)
  have mark: "keeps (no_twins count) (mark p name ad' pv')" for name ad' pv'
    unfolding mark_def by (intro twins.keeps_rules put quiet)
  show "keeps (no_twins count) (core_Provision p opts)"
    unfolding core_Provision_def plugin ProvisionerPlugin.select_convs
    by (intro twins.keeps_rules choose twins_fss(1) [OF service stable(1)] mark)
  show "keeps (no_twins count) (core_Delete p pv)"
    unfolding core_Delete_def plugin ProvisionerPlugin.select_convs
    by (intro twins.keeps_rules twins_fss(2) [OF service stable(1)])
qed

section \<open>Any number of calls\<close>

text \<open>
  A history of the program: calls of \<open>Provision\<close> and \<open>Delete\<close>, by any core with the file system plugin on counted
  services, and between them anything that adds no file system: time passes, the process is
  restarted with another configuration, somebody deletes a file system.
\<close>

inductive history :: "'c fs_count \<Rightarrow> 'c world \<Rightarrow> 'c world \<Rightarrow> bool" for count where
  start: "history count w w"
| provision: "history count w u \<Longrightarrow> fss_core p c f \<Longrightarrow>
    counted_service count (fileStorage c) (virtualNetwork c) (identity c) \<Longrightarrow>
    core_Provision p opts u = Some (r, v) \<Longrightarrow> history count w v"
| delete: "history count w u \<Longrightarrow> fss_core p c f \<Longrightarrow>
    counted_service count (fileStorage c) (virtualNetwork c) (identity c) \<Longrightarrow>
    core_Delete p pv u = Some (r, v) \<Longrightarrow> history count w v"
| meanwhile: "history count w u \<Longrightarrow> (\<And>k. count k (cloud v) \<le> count k (cloud u)) \<Longrightarrow> history count w v"

lemma history_no_twins: "history count w w' \<Longrightarrow> no_twins count w w'"
proof (induction rule: history.induct)
  case (start w)
  show ?case by (rule twins.refl)
next
  case (provision w u p c f opts r v)
  then show ?case using keepsD [OF twins_core(1)] twins.trans by blast
next
  case (delete w u p c f pv r v)
  then show ?case using keepsD [OF twins_core(2)] twins.trans by blast
next
  case (meanwhile w u v)
  then have "no_twins count u v" by (auto simp: no_twins_def intro: order_trans)
  then show ?case using meanwhile(3) twins.trans by blast
qed

text \<open>
  C17: a claim never gets two file systems. In a compartment and availability domain that has at most one file
  system of each name, there is at most one of each after any history of the program: whichever calls
  failed or timed out, also a creation that was reported as failed but took place, and however often they
  were repeated, in one process or in several one after the other.
\<close>

theorem history_creates_once:
  assumes "history count w w'" and "\<And>k. count k (cloud w) \<le> 1"
  shows "count k (cloud w') \<le> 1"
  using history_no_twins [OF assms(1)] assms(2) unfolding no_twins_def by blast

section \<open>A concrete history\<close>

text \<open>
  A store of file systems that answers the creation of a file system with an error although it takes place.
\<close>

definition fs_store :: "fs_key list FSS" where
  "fs_store = MockFileStorageClient
     \<lparr>CreateFileSystem := (\<lambda>ctx details t ks. (Inl (OtherError ''connection reset''), 1,
        case (cfsCompartmentId details, cfsAvailabilityDomain details, cfsDisplayName details) of
          (Some a, Some b, Some n) \<Rightarrow> ks @ [(a, b, n)] | _ \<Rightarrow> ks)),
      ListFileSystems := (\<lambda>ctx a b n t ks. (Inr (map (\<lambda>_. \<lparr>fssumId = Some mockFileSystemID, fssumDisplayName = n,
        fssumLifecycleState = StateActive\<rparr>) (filter (\<lambda>(x, y, z). Some x = a \<and> Some y = b \<and> Some z = n) ks)), 1, ks))\<rparr>"

definition in_store :: "fs_key list fs_count" where
  "in_store k ks = length (filter ((=) k) ks)"

definition store_client :: "fs_key list provisionerClient" where
  "store_client = \<lparr>cfgSet = True, tenancyID = [], blockStorage = MockBlockStorageClient [],
     identity = \<lparr>ListAvailabilityDomains = (\<lambda>ctx c. answers (Inr [defaultAD]))\<rparr>, fileStorage = fs_store,
     virtualNetwork = MockVirtualNetworkClient, timeout = Minute,
     metadata = Some \<lparr>mdCompartmentOCID = ''compartment'', mdRegion = ''phx''\<rparr>\<rparr>"

definition store_fsp :: "fs_key list filesystemProvisioner" where
  "store_fsp = \<lparr>fspClient = client_of store_client, fspRegion = ''phx''\<rparr>"

definition store_core :: "fs_key list OCIProvisioner" where
  "store_core = \<lparr>opClient = client_of store_client,
     opNodeLister = (\<lambda>_. Inr [\<lparr>nodeLabels = [kubeLabelZoneFailureDomain \<mapsto> ''AD-1'']\<rparr>]), opCachesSynced = ret True,
     opPlugin = \<lparr>plProvision = fss_Provision store_fsp, plDelete = fss_Delete store_fsp\<rparr>\<rparr>"

lemma adds_none_answers: "adds_none count (answers r)"
  by (simp add: adds_none_def)

lemma store_counted: "counted_service in_store fs_store MockVirtualNetworkClient (identity store_client)"
proof -
  have key: "details = fs_details (a, b, n) \<longleftrightarrow> cfsCompartmentId details = Some a \<and> cfsAvailabilityDomain details = Some b \<and>
      cfsDisplayName details = Some n" for details a b n
    by (cases details) (simp add: fs_details_def)
  show ?thesis
    unfolding counted_service_def
    by (intro conjI allI impI)
      (auto simp: fs_store_def in_store_def MockFileStorageClient_def MockVirtualNetworkClient_def store_client_def adds_none_answers key
        adds_none_def filter_empty_conv split: option.splits)
qed

lemma store_is_core: "fss_core store_core store_client store_fsp"
  by (simp add: fss_core_def store_core_def store_fsp_def)

lemma store_known: "compartment_known (fspClient store_fsp)"
proof -
  have "pcCompartmentOCID (fspClient store_fsp) = CompartmentOCID store_client" by (simp add: store_fsp_def client_of_def)
  moreover have "\<exists>ocid w'. CompartmentOCID store_client w = Some (Ok ocid, w')" for w
    by (simp add: CompartmentOCID_def store_client_def go_simps)
  ultimately show ?thesis by (simp add: compartment_known_def store_fsp_def)
qed

lemma store_pages: "serves_pages store_fsp fsID s [[\<lparr>exsId = Some mockExportID, exsExportSetId = Some s,
    exsFileSystemId = Some fsID, exsLifecycleState = ''ACTIVE''\<rparr>]] (\<lambda>_. [])"
  by (simp add: serves_pages_def store_fsp_def client_of_def store_client_def fs_store_def MockFileStorageClient_def)

lemma store_total: "go_total (core_Provision store_core mock_claim)"
proof -
  have known: "go_total (pcCompartmentOCID (opClient store_core))"
    using store_known by (simp add: compartment_known_def client_ok_def store_fsp_def store_core_def)
  have pair: "(\<And>x y. go_total (g x y)) \<Longrightarrow> go_total (case q of (x, y) \<Rightarrow> g x y)" for g :: "'x \<Rightarrow> 'y \<Rightarrow> ('s, 'z) go" and q
    by (cases q) simp
  have hash: "go_total (getPVCNameHashAndIndexOffset name)" for name
  proof -
    have "go_total rand_Uint32" by (simp add: go_total_def rand_Uint32_def draw_def)
    then show ?thesis
      unfolding getPVCNameHashAndIndexOffset_def by (cases "stateful_name name") (auto intro!: go_total)
  qed
  have zone: "go_total (automatic_zone store_core pvc)" for pvc
    unfolding automatic_zone_def ChooseZoneForVolume_def Let_def by (intro go_total pair hash)
  have put: "go_total (map_put k v m)" for k v and m :: "strmap option"
    by (cases m) (simp_all add: go_simps total_pure)
  have fss: "go_total (plProvision (opPlugin store_core) mock_claim ad)" for ad
    using fss_Provision_total [OF _ store_known] store_pages by (simp add: store_core_def) blast
  show ?thesis
    unfolding core_Provision_def chooseAvailabilityDomain_def findADByName_def mark_def
    by (intro go_total known find_ad_total zone put fss pair)
qed

lemma store_again: "\<exists>r w'. core_Provision store_core mock_claim w = Some (r, w')"
  by (rule go_totalE [OF store_total])

theorem history_creates_once_witness:
  "\<exists>r u r' v. core_Provision store_core mock_claim
      \<lparr>clock = 0, choices = (\<lambda>_. 0), environ = Map.empty, config = zeroConfig, cloud = [], events = []\<rparr> = Some (r, u) \<and>
    core_Provision store_core mock_claim u = Some (r', v) \<and> (\<forall>k. in_store k (cloud v) \<le> 1)"
proof -
  let ?w = "\<lparr>clock = 0, choices = (\<lambda>_. 0), environ = Map.empty, config = zeroConfig, cloud = [], events = []\<rparr>"
  obtain r u r' v where run: "core_Provision store_core mock_claim ?w = Some (r, u)" "core_Provision store_core mock_claim u = Some (r', v)"
    using store_again by metis
  note service = store_counted
  have "counted_service in_store (fileStorage store_client) (virtualNetwork store_client) (identity store_client)"
    using store_counted by (simp add: store_client_def)
  note step = history.provision [OF _ store_is_core this]
  have "history in_store ?w v" by (rule step [OF step [OF history.start run(1)] run(2)])
  then have "in_store k (cloud v) \<le> 1" for k by (rule history_creates_once) (simp add: in_store_def)
  with run show ?thesis by blast
qed

end
