(* ===== verification/Metadata.thy ===== *)
theory Metadata
  imports Mocks
begin

text \<open>
  The metadata endpoint of the compute instance, \<open>pkg/oci/instancemeta/instance_metadata.go\<close>: one
  HTTP request and the decoding of its JSON body into the two fields that the provisioner uses. The
  HTTP client is a parameter; \<open>metadata_Get\<close> is an instance of \<open>metadata_Interface\<close>.
\<close>

section \<open>Definitions\<close>

text \<open>
  The body of a response as the decoder of \<open>encoding/json\<close> finds it: one JSON value (strings are
  unquoted), or the error of reading or scanning it.
\<close>

datatype json =
    JNull
  | JBool bool
  | JNumber string
  | JString string
  | JArray "json list"
  | JObject "(string \<times> json) list" \<comment> \<open>the members in order, with duplicates\<close>

record http_Response =
  rspStatusCode :: int
  rspBody :: "error + json"

record 'c http_Client =
  httpNewRequest :: "string \<Rightarrow> error + string" \<comment> \<open>\<open>http.NewRequest("GET", url, nil)\<close>\<close>
  httpDo :: "string \<Rightarrow> ('c, error + http_Response) api"
  httpClose :: "'c \<Rightarrow> 'c" \<comment> \<open>\<open>resp.Body.Close()\<close>\<close>

record 'c metadataGetter =
  mgBaseURL :: string
  mgClient :: "'c http_Client"

abbreviation baseURL :: string where "baseURL \<equiv> ''http://169.254.169.254''"
abbreviation metadataEndpoint :: string where "metadataEndpoint \<equiv> ''/opc/v1/instance/''"

definition instancemeta_New :: "'c http_Client \<Rightarrow> 'c metadataGetter" where
  \<comment> \<open>the argument is \<open>http.DefaultClient\<close>\<close>
  "instancemeta_New client = \<lparr>mgBaseURL = baseURL, mgClient = client\<rparr>"

text \<open>
  The decoder takes a member of an object for a field whose name it equals up to the case of its
  letters; the names of the two fields have no letter with other case variants than the ASCII ones.
\<close>

definition lower :: "char \<Rightarrow> char" where
  "lower c = (let n = of_char c :: nat in if 65 \<le> n \<and> n \<le> 90 then char_of (n + 32) else c)"

definition equalFold :: "string \<Rightarrow> string \<Rightarrow> bool" where
  "equalFold s t \<longleftrightarrow> map lower s = map lower t"

text \<open>
  A string is stored, \<open>null\<close> leaves the field alone, and any other value is an error that is
  remembered while the decoder goes on.
\<close>

definition UnmarshalTypeError :: error where
  "UnmarshalTypeError = OtherError ''json: cannot unmarshal''"

definition store_string :: "(string \<Rightarrow> InstanceMetadata \<Rightarrow> InstanceMetadata) \<Rightarrow> json \<Rightarrow> InstanceMetadata \<Rightarrow> InstanceMetadata \<times> bool" where
  \<comment> \<open>the structure, and whether the value had a wrong type\<close>
  "store_string put v md = (case v of JString s \<Rightarrow> (put s md, False) | JNull \<Rightarrow> (md, False) | _ \<Rightarrow> (md, True))"

definition decode_member :: "string \<Rightarrow> json \<Rightarrow> InstanceMetadata \<Rightarrow> InstanceMetadata \<times> bool" where
  "decode_member k v md =
     (if equalFold k ''compartmentId'' then store_string (\<lambda>s md. md\<lparr>mdCompartmentOCID := s\<rparr>) v md
      else if equalFold k ''region'' then store_string (\<lambda>s md. md\<lparr>mdRegion := s\<rparr>) v md
      else (md, False))"

fun decode_members :: "(string \<times> json) list \<Rightarrow> InstanceMetadata \<Rightarrow> InstanceMetadata \<times> bool" where
  "decode_members [] md = (md, False)"
| "decode_members ((k, v) # ms) md =
     (case decode_member k v md of (md1, w1) \<Rightarrow>
       case decode_members ms md1 of (md2, w2) \<Rightarrow> (md2, w1 \<or> w2))"

definition zeroMetadata :: InstanceMetadata where
  "zeroMetadata = \<lparr>mdCompartmentOCID = [], mdRegion = []\<rparr>"

definition decode_metadata :: "json \<Rightarrow> error + InstanceMetadata" where
  "decode_metadata j =
     (case j of
        JNull \<Rightarrow> Inr zeroMetadata
      | JObject ms \<Rightarrow>
          (case decode_members ms zeroMetadata of
             (md, wrong) \<Rightarrow> if wrong then Inl UnmarshalTypeError else Inr md)
      | _ \<Rightarrow> Inl UnmarshalTypeError)"

definition metadata_Get :: "'c metadataGetter \<Rightarrow> 'c metadata_Interface" where
  "metadata_Get m t c =
     (case httpNewRequest (mgClient m) (mgBaseURL m @ metadataEndpoint) of
        Inl e \<Rightarrow> (Inl e, 0, c)
      | Inr req \<Rightarrow>
          (case httpDo (mgClient m) req t c of
             (Inl e, d, c') \<Rightarrow> (Inl (Errorf ''failed to get instance metadata: %v'' [FmtE e]), d, c')
           | (Inr resp, d, c') \<Rightarrow>
               (if rspStatusCode resp \<noteq> StatusOK
                then Inl (Errorf ''metadata endpoint returned status %d; expected 200 OK'' [FmtI (rspStatusCode resp)])
                else case rspBody resp of
                  Inl e \<Rightarrow> Inl e
                | Inr j \<Rightarrow> (case decode_metadata j of Inl e \<Rightarrow> Inl e | Inr md \<Rightarrow> Inr (Some md)),
                d, httpClose (mgClient m) c')))"

section \<open>Decoding\<close>

text \<open>The last string that an object gives for a name, if any.\<close>

definition or_else :: "'a option \<Rightarrow> 'a \<Rightarrow> 'a" where
  "or_else p d = (case p of None \<Rightarrow> d | Some x \<Rightarrow> x)"

definition member_string :: "string \<Rightarrow> string \<Rightarrow> json \<Rightarrow> string option" where
  "member_string name k v = (case v of JString s \<Rightarrow> if equalFold k name then Some s else None | _ \<Rightarrow> None)"

fun last_string :: "string \<Rightarrow> (string \<times> json) list \<Rightarrow> string option" where
  "last_string name [] = None"
| "last_string name ((k, v) # ms) =
     (case last_string name ms of Some s \<Rightarrow> Some s | None \<Rightarrow> member_string name k v)"

definition member_typed :: "string \<Rightarrow> json \<Rightarrow> bool" where
  \<comment> \<open>a member that belongs to one of the two fields is a string or null\<close>
  "member_typed k v \<longleftrightarrow>
     (equalFold k ''compartmentId'' \<or> equalFold k ''region'' \<longrightarrow> v = JNull \<or> (\<exists>s. v = JString s))"

lemma or_else_simps [simp]: "or_else None d = d" "or_else (Some x) d = x"
  by (simp_all add: or_else_def)

lemma names_differ: "equalFold k ''compartmentId'' \<Longrightarrow> \<not> equalFold k ''region''"
  by (simp add: equalFold_def lower_def)

lemma decode_member_spec:
  assumes "decode_member k v md = (md', wrong)"
  shows "(wrong \<longleftrightarrow> \<not> member_typed k v) \<and>
    mdCompartmentOCID md' = or_else (member_string ''compartmentId'' k v) (mdCompartmentOCID md) \<and>
    mdRegion md' = or_else (member_string ''region'' k v) (mdRegion md)"
  using assms names_differ [of k]
  by (cases v; cases "equalFold k ''compartmentId''"; cases "equalFold k ''region''";
      simp add: decode_member_def store_string_def member_typed_def member_string_def; (elim conjE; clarify; simp)?)

lemma decode_members_spec:
  "decode_members ms md = (md', wrong) \<Longrightarrow>
    (wrong \<longleftrightarrow> \<not> (\<forall>(k, v) \<in> set ms. member_typed k v)) \<and>
    mdCompartmentOCID md' = or_else (last_string ''compartmentId'' ms) (mdCompartmentOCID md) \<and>
    mdRegion md' = or_else (last_string ''region'' ms) (mdRegion md)"
proof (induction ms md arbitrary: md' wrong rule: decode_members.induct)
  case (2 k v ms md)
  obtain md1 w1 where one: "decode_member k v md = (md1, w1)" by fastforce
  obtain md2 w2 where rest: "decode_members ms md1 = (md2, w2)" by fastforce
  have "md' = md2" "wrong = (w1 \<or> w2)" using 2(2) one rest by simp_all
  with 2(1) [OF one [symmetric] rest] decode_member_spec [OF one] show ?case
    by (auto split: option.split)
qed simp

text \<open>
  C30: the metadata of the instance are read as the structure declares them. If the request can be made and
  is answered with status 200, \<open>Get\<close> returns the strings that the body's object gives last for the two
  names, whatever the case of their letters, and empty strings for what is missing; a member of either
  name with a value that is neither a string nor null is an error, and so is every other body but null.
\<close>

theorem metadata_Get_spec:
  assumes "httpNewRequest (mgClient m) (mgBaseURL m @ metadataEndpoint) = Inr req"
    and "httpDo (mgClient m) req t c = (Inr resp, d, c')" and "rspStatusCode resp = 200"
    and "rspBody resp = Inr j"
  shows "metadata_Get m t c =
    ((case j of
        JNull \<Rightarrow> Inr (Some zeroMetadata)
      | JObject ms \<Rightarrow>
          if \<forall>(k, v) \<in> set ms. member_typed k v
          then Inr (Some \<lparr>mdCompartmentOCID = or_else (last_string ''compartmentId'' ms) [],
            mdRegion = or_else (last_string ''region'' ms) []\<rparr>)
          else Inl UnmarshalTypeError
      | _ \<Rightarrow> Inl UnmarshalTypeError), d, httpClose (mgClient m) c')"
proof -
  have "decode_metadata (JObject ms) =
      (if \<forall>(k, v) \<in> set ms. member_typed k v
       then Inr \<lparr>mdCompartmentOCID = or_else (last_string ''compartmentId'' ms) [],
         mdRegion = or_else (last_string ''region'' ms) []\<rparr>
       else Inl UnmarshalTypeError)" for ms
  proof -
    obtain md w where run: "decode_members ms zeroMetadata = (md, w)" by fastforce
    from decode_members_spec [OF run] show ?thesis
      by (cases md) (auto simp: decode_metadata_def run, auto simp: zeroMetadata_def)
  qed
  then show ?thesis
    using assms by (cases j) (simp_all add: metadata_Get_def decode_metadata_def StatusOK_def)
qed

text \<open>An endpoint that answers with a fixed status and body, and counts the bodies that are open.\<close>

definition endpoint :: "int \<Rightarrow> error + json \<Rightarrow> nat http_Client" where
  "endpoint status body = \<lparr>httpNewRequest = Inr,
     httpDo = (\<lambda>url t n. (Inr \<lparr>rspStatusCode = status, rspBody = body\<rparr>, 0, Suc n)), httpClose = (\<lambda>n. n - 1)\<rparr>"

theorem metadata_Get_spec_witness:
  "metadata_Get (instancemeta_New (endpoint 200 (Inr (JObject
      [(''compartmentid'', JString ''ocid''), (''shape'', JNumber ''1''), (''region'', JString ''phx'')])))) 0 0 =
    (Inr (Some \<lparr>mdCompartmentOCID = ''ocid'', mdRegion = ''phx''\<rparr>), 0, 0)"
proof -
  let ?ms = "[(''compartmentid'', JString ''ocid''), (''shape'', JNumber ''1''), (''region'', JString ''phx'')]"
  let ?m = "instancemeta_New (endpoint 200 (Inr (JObject ?ms)))"
  have fold: "equalFold ''compartmentid'' ''compartmentId''" "\<not> equalFold ''compartmentid'' ''region''"
    "\<not> equalFold ''shape'' ''compartmentId''" "\<not> equalFold ''shape'' ''region''"
    "\<not> equalFold ''region'' ''compartmentId''" "equalFold ''region'' ''region''"
    by code_simp+
  have ok: "httpNewRequest (mgClient ?m) (mgBaseURL ?m @ metadataEndpoint) = Inr (mgBaseURL ?m @ metadataEndpoint)"
    "httpDo (mgClient ?m) (mgBaseURL ?m @ metadataEndpoint) 0 0 = (Inr \<lparr>rspStatusCode = 200, rspBody = Inr (JObject ?ms)\<rparr>, 0, 1)"
    by (simp_all add: instancemeta_New_def endpoint_def)
  have typed: "\<forall>(k, v) \<in> set ?ms. member_typed k v" by (simp add: member_typed_def fold)
  have last: "last_string ''compartmentId'' ?ms = Some ''ocid''" "last_string ''region'' ?ms = Some ''phx''"
    by (simp_all add: member_string_def fold)
  have close: "httpClose (mgClient ?m) 1 = 0" by (simp add: instancemeta_New_def endpoint_def)
  from metadata_Get_spec [OF ok, of "JObject ?ms"] show ?thesis
    unfolding json.case if_P [OF typed] last close by simp
qed

text \<open>
  No response body is left open. Whatever the endpoint answers, \<open>Get\<close> leaves as many bodies open as there
  were, if a response opens one and closing it closes one.
\<close>

theorem metadata_Get_closes:
  fixes opened :: "'c \<Rightarrow> nat"
  assumes "\<And>url t c resp d c'. httpDo (mgClient m) url t c = (Inr resp, d, c') \<Longrightarrow> opened c' = Suc (opened c)"
    and "\<And>url t c e d c'. httpDo (mgClient m) url t c = (Inl e, d, c') \<Longrightarrow> opened c' = opened c"
    and "\<And>c. opened (httpClose (mgClient m) c) = opened c - 1"
    and "metadata_Get m t c = (r, d, c')"
  shows "opened c' = opened c"
proof (cases "httpNewRequest (mgClient m) (mgBaseURL m @ metadataEndpoint)")
  case (Inr req)
  obtain a d1 c1 where run: "httpDo (mgClient m) req t c = (a, d1, c1)" by (metis prod_cases3)
  show ?thesis
    using assms(3,4) Inr run assms(1,2) [of req t c _ d1 c1] by (cases a) (auto simp: metadata_Get_def)
qed (use assms(4) in \<open>simp add: metadata_Get_def\<close>)

theorem metadata_Get_closes_witness:
  "\<exists>e d. metadata_Get (instancemeta_New (endpoint 404 (Inr JNull))) 0 (3 :: nat) = (Inl e, d, 3)"
proof -
  let ?m = "instancemeta_New (endpoint 404 (Inr JNull)) :: nat metadataGetter"
  obtain r d c' where run: "metadata_Get ?m 0 3 = (r, d, c')" by (metis prod_cases3)
  have "c' = 3"
    by (rule metadata_Get_closes [where m = ?m and opened = "\<lambda>n. n" and c = 3, OF _ _ _ run])
      (auto simp: instancemeta_New_def endpoint_def)
  moreover have "\<exists>e. r = Inl e"
    using run by (auto simp: metadata_Get_def instancemeta_New_def endpoint_def StatusOK_def)
  ultimately show ?thesis using run by blast
qed

end
