(* ===== verification/Client_Setup.thy ===== *)
theory Client_Setup
  imports Metadata
begin

text \<open>
  The construction of the client, \<open>pkg/oci/client/client.go\<close> from \<open>FromConfig\<close> on: the
  configuration provider, the clients of the four services, their custom transport, and the
  instance metadata. The OCI SDK, the file system of the machine and the parsers of URLs and
  certificates are parameters (\<open>SDK\<close>, \<open>platform\<close>), as is the decoder of the configuration file.
\<close>

section \<open>Transports\<close>

record http_Transport =
  trProxy :: "string option" \<comment> \<open>the URL that \<open>Proxy\<close> returns for every request; \<open>None\<close> for a nil \<open>Proxy\<close>\<close>
  trRootCAs :: "string list option" \<comment> \<open>\<open>TLSClientConfig.RootCAs\<close>; \<open>None\<close> for a nil \<open>TLSClientConfig\<close>\<close>
  trDialTimeout :: duration
  trDialKeepAlive :: duration
  trDialDualStack :: bool
  trMaxIdleConns :: int
  trIdleConnTimeout :: duration
  trTLSHandshakeTimeout :: duration
  trExpectContinueTimeout :: duration

datatype RoundTripper = HttpTransport http_Transport | OtherTripper string

datatype HTTPRequestDispatcher =
    HttpClient duration "RoundTripper option" \<comment> \<open>\<open>*http.Client\<close>: timeout and transport\<close>
  | OtherDispatcher string

record BaseClient =
  bcHTTPClient :: HTTPRequestDispatcher
  bcHost :: string

record 'c platform =
  pfParseURL :: "string \<Rightarrow> error + string" \<comment> \<open>\<open>url.Parse\<close>\<close>
  pfReadFile :: "string \<Rightarrow> 'c \<Rightarrow> error + string" \<comment> \<open>\<open>ioutil.ReadFile\<close>\<close>
  pfCertificates :: "string \<Rightarrow> string list" \<comment> \<open>what \<open>AppendCertsFromPEM\<close> adds to an empty pool\<close>
  pfOpen :: "string \<Rightarrow> 'c \<Rightarrow> error + (error + string)" \<comment> \<open>\<open>os.Open\<close>, with what \<open>ioutil.ReadAll\<close> reads of the file\<close>
  pfUnmarshal :: "string \<Rightarrow> Config \<Rightarrow> error + Config option" \<comment> \<open>\<open>yaml.Unmarshal\<close> through a pointer to a pointer\<close>

definition customTransport :: http_Transport where
  \<comment> \<open>the transport of a client that has none\<close>
  "customTransport = \<lparr>trProxy = None, trRootCAs = None, trDialTimeout = 30 * Second, trDialKeepAlive = 30 * Second,
     trDialDualStack = True, trMaxIdleConns = 100, trIdleConnTimeout = 90 * Second,
     trTLSHandshakeTimeout = 10 * Second, trExpectContinueTimeout = 1 * Second\<rparr>"

definition configure_proxy :: "'c platform \<Rightarrow> http_Transport \<Rightarrow> ('c world, http_Transport) go" where
  "configure_proxy pf transport =
     go_bind (Getenv ''OCI_PROXY'') (\<lambda>ociProxy.
       if ociProxy \<noteq> [] then
         (case pfParseURL pf ociProxy of
            Inl err \<Rightarrow> fail (Errorf ''failed to parse OCI proxy url: %s, err: %v'' [FmtS ociProxy, FmtE err])
          | Inr proxyURL \<Rightarrow> ret (transport\<lparr>trProxy := Some proxyURL\<rparr>))
       else ret transport)"

definition configure_ca :: "'c platform \<Rightarrow> http_Transport \<Rightarrow> ('c world, http_Transport) go" where
  "configure_ca pf transport =
     go_bind (Getenv ''TRUSTED_CA_CERT_PATH'') (\<lambda>path.
       if path \<noteq> [] then
         go_bind (gets (\<lambda>w. pfReadFile pf path (cloud w))) (\<lambda>r.
           case r of
             Inl err \<Rightarrow> fail (Errorf ''failed to read root certificate: %s, err: %v'' [FmtS path, FmtE err])
           | Inr pem \<Rightarrow>
               if pfCertificates pf pem = [] then fail (Errorf ''failed to parse root certificate: %s'' [FmtS path])
               else ret (transport\<lparr>trRootCAs := Some (pfCertificates pf pem)\<rparr>))
       else ret transport)"

text \<open>
  A failed type assertion panics. The client that is being configured is dropped by the caller if an
  error is returned, so the result is the changed client or the error.
\<close>

definition configureCustomTransport :: "'c platform \<Rightarrow> BaseClient \<Rightarrow> ('c world, BaseClient) go" where
  "configureCustomTransport pf baseClient =
     (case bcHTTPClient baseClient of
        OtherDispatcher _ \<Rightarrow> panics TypeAssertion
      | HttpClient tmo tripper \<Rightarrow>
          go_bind (case tripper of
              None \<Rightarrow> ret customTransport
            | Some (HttpTransport t) \<Rightarrow> ret t
            | Some (OtherTripper _) \<Rightarrow> panics TypeAssertion) (\<lambda>transport.
          go_bind (configure_proxy pf transport) (\<lambda>transport.
          go_bind (configure_ca pf transport) (\<lambda>transport.
          ret (baseClient\<lparr>bcHTTPClient := HttpClient tmo (Some (HttpTransport transport))\<rparr>)))))"

section \<open>The configuration provider and the client\<close>

datatype ConfigurationProvider =
    RawConfigurationProvider string string string string string "string option"
      \<comment> \<open>tenancy, user, region, fingerprint, private key, passphrase\<close>
  | InstancePrincipals string
  | DefaultConfigProvider

datatype oci_service = BlockstorageClient | FileStorageClient | VirtualNetworkClient | IdentityClient

record 'c SDK =
  sdkInstancePrincipal :: "('c, error + string) api" \<comment> \<open>\<open>auth.InstancePrincipalConfigurationProvider\<close>\<close>
  sdkTenancyOCID :: "ConfigurationProvider \<Rightarrow> ('c, error + string) api" \<comment> \<open>of the providers that are not raw\<close>
  sdkNewClient :: "oci_service \<Rightarrow> ConfigurationProvider \<Rightarrow> ('c, error + BaseClient) api"
    \<comment> \<open>\<open>New...ClientWithConfigurationProvider\<close>\<close>
  sdkBlockstorage :: "BaseClient \<Rightarrow> 'c BlockStorage"
  sdkFileStorage :: "BaseClient \<Rightarrow> 'c FSS"
  sdkVirtualNetwork :: "BaseClient \<Rightarrow> 'c VCN"
  sdkIdentity :: "BaseClient \<Rightarrow> 'c Identity"

definition calls :: "('c, error + 'r) api \<Rightarrow> ('c world, 'r) go" where
  \<comment> \<open>a call of a library, which is no request of the provisioner's own\<close>
  "calls f w = (case f (clock w) (cloud w) of
     (r, d, cl) \<Rightarrow> of_result r (w\<lparr>clock := clock w + int d, cloud := cl\<rparr>))"

definition newConfigurationProvider :: "'c SDK \<Rightarrow> Config option \<Rightarrow> ('c world, ConfigurationProvider) go" where
  "newConfigurationProvider sdk cfg_ptr =
     (case cfg_ptr of
        None \<Rightarrow> ret DefaultConfigProvider
      | Some cfg \<Rightarrow>
          (case Validate cfg of
             Some err \<Rightarrow> fail (errors_Wrap err ''invalid client config'')
           | None \<Rightarrow>
               if cfgUseInstancePrincipals cfg then
                 (go_try (calls (sdkInstancePrincipal sdk)) (\<lambda>r.
                   case r of
                     Inl err \<Rightarrow> fail (errors_Wrap err ''InstancePrincipalConfigurationProvider'')
                   | Inr cp \<Rightarrow> ret (InstancePrincipals cp)))
               else ret (RawConfigurationProvider (authTenancyOCID (cfgAuth cfg)) (authUserOCID (cfgAuth cfg))
                 (authRegion (cfgAuth cfg)) (authFingerprint (cfgAuth cfg)) (authPrivateKey (cfgAuth cfg))
                 (Some (authPrivateKeyPassphrase (cfgAuth cfg))))))"

definition TenancyOCID :: "'c SDK \<Rightarrow> ConfigurationProvider \<Rightarrow> ('c world, string) go" where
  "TenancyOCID sdk conf =
     (case conf of
        RawConfigurationProvider tenancy _ _ _ _ _ \<Rightarrow> ret tenancy
      | _ \<Rightarrow> calls (sdkTenancyOCID sdk conf))"

definition FromConfig ::
  "'c SDK \<Rightarrow> 'c platform \<Rightarrow> 'c http_Client \<Rightarrow> Config option \<Rightarrow> ('c world, 'c provisionerClient) go" where
  "FromConfig sdk pf http cfg =
     go_bind (newConfigurationProvider sdk cfg) (\<lambda>conf.
     go_bind (TenancyOCID sdk conf) (\<lambda>tenancy.
     go_bind (calls (sdkNewClient sdk BlockstorageClient conf)) (\<lambda>bs.
     go_bind (configureCustomTransport pf bs) (\<lambda>bs.
     go_bind (calls (sdkNewClient sdk FileStorageClient conf)) (\<lambda>fs.
     go_bind (calls (sdkNewClient sdk VirtualNetworkClient conf)) (\<lambda>vn.
     go_bind (calls (sdkNewClient sdk IdentityClient conf)) (\<lambda>ident.
     go_bind (configureCustomTransport pf ident) (\<lambda>ident.
     go_bind (invoke CallMetadata Background (metadata_Get (instancemeta_New http))) (\<lambda>r.
     go_bind (modifies (\<lambda>w. case cfg of None \<Rightarrow> w | Some c \<Rightarrow> w\<lparr>config := c\<rparr>)) (\<lambda>_.
     ret \<lparr>cfgSet = cfg \<noteq> None, tenancyID = tenancy, blockStorage = sdkBlockstorage sdk bs,
       identity = sdkIdentity sdk ident, fileStorage = sdkFileStorage sdk fs, virtualNetwork = sdkVirtualNetwork sdk vn,
       timeout = 3 * Minute, metadata = (case r of Inl _ \<Rightarrow> None | Inr md \<Rightarrow> md)\<rparr>))))))))))"

section \<open>Frames\<close>

lemma calls_frame [go_frame]: "keeps extends (calls f)"
  by (rule keepsI) (auto simp: calls_def extends_def of_result_def go_simps split: prod.splits sum.splits)

lemma calls_total [go_total]: "go_total (calls f)"
  by (auto simp: go_total_def calls_def of_result_def go_simps split: prod.splits sum.splits)

lemma configure_frame [go_frame]:
  "keeps quiet (configureCustomTransport pf c)" "keeps extends (configureCustomTransport pf c)"
proof -
  have "configureCustomTransport pf c w = Some (r, w') \<Longrightarrow> w' = w" for w r w'
    by (auto simp: configureCustomTransport_def configure_proxy_def configure_ca_def go_bind_def Getenv_def go_simps
        split: HTTPRequestDispatcher.splits option.splits RoundTripper.splits sum.splits if_splits)
  note same = this
  show "keeps quiet (configureCustomTransport pf c)"
    by (rule keepsI) (metis same qui.refl)
  show "keeps extends (configureCustomTransport pf c)"
    by (rule keepsI) (metis same ext.refl)
qed


lemma newConfigurationProvider_frame [go_frame]: "keeps extends (newConfigurationProvider sdk cfg)"
  unfolding newConfigurationProvider_def
  by (intro ext.keeps_rules go_frame)

lemma TenancyOCID_frame [go_frame]: "keeps extends (TenancyOCID sdk conf)"
  by (cases conf) (simp_all add: TenancyOCID_def ext.keeps_rules calls_frame)

lemma set_config_frame: "keeps extends (modifies (\<lambda>w. case cfg of None \<Rightarrow> w | Some c \<Rightarrow> w\<lparr>config := c\<rparr>))"
  by (rule keepsI) (auto simp: go_simps extends_def split: option.splits)

lemma FromConfig_frame [go_frame]: "keeps extends (FromConfig sdk pf http cfg)"
  unfolding FromConfig_def
  by (intro ext.keeps_rules go_frame set_config_frame)

section \<open>Correctness\<close>

text \<open>The environment variable, where an empty one counts as unset.\<close>

definition env_set :: "'c world \<Rightarrow> string \<Rightarrow> string option" where
  "env_set w k = (case environ w k of None \<Rightarrow> None | Some v \<Rightarrow> if v = [] then None else Some v)"

lemma Getenv_env_set: "Getenv k w = Some (Ok (or_else (env_set w k) []), w)"
  by (simp add: Getenv_def env_set_def go_simps split: option.split)

lemma env_set_not_Nil [simp]: "env_set w k \<noteq> Some []"
  by (simp add: env_set_def split: option.split)

text \<open>What a custom transport has instead of the proxy and the certificates of the given one.\<close>

definition proxied :: "'c platform \<Rightarrow> 'c world \<Rightarrow> http_Transport \<Rightarrow> (error + http_Transport)" where
  "proxied pf w t = (case env_set w ''OCI_PROXY'' of
       None \<Rightarrow> Inr t
     | Some p \<Rightarrow> (case pfParseURL pf p of
           Inl e \<Rightarrow> Inl (Errorf ''failed to parse OCI proxy url: %s, err: %v'' [FmtS p, FmtE e])
         | Inr u \<Rightarrow> Inr (t\<lparr>trProxy := Some u\<rparr>)))"

definition trusting :: "'c platform \<Rightarrow> 'c world \<Rightarrow> http_Transport \<Rightarrow> (error + http_Transport)" where
  "trusting pf w t = (case env_set w ''TRUSTED_CA_CERT_PATH'' of
       None \<Rightarrow> Inr t
     | Some p \<Rightarrow> (case pfReadFile pf p (cloud w) of
           Inl e \<Rightarrow> Inl (Errorf ''failed to read root certificate: %s, err: %v'' [FmtS p, FmtE e])
         | Inr pem \<Rightarrow> if pfCertificates pf pem = []
             then Inl (Errorf ''failed to parse root certificate: %s'' [FmtS p])
             else Inr (t\<lparr>trRootCAs := Some (pfCertificates pf pem)\<rparr>)))"

lemma configure_proxy_run: "configure_proxy pf t w = of_result (proxied pf w t) w"
  by (cases "env_set w ''OCI_PROXY''")
    (auto simp: configure_proxy_def proxied_def go_bind_def Getenv_env_set go_simps split: sum.split)

lemma configure_ca_run: "configure_ca pf t w = of_result (trusting pf w t) w"
  by (cases "env_set w ''TRUSTED_CA_CERT_PATH''")
    (auto simp: configure_ca_def trusting_def go_bind_def Getenv_env_set go_simps split: sum.split)


definition base_transport :: "BaseClient \<Rightarrow> (duration \<times> http_Transport) option" where
  \<comment> \<open>the client's timeout and the transport that is configured, if the type assertions succeed\<close>
  "base_transport b = (case bcHTTPClient b of
       HttpClient tmo None \<Rightarrow> Some (tmo, customTransport)
     | HttpClient tmo (Some (HttpTransport t)) \<Rightarrow> Some (tmo, t)
     | _ \<Rightarrow> None)"

lemma configureCustomTransport_run:
  "configureCustomTransport pf b w =
     (case base_transport b of
        None \<Rightarrow> Some (Panic TypeAssertion, w)
      | Some (tmo, t) \<Rightarrow> (case proxied pf w t of
            Inl e \<Rightarrow> Some (Err e, w)
          | Inr t1 \<Rightarrow> (case trusting pf w t1 of
                Inl e \<Rightarrow> Some (Err e, w)
              | Inr t2 \<Rightarrow> Some (Ok (b\<lparr>bcHTTPClient := HttpClient tmo (Some (HttpTransport t2))\<rparr>), w))))"
  by (auto simp: configureCustomTransport_def base_transport_def go_bind_def configure_proxy_run configure_ca_run
      go_simps of_result_def split: HTTPRequestDispatcher.split option.split RoundTripper.split sum.split)

text \<open>
  The custom transport of a client differs from the one it had, or from a fresh one, in at most the proxy
  and the trusted certificates. A configured client sends every request through the proxy that
  \<open>OCI_PROXY\<close> names and trusts exactly the certificates of the file that \<open>TRUSTED_CA_CERT_PATH\<close> names;
  each is left as it was where the variable is unset or empty.
\<close>

theorem configureCustomTransport_Ok:
  assumes "configureCustomTransport pf b w = Some (Ok b', w')"
  shows "w' = w \<and> (\<exists>tmo t u cas. base_transport b = Some (tmo, t) \<and>
    b' = b\<lparr>bcHTTPClient := HttpClient tmo (Some (HttpTransport (t\<lparr>trProxy := u, trRootCAs := cas\<rparr>)))\<rparr> \<and>
    (case env_set w ''OCI_PROXY'' of None \<Rightarrow> u = trProxy t | Some p \<Rightarrow> \<exists>url. pfParseURL pf p = Inr url \<and> u = Some url) \<and>
    (case env_set w ''TRUSTED_CA_CERT_PATH'' of None \<Rightarrow> cas = trRootCAs t
     | Some f \<Rightarrow> \<exists>pem. pfReadFile pf f (cloud w) = Inr pem \<and> pfCertificates pf pem \<noteq> [] \<and> cas = Some (pfCertificates pf pem)))"
proof -
  have unchanged: "t\<lparr>trProxy := trProxy t\<rparr> = t" "t\<lparr>trRootCAs := trRootCAs t\<rparr> = t" for t :: http_Transport by simp_all
  from assms obtain tmo t t1 t2 where r: "w' = w" "base_transport b = Some (tmo, t)" "proxied pf w t = Inr t1"
    "trusting pf w t1 = Inr t2" "b' = b\<lparr>bcHTTPClient := HttpClient tmo (Some (HttpTransport t2))\<rparr>"
    by (auto simp: configureCustomTransport_run split: option.splits sum.splits)
  from r(3) obtain u where u: "t1 = t\<lparr>trProxy := u\<rparr>"
    "case env_set w ''OCI_PROXY'' of None \<Rightarrow> u = trProxy t | Some p \<Rightarrow> \<exists>url. pfParseURL pf p = Inr url \<and> u = Some url"
    by (auto simp: proxied_def split: option.splits sum.splits intro: that [of "trProxy t"])
  from r(4) obtain cas where "t2 = t1\<lparr>trRootCAs := cas\<rparr>"
    "case env_set w ''TRUSTED_CA_CERT_PATH'' of None \<Rightarrow> cas = trRootCAs t1
     | Some f \<Rightarrow> \<exists>pem. pfReadFile pf f (cloud w) = Inr pem \<and> pfCertificates pf pem \<noteq> [] \<and> cas = Some (pfCertificates pf pem)"
    by (auto simp: trusting_def split: option.splits sum.splits if_splits intro: that [of "trRootCAs t1"])
  with r u show ?thesis by (auto split: option.splits)
qed

lemma base_transport_set [simp]:
  "base_transport (b\<lparr>bcHTTPClient := HttpClient tmo (Some (HttpTransport t))\<rparr>) = Some (tmo, t)"
  by (simp add: base_transport_def)

lemma proxied_trusting_idem:
  assumes "proxied pf w t = Inr t1" and "trusting pf w t1 = Inr t2"
  shows "proxied pf w t2 = Inr t2" "trusting pf w t2 = Inr t2"
  using assms by (auto simp: proxied_def trusting_def split: option.splits sum.splits if_splits)

text \<open>
  Configuring the transport of a client twice is the same as configuring it once.
\<close>

theorem configureCustomTransport_idem:
  "go_bind (configureCustomTransport pf b) (configureCustomTransport pf) w = configureCustomTransport pf b w"
proof (cases "\<exists>tmo t t1 t2. base_transport b = Some (tmo, t) \<and> proxied pf w t = Inr t1 \<and> trusting pf w t1 = Inr t2")
  case True
  then obtain tmo t t1 t2 where r: "base_transport b = Some (tmo, t)" "proxied pf w t = Inr t1" "trusting pf w t1 = Inr t2"
    by blast
  show ?thesis
    by (simp add: go_bind_def configureCustomTransport_run [of pf b] r)
      (simp add: configureCustomTransport_run proxied_trusting_idem [OF r(2,3)])
next
  case False
  then have "\<nexists>b' w'. configureCustomTransport pf b w = Some (Ok b', w')"
    by (auto simp: configureCustomTransport_run split: option.split sum.split)
  then show ?thesis
    by (auto simp: go_bind_def split: option.split prod.split outcome.split)
qed


text \<open>The credentials on the wrong side: missing, or given together with instance principals.\<close>

definition wrong_credentials :: "Config \<Rightarrow> (string \<times> string) list" where
  "wrong_credentials c = filter (\<lambda>(n, v). (v \<noteq> []) = cfgUseInstancePrincipals c) (credentials c)"

definition credential_error :: "Config \<Rightarrow> string \<times> string \<Rightarrow> string \<times> string \<times> string" where
  "credential_error c nv =
     (if cfgUseInstancePrincipals c then (''FieldValueForbidden'', ''auth.'' @ fst nv, principals_msg)
      else (''FieldValueRequired'', ''auth.'' @ fst nv, []))"

lemma Validate_wrong:
  "Validate c = (if wrong_credentials c = [] then None
     else Some (Aggregate (map (credential_error c) (wrong_credentials c))))"
proof -
  have "map (\<lambda>e. (feType e, feField e, feDetail e)) (ValidateConfig c) = map (credential_error c) (wrong_credentials c)"
    by (simp add: ValidateConfig_spec wrong_credentials_def credential_error_def [abs_def] Forbidden_def Required_def
        comp_def case_prod_unfold)
  moreover from this have "ValidateConfig c = [] \<longleftrightarrow> wrong_credentials c = []" by (metis map_is_Nil_conv)
  ultimately show ?thesis
    using Validate_Aggregate [of c] by (cases "Validate c") (auto simp: Validate_def)
qed

text \<open>
  An invalid configuration is refused before anything is asked of the SDK, with one error for each
  credential that is missing or that instance principals exclude, in the order of the fields; a valid
  one gives the SDK exactly the credentials of the file, or the provider of the instance principals.
\<close>

theorem newConfigurationProvider_spec:
  "newConfigurationProvider sdk (Some c) w =
     (if wrong_credentials c \<noteq> [] then
        Some (Err (errors_Wrap (Aggregate (map (credential_error c) (wrong_credentials c))) ''invalid client config''), w)
      else if cfgUseInstancePrincipals c then
        (case sdkInstancePrincipal sdk (clock w) (cloud w) of (r, d, cl) \<Rightarrow>
           Some (case r of Inl e \<Rightarrow> Err (errors_Wrap e ''InstancePrincipalConfigurationProvider'')
               | Inr cp \<Rightarrow> Ok (InstancePrincipals cp),
             w\<lparr>clock := clock w + int d, cloud := cl\<rparr>))
      else Some (Ok (RawConfigurationProvider (authTenancyOCID (cfgAuth c)) (authUserOCID (cfgAuth c))
        (authRegion (cfgAuth c)) (authFingerprint (cfgAuth c)) (authPrivateKey (cfgAuth c))
        (Some (authPrivateKeyPassphrase (cfgAuth c)))), w))"
  by (auto simp: newConfigurationProvider_def Validate_wrong go_simps calls_def go_try_def of_result_def
      split: prod.split sum.split)

text \<open>How \<open>FromConfig\<close> succeeds.\<close>

definition sdk_made :: "'c SDK \<Rightarrow> oci_service \<Rightarrow> BaseClient \<Rightarrow> bool" where
  \<comment> \<open>the SDK returned this client for the service\<close>
  "sdk_made sdk s b \<longleftrightarrow> (\<exists>conf t c d c'. sdkNewClient sdk s conf t c = (Inr b, d, c'))"

definition configured_from :: "'c platform \<Rightarrow> 'c world \<Rightarrow> BaseClient \<Rightarrow> BaseClient \<Rightarrow> bool" where
  \<comment> \<open>\<open>configureCustomTransport\<close> made the second client of the first, in the environment of the state\<close>
  "configured_from pf w b b' \<longleftrightarrow> (\<exists>u. environ u = environ w \<and> configureCustomTransport pf b u = Some (Ok b', u))"

lemma calls_Ok:
  "calls f w = Some (Ok x, w') \<Longrightarrow> (\<exists>t c d c'. f t c = (Inr x, d, c')) \<and> environ w' = environ w \<and> config w' = config w"
  by (auto simp: calls_def of_result_def go_simps split: prod.splits sum.splits)

lemma FromConfig_Ok:
  assumes "FromConfig sdk pf http cfg w = Some (Ok p, w')"
  obtains bs bs' fs vn ident ident' where
    "sdk_made sdk BlockstorageClient bs" "configured_from pf w bs bs'" "blockStorage p = sdkBlockstorage sdk bs'"
    "sdk_made sdk IdentityClient ident" "configured_from pf w ident ident'" "identity p = sdkIdentity sdk ident'"
    "sdk_made sdk FileStorageClient fs" "fileStorage p = sdkFileStorage sdk fs"
    "sdk_made sdk VirtualNetworkClient vn" "virtualNetwork p = sdkVirtualNetwork sdk vn"
    "timeout p = 3 * Minute" "cfgSet p = (cfg \<noteq> None)" "\<And>c. cfg = Some c \<Longrightarrow> config w' = c"
    "environ w' = environ w"
proof -
  have conf_frame: "configureCustomTransport pf b u = Some (r, u') \<Longrightarrow> u' = u" for b u r u'
    by (auto simp: configureCustomTransport_run split: option.splits sum.splits prod.splits)
  have env: "environ u' = environ u" if "keeps extends m" "m u = Some (r, u')" for m :: "('c world, 'x) go" and u r u'
    using keepsD [OF that] by (simp add: extends_def)
  from assms obtain conf w1 ten w2 bs w3 bs' w4 fs w5 vn w6 ident w7 ident' w8 r w9 where
    "newConfigurationProvider sdk cfg w = Some (Ok conf, w1)" "TenancyOCID sdk conf w1 = Some (Ok ten, w2)"
    and bs: "calls (sdkNewClient sdk BlockstorageClient conf) w2 = Some (Ok bs, w3)"
      "configureCustomTransport pf bs w3 = Some (Ok bs', w4)"
    and fs: "calls (sdkNewClient sdk FileStorageClient conf) w4 = Some (Ok fs, w5)"
    and vn: "calls (sdkNewClient sdk VirtualNetworkClient conf) w5 = Some (Ok vn, w6)"
    and ident: "calls (sdkNewClient sdk IdentityClient conf) w6 = Some (Ok ident, w7)"
      "configureCustomTransport pf ident w7 = Some (Ok ident', w8)"
    and md: "invoke CallMetadata Background (metadata_Get (instancemeta_New http)) w8 = Some (Ok r, w9)"
    and fin: "w' = (case cfg of None \<Rightarrow> w9 | Some c \<Rightarrow> w9\<lparr>config := c\<rparr>)"
      "p = \<lparr>cfgSet = cfg \<noteq> None, tenancyID = ten, blockStorage = sdkBlockstorage sdk bs',
       identity = sdkIdentity sdk ident', fileStorage = sdkFileStorage sdk fs, virtualNetwork = sdkVirtualNetwork sdk vn,
       timeout = 3 * Minute, metadata = (case r of Inl _ \<Rightarrow> None | Inr md \<Rightarrow> md)\<rparr>"
    unfolding FromConfig_def go_bind_eq_Ok by (auto simp: go_simps)
  have e: "environ w1 = environ w" "environ w2 = environ w1" "environ w9 = environ w8"
    using env [OF newConfigurationProvider_frame] env [OF TenancyOCID_frame] env [OF extends_invoke] \<open>newConfigurationProvider _ _ _ = _\<close>
      \<open>TenancyOCID _ _ _ = _\<close> md by blast+
  have made: "sdk_made sdk BlockstorageClient bs" "sdk_made sdk FileStorageClient fs" "sdk_made sdk VirtualNetworkClient vn"
    "sdk_made sdk IdentityClient ident"
    using calls_Ok [OF bs(1)] calls_Ok [OF fs] calls_Ok [OF vn] calls_Ok [OF ident(1)] unfolding sdk_made_def by blast+
  have w: "w4 = w3" "w8 = w7" using conf_frame bs(2) ident(2) by blast+
  have "environ w3 = environ w" "environ w7 = environ w"
    using e w calls_Ok [OF bs(1)] calls_Ok [OF fs] calls_Ok [OF vn] calls_Ok [OF ident(1)] by simp_all
  then have "configured_from pf w bs bs'" "configured_from pf w ident ident'" "environ w' = environ w"
    using bs(2) ident(2) e(3) fin(1) unfolding w configured_from_def by (auto split: option.splits)
  with made fin show thesis by (intro that [of bs bs' ident ident' fs vn]) simp_all
qed


definition client_proxy :: "BaseClient \<Rightarrow> string option" where
  "client_proxy b = (case bcHTTPClient b of HttpClient _ (Some (HttpTransport t)) \<Rightarrow> trProxy t | _ \<Rightarrow> None)"

lemma configured_proxy:
  assumes "configured_from pf w b b'" and "env_set w ''OCI_PROXY'' = Some p"
  obtains url where "pfParseURL pf p = Inr url" "client_proxy b' = Some url"
  using assms
  by (auto simp: configured_from_def configureCustomTransport_run client_proxy_def proxied_def trusting_def env_set_def
      split: option.splits sum.splits prod.splits if_splits)

text \<open>
  C27: the proxy is set on two of the four clients only. When \<open>OCI_PROXY\<close> is set, the client that \<open>FromConfig\<close>
  returns sends its requests for block volumes and availability domains through that proxy, but
  the clients for file systems and for the virtual network are those that the SDK constructed, unchanged.
\<close>

theorem FromConfig_proxies:
  assumes "FromConfig sdk pf http cfg w = Some (Ok p, w')" and "env_set w ''OCI_PROXY'' = Some proxy"
  shows "\<exists>url bs ident fs vn. pfParseURL pf proxy = Inr url \<and>
    blockStorage p = sdkBlockstorage sdk bs \<and> client_proxy bs = Some url \<and>
    identity p = sdkIdentity sdk ident \<and> client_proxy ident = Some url \<and>
    fileStorage p = sdkFileStorage sdk fs \<and> sdk_made sdk FileStorageClient fs \<and>
    virtualNetwork p = sdkVirtualNetwork sdk vn \<and> sdk_made sdk VirtualNetworkClient vn"
proof -
  from assms(1) obtain bs bs' fs vn ident ident' where r:
    "configured_from pf w bs bs'" "blockStorage p = sdkBlockstorage sdk bs'"
    "configured_from pf w ident ident'" "identity p = sdkIdentity sdk ident'"
    "sdk_made sdk FileStorageClient fs" "fileStorage p = sdkFileStorage sdk fs"
    "sdk_made sdk VirtualNetworkClient vn" "virtualNetwork p = sdkVirtualNetwork sdk vn"
    by (rule FromConfig_Ok)
  from configured_proxy [OF r(1) assms(2)] configured_proxy [OF r(3) assms(2)] r show ?thesis
    by (metis sum.inject(2))
qed

section \<open>A concrete client\<close>

text \<open>An SDK whose services are the mocks of the unit tests, and a machine whose configuration file asks for instance principals.\<close>

definition plain_client :: BaseClient where
  "plain_client = \<lparr>bcHTTPClient = HttpClient (60 * Second) None, bcHost = []\<rparr>"

definition mock_SDK :: "unit FSS \<Rightarrow> unit Identity \<Rightarrow> unit SDK" where
  "mock_SDK fss ident = \<lparr>sdkInstancePrincipal = answers (Inr ''principal''), sdkTenancyOCID = (\<lambda>_. answers (Inr ''tenancy'')),
     sdkNewClient = (\<lambda>s conf. answers (Inr plain_client)),
     sdkBlockstorage = (\<lambda>_. MockBlockStorageClient ''AVAILABLE''), sdkFileStorage = (\<lambda>_. fss),
     sdkVirtualNetwork = (\<lambda>_. MockVirtualNetworkClient), sdkIdentity = (\<lambda>_. ident)\<rparr>"

definition principals :: "string \<Rightarrow> Config" where
  "principals compartment = zeroConfig\<lparr>cfgUseInstancePrincipals := True, cfgCompartmentOCID := compartment\<rparr>"

definition mock_platform :: "unit platform" where
  "mock_platform = \<lparr>pfParseURL = Inr, pfReadFile = (\<lambda>_ _. Inl (OtherError ''no such file'')), pfCertificates = (\<lambda>_. []),
     pfOpen = (\<lambda>_ _. Inr (Inr [])), pfUnmarshal = (\<lambda>_ _. Inr (Some (principals ''compartment'')))\<rparr>"

definition mock_http :: "unit http_Client" where
  "mock_http = \<lparr>httpNewRequest = Inr,
     httpDo = (\<lambda>_. answers (Inr \<lparr>rspStatusCode = 200, rspBody = Inr (JObject [(''region'', JString ''phx'')])\<rparr>)), httpClose = id\<rparr>"

lemma principals_valid: "wrong_credentials (principals c) = []" "cfgUseInstancePrincipals (principals c)"
  "cfgCompartmentOCID (principals c) = c"
  by (simp_all add: wrong_credentials_def credentials_def principals_def zeroConfig_def zeroAuthConfig_def)

lemma mock_configure:
  assumes "env_set w ''TRUSTED_CA_CERT_PATH'' = None"
  shows "configureCustomTransport mock_platform plain_client w =
    Some (Ok (plain_client\<lparr>bcHTTPClient := HttpClient (60 * Second)
      (Some (HttpTransport (customTransport\<lparr>trProxy := env_set w ''OCI_PROXY''\<rparr>)))\<rparr>), w)"
proof -
  have "customTransport\<lparr>trProxy := None\<rparr> = customTransport" by (simp add: customTransport_def)
  then show ?thesis
    using assms by (simp add: configureCustomTransport_run base_transport_def plain_client_def proxied_def trusting_def mock_platform_def
        split: option.split)
qed

lemma mock_FromConfig:
  assumes "env_set w ''TRUSTED_CA_CERT_PATH'' = None"
  shows "\<exists>p w'. FromConfig (mock_SDK fss ident) mock_platform mock_http (Some (principals c)) w = Some (Ok p, w') \<and>
    fileStorage p = fss \<and> identity p = ident \<and> blockStorage p = MockBlockStorageClient ''AVAILABLE'' \<and>
    virtualNetwork p = MockVirtualNetworkClient"
proof -
  have calls: "calls (answers r) u = of_result r u" for r :: "error + 'x" and u :: "unit world"
    by (cases u) (simp add: calls_def)
  show ?thesis
    by (simp add: FromConfig_def newConfigurationProvider_def Validate_wrong principals_valid go_simps mock_SDK_def calls
        TenancyOCID_def go_try_def go_bind_def mock_configure assms invoke_def split: prod.split)
qed


lemma no_ca: "env_set (initial [''OCI_PROXY'' \<mapsto> p]) ''TRUSTED_CA_CERT_PATH'' = None"
  "p \<noteq> [] \<Longrightarrow> env_set (initial [''OCI_PROXY'' \<mapsto> p]) ''OCI_PROXY'' = Some p"
  by (simp_all add: env_set_def)

theorem configureCustomTransport_Ok_witness:
  "\<exists>tmo t cas. base_transport plain_client = Some (tmo, t) \<and>
    configureCustomTransport mock_platform plain_client (initial [''OCI_PROXY'' \<mapsto> ''proxy'']) =
      Some (Ok (plain_client\<lparr>bcHTTPClient := HttpClient tmo (Some (HttpTransport
        (t\<lparr>trProxy := Some ''proxy'', trRootCAs := cas\<rparr>)))\<rparr>), initial [''OCI_PROXY'' \<mapsto> ''proxy''])"
proof -
  note run = mock_configure [OF no_ca(1)]
  from configureCustomTransport_Ok [OF run [of "''proxy''"]] show ?thesis
    unfolding run no_ca(2) [of "''proxy''", simplified] by (auto simp: mock_platform_def)
qed

theorem FromConfig_proxies_witness:
  "\<exists>p w' bs fs. FromConfig (mock_SDK MockFileStorageClient MockIdentityClient) mock_platform mock_http (Some (principals ''c''))
      (initial [''OCI_PROXY'' \<mapsto> ''proxy'']) = Some (Ok p, w') \<and>
    blockStorage p = sdkBlockstorage (mock_SDK MockFileStorageClient MockIdentityClient) bs \<and> client_proxy bs = Some ''proxy'' \<and>
    fileStorage p = sdkFileStorage (mock_SDK MockFileStorageClient MockIdentityClient) fs \<and> client_proxy fs = None"
proof -
  let ?sdk = "mock_SDK MockFileStorageClient MockIdentityClient"
  obtain p w' where run: "FromConfig ?sdk mock_platform mock_http (Some (principals ''c'')) (initial [''OCI_PROXY'' \<mapsto> ''proxy'']) =
      Some (Ok p, w')"
    using mock_FromConfig [OF no_ca(1)] by blast
  have "sdk_made ?sdk s fs \<Longrightarrow> client_proxy fs = None" for s fs
    by (auto simp: sdk_made_def mock_SDK_def plain_client_def client_proxy_def)
  moreover have "pfParseURL mock_platform x = Inr url \<Longrightarrow> url = x" for x url by (simp add: mock_platform_def)
  ultimately show ?thesis
    using FromConfig_proxies [OF run no_ca(2) [of "''proxy''", simplified]] run by metis
qed

end
