(* ===== verification/Core_Setup.thy ===== *)
theory Core_Setup
  imports Core Client_Setup
begin

text \<open>
  The construction of the provisioner, \<open>NewOCIProvisioner\<close> of \<open>pkg/provisioner/core/provisioner.go\<close>:
  the configuration file, the client, the region and the plugin for the type of the provisioner.
\<close>

definition fatal :: "('s, 'a) go \<Rightarrow> ('s, 'a) go" where
  \<comment> \<open>\<open>if err != nil { logger.Fatal(...) }\<close>\<close>
  "fatal m = go_try m (\<lambda>r. case r of Inl _ \<Rightarrow> exits 1 | Inr x \<Rightarrow> ret x)"

definition ends :: "'a outcome \<Rightarrow> ('s, 'a) go" where
  "ends r s = Some (r, s)"

definition short_region :: "'c http_Client \<Rightarrow> ('c world, string) go" where
  "short_region http =
     go_bind (LookupEnv ''OCI_SHORT_REGION'') (\<lambda>region.
       case region of
         Some r \<Rightarrow> ret r
       | None \<Rightarrow>
           go_bind (invoke CallMetadata Background (metadata_Get (instancemeta_New http))) (\<lambda>r.
           go_bind (of_result r) (\<lambda>md.
           go_bind (deref md) (\<lambda>m. ret (mdRegion m)))))"

definition plugin_for ::
  "'c http_Client \<Rightarrow> 'c ProvisionerClient \<Rightarrow> string \<Rightarrow> string \<Rightarrow> bool \<Rightarrow> Quantity \<Rightarrow> ('c world, 'c ProvisionerPlugin) go" where
  \<comment> \<open>the switch on the type of the provisioner\<close>
  "plugin_for http client region provisionerType roundingEnabled minVolumeSize =
     (if provisionerType = ProvisionerNameDefault then
        NewBlockProvisioner client (metadata_Get (instancemeta_New http)) roundingEnabled minVolumeSize (Minute * 3)
      else if provisionerType = ProvisionerNameBlock then
        NewBlockProvisioner client (metadata_Get (instancemeta_New http)) roundingEnabled minVolumeSize (Minute * 3)
      else if provisionerType = ProvisionerNameFss then NewFilesystemProvisioner client region
      else fail (Errorf ''invalid provisioner type %q'' [FmtS provisionerType]))"

definition NewOCIProvisioner ::
  "'c SDK \<Rightarrow> 'c platform \<Rightarrow> 'c http_Client \<Rightarrow> ('c world \<Rightarrow> error + Node list) \<Rightarrow> ('c world, bool) go \<Rightarrow>
     string \<Rightarrow> string \<Rightarrow> bool \<Rightarrow> Quantity \<Rightarrow> ('c world, 'c OCIProvisioner) go" where
  "NewOCIProvisioner sdk pf http nodeLister nodeListerSynced provisionerType nodeName roundingEnabled minVolumeSize =
     go_bind (LookupEnv ''CONFIG_YAML_FILENAME'') (\<lambda>path.
     go_bind (fatal (go_bind (gets (\<lambda>w. pfOpen pf (or_else path configFilePath) (cloud w))) of_result)) (\<lambda>f.
     go_bind (fatal (ends (LoadConfig (pfUnmarshal pf) (Some f)))) (\<lambda>cfg.
     go_bind (fatal (FromConfig sdk pf http (Some cfg))) (\<lambda>client.
     go_bind (short_region http) (\<lambda>region.
     go_bind (plugin_for http (client_of client) region provisionerType roundingEnabled minVolumeSize) (\<lambda>provisioner.
     ret \<lparr>opClient = client_of client, opNodeLister = nodeLister, opCachesSynced = nodeListerSynced,
       opPlugin = provisioner\<rparr>))))))"

section \<open>Correctness\<close>

lemma fatal_Ok: "fatal m w = Some (Ok x, w') \<longleftrightarrow> m w = Some (Ok x, w')"
  by (auto simp: fatal_def go_try_def go_simps split: option.splits prod.splits outcome.splits)

lemma fatal_Err: "m w = Some (Err e, w') \<Longrightarrow> go_bind (fatal m) k w = Some (Exit 1, w')"
  by (simp add: fatal_def go_bind_def go_try_def go_simps)

lemma fatal_Panic: "m w = Some (Panic p, w') \<Longrightarrow> go_bind (fatal m) k w = Some (Panic p, w')"
  by (simp add: fatal_def go_bind_def go_try_def)

lemma fatal_bind: "m w = Some (Ok x, w') \<Longrightarrow> go_bind (fatal m) k w = k x w'"
  by (simp add: go_bind_def fatal_def go_try_def go_simps)

lemma fatal_Exit: "m w = Some (Exit n, w') \<Longrightarrow> go_bind (fatal m) k w = Some (Exit n, w')"
  by (simp add: go_bind_def fatal_def go_try_def)

lemmas fatal_steps = fatal_bind fatal_Err fatal_Panic fatal_Exit

text \<open>The configuration that the file gives, as \<open>NewOCIProvisioner\<close> reads it.\<close>

definition config_path :: "'c world \<Rightarrow> string" where
  "config_path w = or_else (environ w ''CONFIG_YAML_FILENAME'') configFilePath"

definition loaded_config :: "'c platform \<Rightarrow> 'c world \<Rightarrow> Config outcome" where
  "loaded_config pf w = (case pfOpen pf (config_path w) (cloud w) of
     Inl e \<Rightarrow> Err e | Inr f \<Rightarrow> LoadConfig (pfUnmarshal pf) (Some f))"

lemma NewOCIProvisioner_config:
  "NewOCIProvisioner sdk pf http lister synced ty node rounding minSize w =
     (case loaded_config pf w of
        Ok cfg \<Rightarrow> go_bind (fatal (FromConfig sdk pf http (Some cfg))) (\<lambda>client.
          go_bind (short_region http) (\<lambda>region.
          go_bind (plugin_for http (client_of client) region ty rounding minSize) (\<lambda>provisioner.
          ret \<lparr>opClient = client_of client, opNodeLister = lister, opCachesSynced = synced, opPlugin = provisioner\<rparr>))) w
      | Err e \<Rightarrow> Some (Exit 1, w) | Panic p \<Rightarrow> Some (Panic p, w) | Exit n \<Rightarrow> Some (Exit n, w))"
proof (cases "pfOpen pf (config_path w) (cloud w)")
  case (Inl e)
  then show ?thesis
    by (simp add: NewOCIProvisioner_def go_simps loaded_config_def)
      (rule fatal_Err, simp add: go_simps config_path_def)
next
  case (Inr f)
  let ?l = "LoadConfig (pfUnmarshal pf) (Some f)"
  let ?open = "go_bind (gets (\<lambda>u. pfOpen pf (or_else (environ w ''CONFIG_YAML_FILENAME'') configFilePath) (cloud u))) of_result"
  have f: "go_bind (gets (\<lambda>u. pfOpen pf (or_else (environ w ''CONFIG_YAML_FILENAME'') configFilePath) (cloud u))) of_result w =
      Some (Ok f, w)"
    using Inr by (simp add: go_simps config_path_def)
  show ?thesis
  proof (cases ?l)
    case (Ok cfg)
    then have "ends ?l w = Some (Ok cfg, w)" by (simp add: ends_def)
    with Ok Inr show ?thesis
      by (simp add: NewOCIProvisioner_def go_simps loaded_config_def fatal_bind [of ?open, OF f] fatal_bind)
  next
    case (Err e)
    then have "ends ?l w = Some (Err e, w)" by (simp add: ends_def)
    with Err Inr show ?thesis
      by (simp add: NewOCIProvisioner_def go_simps loaded_config_def fatal_bind [of ?open, OF f] fatal_Err)
  next
    case (Panic p)
    then have "ends ?l w = Some (Panic p, w)" by (simp add: ends_def)
    with Panic Inr show ?thesis
      by (simp add: NewOCIProvisioner_def go_simps loaded_config_def fatal_bind [of ?open, OF f] fatal_Panic)
  next
    case (Exit n)
    then have "ends ?l w = Some (Exit n, w)" by (simp add: ends_def)
    with Exit Inr show ?thesis
      by (simp add: NewOCIProvisioner_def go_simps loaded_config_def fatal_bind [of ?open, OF f] fatal_Exit)
  qed
qed

text \<open>
  C13: every provisioner that the program constructs is one that the properties of the core are about. It has
  the plugin of its type, on the client that \<open>FromConfig\<close> made of the loaded configuration; client
  and block plugin have the same timeout of three minutes; for another type there is no provisioner.
\<close>

theorem NewOCIProvisioner_Ok:
  assumes "NewOCIProvisioner sdk pf http lister synced ty node rounding minSize w = Some (Ok p, w')"
  shows "\<exists>cfg c u. loaded_config pf w = Ok cfg \<and> FromConfig sdk pf http (Some cfg) w = Some (Ok c, u) \<and>
    timeout c = 3 * Minute \<and> cfgSet c \<and> opNodeLister p = lister \<and> opCachesSynced p = synced \<and>
    (ty \<in> {ProvisionerNameDefault, ProvisionerNameBlock} \<and>
       block_core p c \<lparr>bpClient = client_of c, bpMetadata = metadata_Get (instancemeta_New http),
         bpVolumeRoundingEnabled = rounding, bpMinVolumeSize = minSize, bpTimeout = 3 * Minute\<rparr> \<or>
     ty = ProvisionerNameFss \<and> (\<exists>region. fss_core p c \<lparr>fspClient = client_of c, fspRegion = region\<rparr> \<and>
       (\<forall>r. environ w ''OCI_SHORT_REGION'' = Some r \<longrightarrow> region = r)))"
proof -
  from assms obtain cfg where cfg: "loaded_config pf w = Ok cfg"
    by (auto simp: NewOCIProvisioner_config split: outcome.splits)
  with assms obtain c u region u1 pl u2 where r: "FromConfig sdk pf http (Some cfg) w = Some (Ok c, u)"
    "short_region http u = Some (Ok region, u1)"
    "plugin_for http (client_of c) region ty rounding minSize u1 = Some (Ok pl, u2)"
    "p = \<lparr>opClient = client_of c, opNodeLister = lister, opCachesSynced = synced, opPlugin = pl\<rparr>"
    by (auto simp: NewOCIProvisioner_config go_bind_eq_Ok fatal_Ok go_simps)
  obtain t: "timeout c = 3 * Minute" "cfgSet c" "environ u = environ w"
    using r(1) by (rule FromConfig_Ok) simp
  then have region: "environ w ''OCI_SHORT_REGION'' = Some s \<Longrightarrow> region = s" for s
    using r(2) by (simp add: short_region_def go_simps)
  have "ty \<in> {ProvisionerNameDefault, ProvisionerNameBlock} \<and>
       block_core p c \<lparr>bpClient = client_of c, bpMetadata = metadata_Get (instancemeta_New http),
         bpVolumeRoundingEnabled = rounding, bpMinVolumeSize = minSize, bpTimeout = 3 * Minute\<rparr> \<or>
     ty = ProvisionerNameFss \<and> fss_core p c \<lparr>fspClient = client_of c, fspRegion = region\<rparr>"
    using r(3,4)
    by (auto simp: plugin_for_def NewBlockProvisioner_def NewFilesystemProvisioner_def go_bind_eq_Ok go_simps Let_def
        block_core_def fss_core_def mult.commute split: if_splits)
  with cfg r(1) t region r(4) show ?thesis by auto
qed


text \<open>
  C26: without a usable configuration there is no provisioner, and no request. If the file cannot be opened,
  read or decoded, or its credentials are on the wrong side, the process exits with status 1. But a
  file whose YAML document is null leaves the pointer to the configuration nil, and the process panics.
\<close>

theorem NewOCIProvisioner_bad_config:
  assumes "\<And>cfg. loaded_config pf w = Ok cfg \<Longrightarrow> wrong_credentials cfg \<noteq> []"
  shows "NewOCIProvisioner sdk pf http lister synced ty node rounding minSize w =
    Some (if \<exists>b. pfOpen pf (config_path w) (cloud w) = Inr (Inr b) \<and> pfUnmarshal pf b zeroConfig = Inr None
          then Panic NilDereference else Exit 1, w)"
proof (cases "loaded_config pf w")
  case (Ok cfg)
  then have "FromConfig sdk pf http (Some cfg) w =
      Some (Err (errors_Wrap (Aggregate (map (credential_error cfg) (wrong_credentials cfg))) ''invalid client config''), w)"
    using assms by (simp add: FromConfig_def newConfigurationProvider_def Validate_wrong go_simps)
  then show ?thesis
    using Ok by (auto simp: NewOCIProvisioner_config fatal_Err, auto simp: loaded_config_def LoadConfig_def split: sum.splits)
qed (auto simp: NewOCIProvisioner_config, auto simp: loaded_config_def LoadConfig_def split: sum.splits option.splits)

section \<open>Concrete runs\<close>

abbreviation mock_env :: strmap where "mock_env \<equiv> [''OCI_SHORT_REGION'' \<mapsto> ''phx'']"

lemma mock_NewOCIProvisioner:
  assumes "environ w ''OCI_SHORT_REGION'' = Some region" and "env_set w ''TRUSTED_CA_CERT_PATH'' = None"
    and "ty \<in> {ProvisionerNameDefault, ProvisionerNameBlock}"
  shows "\<exists>p w'. NewOCIProvisioner (mock_SDK fss ident) mock_platform mock_http lister synced ty node rounding minSize w =
    Some (Ok p, w') \<and> opCachesSynced p = synced"
proof -
  have loaded: "loaded_config mock_platform w = Ok (principals ''compartment'')"
    by (simp add: loaded_config_def mock_platform_def LoadConfig_def Complete_def principals_valid)
  obtain c u where run: "FromConfig (mock_SDK fss ident) mock_platform mock_http (Some (principals ''compartment'')) w = Some (Ok c, u)"
    using mock_FromConfig [OF assms(2), of fss ident "''compartment''"] by auto
  obtain t: "cfgSet c" "environ u = environ w" "config u = principals ''compartment''"
    using run by (rule FromConfig_Ok) simp
  let ?p = "let b = \<lparr>bpClient = client_of c, bpMetadata = metadata_Get (instancemeta_New mock_http),
        bpVolumeRoundingEnabled = rounding, bpMinVolumeSize = minSize, bpTimeout = Minute * 3\<rparr>
        in \<lparr>plProvision = block_Provision b, plDelete = block_Delete b\<rparr>"
  have "pcCompartmentOCID (client_of c) u = Some (Ok ''compartment'', u)"
    using CompartmentOCID_configured [OF t(1), of u] t(3) by (simp add: client_of_def principals_valid)
  then have "NewBlockProvisioner (client_of c) (metadata_Get (instancemeta_New mock_http)) rounding minSize (Minute * 3) u = Some (Ok ?p, u)"
    by (simp add: NewBlockProvisioner_def go_bind_def Let_def go_simps)
  then have "plugin_for mock_http (client_of c) region ty rounding minSize u = Some (Ok ?p, u)"
    using assms(3) by (auto simp: plugin_for_def)
  moreover have "short_region mock_http u = Some (Ok region, u)"
    using assms(1) by (simp add: short_region_def go_simps t(2))
  ultimately show ?thesis
    by (simp add: NewOCIProvisioner_config loaded go_bind_def [of "fatal (FromConfig _ _ _ _)"]
        fatal_Ok [of "FromConfig _ _ _ _", THEN iffD2, OF run] go_bind_def [of "short_region _"] go_bind_def [of "plugin_for _ _ _ _ _ _"] go_simps)
qed

theorem NewOCIProvisioner_Ok_witness:
  "\<exists>p w' c b. NewOCIProvisioner (mock_SDK MockFileStorageClient MockIdentityClient) mock_platform mock_http
      (\<lambda>_. Inr []) (ret True) ProvisionerNameBlock ''node'' True (GiB 50) (initial mock_env) = Some (Ok p, w') \<and>
    block_core p c b \<and> bpTimeout b = 3 * Minute \<and> timeout c = 3 * Minute"
proof -
  obtain p w' where run: "NewOCIProvisioner (mock_SDK MockFileStorageClient MockIdentityClient) mock_platform mock_http
      (\<lambda>_. Inr []) (ret True) ProvisionerNameBlock ''node'' True (GiB 50) (initial mock_env) = Some (Ok p, w')"
    using mock_NewOCIProvisioner [of "initial mock_env" "''phx''" ProvisionerNameBlock] by (fastforce simp: env_set_def)
  from NewOCIProvisioner_Ok [OF run] obtain c where "timeout c = 3 * Minute"
    "block_core p c \<lparr>bpClient = client_of c, bpMetadata = metadata_Get (instancemeta_New mock_http),
         bpVolumeRoundingEnabled = True, bpMinVolumeSize = GiB 50, bpTimeout = 3 * Minute\<rparr>"
    by auto
  with run show ?thesis by (metis blockProvisioner.select_convs(5))
qed

theorem NewOCIProvisioner_bad_config_witness:
  "NewOCIProvisioner (mock_SDK MockFileStorageClient MockIdentityClient) (mock_platform\<lparr>pfUnmarshal := (\<lambda>_ _. Inr None)\<rparr>) mock_http
      (\<lambda>_. Inr []) (ret True) ProvisionerNameBlock ''node'' True (GiB 50) (initial mock_env) =
    Some (Panic NilDereference, initial mock_env)"
proof -
  let ?pf = "mock_platform\<lparr>pfUnmarshal := (\<lambda>_ _. Inr None)\<rparr>"
  have "loaded_config ?pf (initial mock_env) \<noteq> Ok cfg" for cfg
    by (simp add: loaded_config_def mock_platform_def LoadConfig_def)
  then show ?thesis
    by (subst NewOCIProvisioner_bad_config) (auto simp: mock_platform_def)
qed

end
