(* ===== verification/Logging.thy ===== *)
theory Logging
  imports Go_Library
begin

text \<open>
  The logger, \<open>pkg/logging/logging.go\<close>: the fields that the environment adds to every entry, and the
  construction of the logger from the package's flags, with what it uses of the vendored \<open>zap\<close>
  (\<open>NewDevelopmentConfig\<close>, \<open>NewProductionConfig\<close>, \<open>Config.Build\<close> and its options).
\<close>

section \<open>Fields from the environment\<close>

abbreviation logfieldPrefix :: string where "logfieldPrefix \<equiv> ''LOG_FIELD_''"

type_synonym Field = "string \<times> string"

fun FieldsFromEnv :: "string list \<Rightarrow> Field list" where
  "FieldsFromEnv [] = []"
| "FieldsFromEnv (s # env) =
     (if \<not> HasPrefix s logfieldPrefix \<or> length s < length logfieldPrefix + 1 then FieldsFromEnv env
      else (let parts = SplitN (drop (length logfieldPrefix) s) (CHR ''='') 2 in
            if length parts \<noteq> 2 then FieldsFromEnv env
            else (parts ! 0, parts ! 1) # FieldsFromEnv env))"

section \<open>The logger\<close>

datatype Level = DebugLevel | InfoLevel | WarnLevel | ErrorLevel | DPanicLevel | PanicLevel | FatalLevel

datatype TimeEncoder = EpochTimeEncoder | ISO8601TimeEncoder

datatype WriteSyncer =
    Paths "string list"
  | Lumberjack string nat nat nat \<comment> \<open>file, megabytes, backups, days\<close>

datatype LevelEnabler =
    ConfigLevel \<comment> \<open>the \<open>AtomicLevel\<close> of the package's configuration\<close>
  | FixedLevel Level

record zap_Config =
  zcLevel :: Level
  zcDevelopment :: bool
  zcSampling :: bool
  zcEncoding :: string
  zcEncodeTime :: TimeEncoder
  zcOutputPaths :: "string list"

record zap_Core =
  coEncoding :: string
  coEncodeTime :: TimeEncoder
  coOutput :: WriteSyncer
  coEnabler :: LevelEnabler
  coSampled :: bool
  coFields :: "Field list"

record zap_Logger =
  lgCore :: zap_Core
  lgDevelopment :: bool
  lgStacktrace :: Level

type_synonym Option = "zap_Logger \<Rightarrow> zap_Logger"

definition WrapCore :: "(zap_Core \<Rightarrow> zap_Core) \<Rightarrow> Option" where
  "WrapCore f l = l\<lparr>lgCore := f (lgCore l)\<rparr>"

definition AddStacktrace :: "Level \<Rightarrow> Option" where
  "AddStacktrace level l = l\<lparr>lgStacktrace := level\<rparr>"

definition With :: "Field list \<Rightarrow> zap_Core \<Rightarrow> zap_Core" where
  "With fs c = c\<lparr>coFields := coFields c @ fs\<rparr>"

definition NewDevelopmentConfig :: zap_Config where
  "NewDevelopmentConfig = \<lparr>zcLevel = DebugLevel, zcDevelopment = True, zcSampling = False, zcEncoding = ''console'',
     zcEncodeTime = ISO8601TimeEncoder, zcOutputPaths = [''stderr'']\<rparr>"

definition NewProductionConfig :: zap_Config where
  "NewProductionConfig = \<lparr>zcLevel = InfoLevel, zcDevelopment = False, zcSampling = True, zcEncoding = ''json'',
     zcEncodeTime = EpochTimeEncoder, zcOutputPaths = [''stderr'']\<rparr>"

text \<open>
  \<open>Build\<close>: only the two encodings that \<open>zap\<close> registers itself are known; the options are applied in
  order to the logger that the configuration describes. Opening the standard error cannot fail.
\<close>

definition Build :: "zap_Config \<Rightarrow> Option list \<Rightarrow> error + zap_Logger" where
  "Build c opts =
     (if zcEncoding c \<notin> {''console'', ''json''} then Inl (Errorf ''no encoder registered for name %q'' [FmtS (zcEncoding c)])
      else Inr (fold (\<lambda>opt l. opt l) opts
        \<lparr>lgCore = \<lparr>coEncoding = zcEncoding c, coEncodeTime = zcEncodeTime c, coOutput = Paths (zcOutputPaths c),
           coEnabler = ConfigLevel, coSampled = zcSampling c, coFields = []\<rparr>,
         lgDevelopment = zcDevelopment c,
         lgStacktrace = (if zcDevelopment c then WarnLevel else ErrorLevel)\<rparr>))"

text \<open>The variables of the package; the first three are set by flags.\<close>

record log_vars =
  lvl :: Level
  logJSON :: bool
  logfilePath :: string
  log_config :: "zap_Config option"

definition init_log_vars :: log_vars where
  "init_log_vars = \<lparr>lvl = InfoLevel, logJSON = False, logfilePath = [], log_config = None\<rparr>"

definition file_core :: "log_vars \<Rightarrow> zap_Config \<Rightarrow> zap_Core" where
  \<comment> \<open>the core that writes to the log file\<close>
  "file_core v cfg = \<lparr>coEncoding = (if logJSON v then ''json'' else ''console''), coEncodeTime = zcEncodeTime cfg,
     coOutput = Lumberjack (logfilePath v) 10 3 28, coEnabler = FixedLevel (lvl v), coSampled = False, coFields = []\<rparr>"

definition log_options :: "string list \<Rightarrow> log_vars \<Rightarrow> zap_Config \<Rightarrow> Option list" where
  "log_options env v cfg =
     [AddStacktrace FatalLevel, WrapCore (With (FieldsFromEnv env))]
     @ (if logfilePath v \<noteq> [] then [WrapCore (\<lambda>_. file_core v cfg)] else [])"

definition Logger :: "string list \<Rightarrow> (log_vars, zap_Logger) go" where
  \<comment> \<open>the argument is \<open>os.Environ()\<close>\<close>
  "Logger env =
     go_bind (gets (\<lambda>v. if \<not> logJSON v then NewDevelopmentConfig else NewProductionConfig)) (\<lambda>cfg.
     go_bind (gets (\<lambda>v. log_options env v cfg)) (\<lambda>options.
     go_bind (modifies (\<lambda>v. if log_config v = None
       then v\<lparr>log_config := Some (cfg\<lparr>zcLevel := lvl v, zcEncodeTime := ISO8601TimeEncoder\<rparr>)\<rparr> else v)) (\<lambda>_.
     go_bind (gets log_config) (\<lambda>c.
     go_bind (deref c) (\<lambda>config.
       case Build config options of
         Inl err \<Rightarrow> panics (PanicError err)
       | Inr logger \<Rightarrow> ret logger)))))"

section \<open>The fields\<close>

text \<open>The entry of the environment that asks for a field, and what an entry asks for.\<close>

definition field_entry :: "Field \<Rightarrow> string" where
  "field_entry f = logfieldPrefix @ fst f @ ''='' @ snd f"

lemma FieldsFromEnv_append: "FieldsFromEnv (a @ b) = FieldsFromEnv a @ FieldsFromEnv b"
  by (induction a) (auto simp: Let_def)

lemma FieldsFromEnv_entry:
  assumes "CHR ''='' \<notin> set k"
  shows "FieldsFromEnv (field_entry (k, v) # env) = (k, v) # FieldsFromEnv env"
proof -
  have "SplitN (k @ ''='' @ v) (CHR ''='') 2 = [k, v]"
    using cut_at_append [OF assms, of v] by (simp add: SplitN_2)
  moreover have "HasPrefix (field_entry (k, v)) logfieldPrefix" by (simp add: field_entry_def HasPrefix_iff)
  moreover have "drop (length logfieldPrefix) (field_entry (k, v)) = k @ ''='' @ v" "length (field_entry (k, v)) = 11 + length k + length v"
    by (simp_all add: field_entry_def)
  ultimately show ?thesis by (simp only: FieldsFromEnv.simps Let_def) simp
qed

text \<open>
  Every environment variable named \<open>LOG_FIELD_<name>\<close> gives one field, in the order of the environment, and
  nothing else does. The fields, written back as entries, are exactly the entries of that form; a name
  ends at the first equals sign, so that the value may contain others, and it may be empty.
\<close>

theorem FieldsFromEnv_spec:
  "map field_entry (FieldsFromEnv env) = filter (\<lambda>s. \<exists>f. s = field_entry f) env \<and>
    (\<forall>(k, v) \<in> set (FieldsFromEnv env). CHR ''='' \<notin> set k)"
proof (induction env)
  case (Cons s env)
  show ?case
  proof (cases "\<exists>f. s = field_entry f")
    case True
    then obtain k v where "s = logfieldPrefix @ k @ ''='' @ v" by (auto simp: field_entry_def)
    moreover obtain k' v' where cut: "cut_at (CHR ''='') (k @ ''='' @ v) = Some (k', v')"
      by (cases "cut_at (CHR ''='') (k @ ''='' @ v)") (auto simp: cut_at_None)
    ultimately have s: "s = field_entry (k', v')" "CHR ''='' \<notin> set k'"
      using cut_at_SomeD [OF cut] by (simp_all add: field_entry_def)
    have run: "FieldsFromEnv (s # env) = (k', v') # FieldsFromEnv env"
      unfolding s(1) by (rule FieldsFromEnv_entry [OF s(2)])
    show ?thesis unfolding run using Cons True s by simp
  next
    case False
    have "FieldsFromEnv (s # env) = FieldsFromEnv env"
    proof (cases "HasPrefix s logfieldPrefix")
      case True
      then obtain t where t: "s = logfieldPrefix @ t" by (auto simp: HasPrefix_iff prefix_def)
      with False have "CHR ''='' \<notin> set t" by (force simp: field_entry_def dest!: split_list)
      then have "cut_at (CHR ''='') t = None" by (simp add: cut_at_None)
      with t show ?thesis by (simp add: SplitN_2 Let_def)
    qed simp
    then show ?thesis using Cons False by (simp only: filter.simps if_False) simp
  qed
qed simp

theorem FieldsFromEnv_spec_witness:
  "FieldsFromEnv [field_entry (''app'', ''a=b'')] = [(''app'', ''a=b'')] \<and>
    map field_entry (FieldsFromEnv [field_entry (''app'', ''a=b'')]) = [''LOG_FIELD_app=a=b''] \<and> CHR ''='' \<notin> set ''app''"
proof -
  have run: "FieldsFromEnv [field_entry (''app'', ''a=b'')] = [(''app'', ''a=b'')]"
    by (subst FieldsFromEnv_entry) simp_all
  show ?thesis
    using FieldsFromEnv_spec [of "[field_entry (''app'', ''a=b'')]"] unfolding run by (auto simp: field_entry_def)
qed

section \<open>The result of the construction\<close>

text \<open>
  C31: the logger that the flags describe. Without a log file, it writes to the paths of the configuration,
  at the configuration's level, with the fields of the environment; with a log file it writes only to
  that file, at the level of the flag, and without any of those fields: the option that replaces the
  core comes after the one that adds them. The first call fixes the configuration for all later ones.
\<close>

theorem Logger_spec:
  assumes "\<And>c. log_config v = Some c \<Longrightarrow> zcEncoding c \<in> {''console'', ''json''}"
  shows "\<exists>l c. Logger env v = Some (Ok l, v\<lparr>log_config := Some c\<rparr>) \<and> zcEncoding c \<in> {''console'', ''json''} \<and>
    (case log_config v of Some c' \<Rightarrow> c = c'
     | None \<Rightarrow> zcLevel c = lvl v \<and> zcEncoding c = (if logJSON v then ''json'' else ''console'')) \<and>
    lgStacktrace l = FatalLevel \<and>
    (if logfilePath v = []
     then coOutput (lgCore l) = Paths (zcOutputPaths c) \<and> coEnabler (lgCore l) = ConfigLevel \<and>
       coFields (lgCore l) = FieldsFromEnv env
     else coOutput (lgCore l) = Lumberjack (logfilePath v) 10 3 28 \<and> coEnabler (lgCore l) = FixedLevel (lvl v) \<and>
       coFields (lgCore l) = [])"
proof -
  have built: "\<exists>l. Build c (log_options env v cfg) = Inr l \<and> lgStacktrace l = FatalLevel \<and>
      (if logfilePath v = []
       then coOutput (lgCore l) = Paths (zcOutputPaths c) \<and> coEnabler (lgCore l) = ConfigLevel \<and>
         coFields (lgCore l) = FieldsFromEnv env
       else lgCore l = file_core v cfg)" if "zcEncoding c \<in> {''console'', ''json''}" for c cfg
    using that by (auto simp: Build_def log_options_def WrapCore_def AddStacktrace_def With_def)
  show ?thesis
  proof (cases "log_config v")
    case None
    let ?cfg = "if \<not> logJSON v then NewDevelopmentConfig else NewProductionConfig"
    let ?c = "?cfg\<lparr>zcLevel := lvl v, zcEncodeTime := ISO8601TimeEncoder\<rparr>"
    have "zcEncoding ?c \<in> {''console'', ''json''}" by (simp add: NewDevelopmentConfig_def NewProductionConfig_def)
    from built [OF this, of ?cfg] obtain l where l: "Build ?c (log_options env v ?cfg) = Inr l" "lgStacktrace l = FatalLevel"
      "if logfilePath v = []
       then coOutput (lgCore l) = Paths (zcOutputPaths ?c) \<and> coEnabler (lgCore l) = ConfigLevel \<and>
         coFields (lgCore l) = FieldsFromEnv env
       else lgCore l = file_core v ?cfg" by blast
    have "Logger env v = Some (Ok l, v\<lparr>log_config := Some ?c\<rparr>)"
      using None l(1) by (simp add: Logger_def go_simps)
    with None l(2,3) show ?thesis
      by (intro exI [of _ l] exI [of _ ?c]) (simp add: file_core_def NewDevelopmentConfig_def NewProductionConfig_def)
  next
    case (Some c)
    let ?cfg = "if \<not> logJSON v then NewDevelopmentConfig else NewProductionConfig"
    from built [OF assms [OF Some], of ?cfg] obtain l where l: "Build c (log_options env v ?cfg) = Inr l" "lgStacktrace l = FatalLevel"
      "if logfilePath v = []
       then coOutput (lgCore l) = Paths (zcOutputPaths c) \<and> coEnabler (lgCore l) = ConfigLevel \<and>
         coFields (lgCore l) = FieldsFromEnv env
       else lgCore l = file_core v ?cfg" by blast
    have "v\<lparr>log_config := Some c\<rparr> = v" using Some by simp
    moreover have "Logger env v = Some (Ok l, v)"
      using Some l(1) by (simp add: Logger_def go_simps)
    ultimately show ?thesis
      using Some l(2,3) assms [OF Some] by (intro exI [of _ l] exI [of _ c]) (simp add: file_core_def)
  qed
qed

theorem Logger_spec_witness:
  "\<exists>l c. Logger [''LOG_FIELD_app=ovp''] (init_log_vars\<lparr>logfilePath := ''ovp.log''\<rparr>) =
      Some (Ok l, init_log_vars\<lparr>logfilePath := ''ovp.log'', log_config := Some c\<rparr>) \<and>
    coOutput (lgCore l) = Lumberjack ''ovp.log'' 10 3 28 \<and> coFields (lgCore l) = []"
proof -
  let ?v = "init_log_vars\<lparr>logfilePath := ''ovp.log''\<rparr>"
  have v: "log_config ?v = None" "logfilePath ?v = ''ovp.log''" by (simp_all add: init_log_vars_def)
  then have "log_config ?v = Some c \<Longrightarrow> zcEncoding c \<in> {''console'', ''json''}" for c by simp
  from Logger_spec [where v = ?v and env = "[''LOG_FIELD_app=ovp'']", OF this] obtain l c where
    "Logger [''LOG_FIELD_app=ovp''] ?v = Some (Ok l, ?v\<lparr>log_config := Some c\<rparr>)"
    "if logfilePath ?v = [] then coOutput (lgCore l) = Paths (zcOutputPaths c) \<and> coEnabler (lgCore l) = ConfigLevel \<and>
       coFields (lgCore l) = FieldsFromEnv [''LOG_FIELD_app=ovp'']
     else coOutput (lgCore l) = Lumberjack (logfilePath ?v) 10 3 28 \<and> coEnabler (lgCore l) = FixedLevel (lvl ?v) \<and>
       coFields (lgCore l) = []"
    by blast
  then show ?thesis unfolding v by (intro exI [of _ l] exI [of _ c]) simp
qed

end
