(* ===== verification/Flags.thy ===== *)
theory Flags
  imports Logging Metadata
begin

text \<open>
  The command line: the flags that \<open>cmd/main.go\<close> and \<open>pkg/logging/logging.go\<close> register, and the parser of
  package \<open>flag\<close> that sets them (\<open>flag.Parse\<close>, which ends the process on an error). The flags that
  libraries register are a parameter.
\<close>

section \<open>Definitions\<close>

record flag_values =
  flKubeconfig :: string
  flRoundingEnabled :: bool
  flMinVolumeSize :: string
  flMaster :: string
  flLogLevel :: Level
  flLogJSON :: bool
  flLogfilePath :: string

definition default_flags :: flag_values where
  "default_flags = \<lparr>flKubeconfig = [], flRoundingEnabled = True, flMinVolumeSize = ''50Gi'', flMaster = [],
     flLogLevel = InfoLevel, flLogJSON = False, flLogfilePath = []\<rparr>"

text \<open>
  \<open>zapcore.Level.Set\<close>. Lower-casing maps the upper-case letters and, of the other characters, only the
  capital I with a dot to a letter of a level's name.
\<close>

fun ToLower :: "string \<Rightarrow> string" where
  "ToLower [] = []"
| "ToLower [c] = [lower c]"
| "ToLower (c # d # s) =
     (if c = CHR 0xC4 \<and> d = CHR 0xB0 then CHR ''i'' # ToLower s else lower c # ToLower (d # s))"

definition unmarshalText :: "string \<Rightarrow> Level option" where
  "unmarshalText t = map_of
     [(''debug'', DebugLevel), (''DEBUG'', DebugLevel), (''info'', InfoLevel), (''INFO'', InfoLevel), ([], InfoLevel),
      (''warn'', WarnLevel), (''WARN'', WarnLevel), (''error'', ErrorLevel), (''ERROR'', ErrorLevel),
      (''dpanic'', DPanicLevel), (''DPANIC'', DPanicLevel), (''panic'', PanicLevel), (''PANIC'', PanicLevel),
      (''fatal'', FatalLevel), (''FATAL'', FatalLevel)] t"

definition UnmarshalText :: "string \<Rightarrow> Level option" where
  "UnmarshalText t = (case unmarshalText t of Some l \<Rightarrow> Some l | None \<Rightarrow> unmarshalText (ToLower t))"

text \<open>A registered flag: whether it is a bool flag, and what setting it to a string does.\<close>

type_synonym 'v flag = "bool \<times> (string \<Rightarrow> 'v \<Rightarrow> 'v option)"

definition program_flags :: "(string \<times> flag_values flag) list" where
  "program_flags =
     [(''kubeconfig'', False, \<lambda>s v. Some (v\<lparr>flKubeconfig := s\<rparr>)),
      (''rounding-enabled'', True, \<lambda>s v. map_option (\<lambda>b. v\<lparr>flRoundingEnabled := b\<rparr>) (ParseBool s)),
      (''min-volume-size'', False, \<lambda>s v. Some (v\<lparr>flMinVolumeSize := s\<rparr>)),
      (''master'', False, \<lambda>s v. Some (v\<lparr>flMaster := s\<rparr>)),
      (''log-level'', False, \<lambda>s v. map_option (\<lambda>l. v\<lparr>flLogLevel := l\<rparr>) (UnmarshalText s)),
      (''log-json'', True, \<lambda>s v. map_option (\<lambda>b. v\<lparr>flLogJSON := b\<rparr>) (ParseBool s)),
      (''logfile-path'', False, \<lambda>s v. Some (v\<lparr>flLogfilePath := s\<rparr>))]"

text \<open>One argument: the end of the flags, a syntax error, or a flag with a value or without.\<close>

datatype argument = EndOfFlags | BadSyntax | FlagArg string "string option"

definition split_value :: "string \<Rightarrow> argument" where
  \<comment> \<open>the name starts with neither a dash nor an equals sign\<close>
  "split_value name = (case cut_at (CHR ''='') name of
       None \<Rightarrow> FlagArg name None | Some (n, v) \<Rightarrow> FlagArg n (Some v))"

definition read_argument :: "string \<Rightarrow> argument" where
  "read_argument s =
     (if length s < 2 \<or> s ! 0 \<noteq> CHR ''-'' then EndOfFlags
      else if s = ''--'' then EndOfFlags
      else (let name = (if s ! 1 = CHR ''-'' then drop 2 s else drop 1 s) in
            if name = [] \<or> name ! 0 = CHR ''-'' \<or> name ! 0 = CHR ''='' then BadSyntax else split_value name))"

text \<open>\<open>parseOne\<close> in the loop of \<open>Parse\<close>; \<open>None\<close> is an error, on which \<open>flag.Parse\<close> exits with status 2.\<close>

fun parse_flags :: "(string \<Rightarrow> 'v flag option) \<Rightarrow> string list \<Rightarrow> 'v \<Rightarrow> 'v option" where
  "parse_flags formal [] v = Some v"
| "parse_flags formal (s # args) v =
     (case read_argument s of
        EndOfFlags \<Rightarrow> Some v
      | BadSyntax \<Rightarrow> None
      | FlagArg name val \<Rightarrow>
          (case formal name of
             None \<Rightarrow> None
           | Some (True, put) \<Rightarrow>
               (case put (case val of None \<Rightarrow> ''true'' | Some x \<Rightarrow> x) v of
                  None \<Rightarrow> None | Some v' \<Rightarrow> parse_flags formal args v')
           | Some (False, put) \<Rightarrow>
               (case val of
                  Some x \<Rightarrow> (case put x v of None \<Rightarrow> None | Some v' \<Rightarrow> parse_flags formal args v')
                | None \<Rightarrow>
                    (case args of
                       [] \<Rightarrow> None
                     | x # args' \<Rightarrow> (case put x v of None \<Rightarrow> None | Some v' \<Rightarrow> parse_flags formal args' v')))))"

definition formal_flags :: "(string \<Rightarrow> flag_values flag option) \<Rightarrow> string \<Rightarrow> flag_values flag option" where
  \<comment> \<open>the program's flags and those that libraries register\<close>
  "formal_flags libraries name = (case map_of program_flags name of Some f \<Rightarrow> Some f | None \<Rightarrow> libraries name)"

section \<open>Round trip\<close>

text \<open>The command line that gives every flag of the program a value.\<close>

fun level_text :: "Level \<Rightarrow> string" where
  "level_text DebugLevel = ''debug''" | "level_text InfoLevel = ''info''" | "level_text WarnLevel = ''warn''"
| "level_text ErrorLevel = ''error''" | "level_text DPanicLevel = ''dpanic''" | "level_text PanicLevel = ''panic''"
| "level_text FatalLevel = ''fatal''"

definition bool_text :: "bool \<Rightarrow> string" where
  "bool_text b = (if b then ''true'' else ''false'')"

definition command_line :: "flag_values \<Rightarrow> string list" where
  "command_line v =
     [''--kubeconfig='' @ flKubeconfig v, ''--rounding-enabled='' @ bool_text (flRoundingEnabled v),
      ''-min-volume-size'', flMinVolumeSize v, ''--master='' @ flMaster v, ''--log-level='' @ level_text (flLogLevel v),
      ''-log-json='' @ bool_text (flLogJSON v), ''--logfile-path'', flLogfilePath v]"

lemma read_flag:
  assumes "n \<noteq> []" and "CHR ''='' \<notin> set n" and "n ! 0 \<noteq> CHR ''-''"
  shows "read_argument (''--'' @ n @ ''='' @ x) = FlagArg n (Some x)" "read_argument (''-'' @ n @ ''='' @ x) = FlagArg n (Some x)"
    "read_argument (''--'' @ n) = FlagArg n None" "read_argument (''-'' @ n) = FlagArg n None"
proof -
  obtain c m where n: "n = c # m" using assms(1) by (cases n) auto
  have "cut_at (CHR ''='') (n @ CHR ''='' # x) = Some (n, x)" "cut_at (CHR ''='') n = None"
    using cut_at_append [OF assms(2), of x] assms(2) by (simp_all add: cut_at_None)
  then show "read_argument (''--'' @ n @ ''='' @ x) = FlagArg n (Some x)" "read_argument (''-'' @ n @ ''='' @ x) = FlagArg n (Some x)"
    "read_argument (''--'' @ n) = FlagArg n None" "read_argument (''-'' @ n) = FlagArg n None"
    using assms(2,3) n by (auto simp: read_argument_def split_value_def)
qed

lemma UnmarshalText_level [simp]: "UnmarshalText (level_text l) = Some l"
  by (cases l) (simp_all add: UnmarshalText_def unmarshalText_def)

lemma ParseBool_text [simp]: "ParseBool (bool_text b) = Some b"
  by (simp add: ParseBool_def bool_text_def)


text \<open>How one flag is parsed.\<close>

lemma parse_with_value:
  assumes "read_argument s = FlagArg n (Some x)" and "formal n = Some (b, put)" and "put x v = Some v'"
  shows "parse_flags formal (s # args) v = parse_flags formal args v'"
  using assms by (cases b) simp_all

lemma parse_next_value:
  assumes "read_argument s = FlagArg n None" and "formal n = Some (False, put)" and "put x v = Some v'"
  shows "parse_flags formal (s # x # args) v = parse_flags formal args v'"
  using assms by simp

lemma command_line_parses:
  "parse_flags (formal_flags libraries) (command_line v) d = Some v"
proof -
  let ?f = "formal_flags libraries"
  have formal: "?f ''kubeconfig'' = Some (False, \<lambda>s v. Some (v\<lparr>flKubeconfig := s\<rparr>))"
    "?f ''rounding-enabled'' = Some (True, \<lambda>s v. map_option (\<lambda>b. v\<lparr>flRoundingEnabled := b\<rparr>) (ParseBool s))"
    "?f ''min-volume-size'' = Some (False, \<lambda>s v. Some (v\<lparr>flMinVolumeSize := s\<rparr>))"
    "?f ''master'' = Some (False, \<lambda>s v. Some (v\<lparr>flMaster := s\<rparr>))"
    "?f ''log-level'' = Some (False, \<lambda>s v. map_option (\<lambda>l. v\<lparr>flLogLevel := l\<rparr>) (UnmarshalText s))"
    "?f ''log-json'' = Some (True, \<lambda>s v. map_option (\<lambda>b. v\<lparr>flLogJSON := b\<rparr>) (ParseBool s))"
    "?f ''logfile-path'' = Some (False, \<lambda>s v. Some (v\<lparr>flLogfilePath := s\<rparr>))"
    by (simp_all add: formal_flags_def program_flags_def)
  have s1: "parse_flags ?f ((''--'' @ ''kubeconfig'' @ ''='' @ a) # args) d = parse_flags ?f args (d\<lparr>flKubeconfig := a\<rparr>)" for a b l args d
    by (rule parse_with_value [where formal = ?f, OF read_flag(1) formal(1)]) simp_all
  have s2: "parse_flags ?f ((''--'' @ ''rounding-enabled'' @ ''='' @ bool_text b) # args) d = parse_flags ?f args (d\<lparr>flRoundingEnabled := b\<rparr>)" for a b l args d
    by (rule parse_with_value [where formal = ?f, OF read_flag(1) formal(2)]) simp_all
  have s3: "parse_flags ?f ((''-'' @ ''min-volume-size'') # a # args) d = parse_flags ?f args (d\<lparr>flMinVolumeSize := a\<rparr>)" for a b l args d
    by (rule parse_next_value [where formal = ?f, OF read_flag(4) formal(3)]) simp_all
  have s4: "parse_flags ?f ((''--'' @ ''master'' @ ''='' @ a) # args) d = parse_flags ?f args (d\<lparr>flMaster := a\<rparr>)" for a b l args d
    by (rule parse_with_value [where formal = ?f, OF read_flag(1) formal(4)]) simp_all
  have s5: "parse_flags ?f ((''--'' @ ''log-level'' @ ''='' @ level_text l) # args) d = parse_flags ?f args (d\<lparr>flLogLevel := l\<rparr>)" for a b l args d
    by (rule parse_with_value [where formal = ?f, OF read_flag(1) formal(5)]) simp_all
  have s6: "parse_flags ?f ((''-'' @ ''log-json'' @ ''='' @ bool_text b) # args) d = parse_flags ?f args (d\<lparr>flLogJSON := b\<rparr>)" for a b l args d
    by (rule parse_with_value [where formal = ?f, OF read_flag(2) formal(6)]) simp_all
  have s7: "parse_flags ?f ((''--'' @ ''logfile-path'') # a # args) d = parse_flags ?f args (d\<lparr>flLogfilePath := a\<rparr>)" for a b l args d
    by (rule parse_next_value [where formal = ?f, OF read_flag(3) formal(7)]) simp_all
  note steps = s1 [unfolded append.simps] s2 [unfolded append.simps] s3 [unfolded append.simps] s4 [unfolded append.simps]
    s5 [unfolded append.simps] s6 [unfolded append.simps] s7 [unfolded append.simps]
  show ?thesis unfolding command_line_def append.simps steps by simp
qed

text \<open>
  C29: the flags carry every value. Whatever values the flags of the program have, a command line that spells
  them out, with values after an equals sign or in the next argument, with one dash or two, is parsed
  to exactly those values, whatever the flags were before and whatever flags libraries register.
\<close>

theorem parse_command_line:
  "parse_flags (formal_flags libraries) (command_line v) d = Some v"
  by (rule command_line_parses)

end
