(* ===== verification/Signals.thy ===== *)
theory Signals
  imports Go_Prelude
begin

text \<open>
  The shutdown handler, \<open>pkg/signals/signal.go\<close> (with the signals of \<open>signal_posix.go\<close>), as a state
  machine: the runtime delivers signals into a channel of capacity 2, and one goroutine closes the
  stop channel at the first and ends the process at the second. The two interleave freely.
\<close>

section \<open>Definitions\<close>

datatype signal = Interrupt | SIGTERM

definition shutdownSignals :: "signal list" where
  "shutdownSignals = [Interrupt, SIGTERM]"

text \<open>Where the goroutine of \<open>SetupSignalHandler\<close> is; \<open>NotStarted\<close> before that call.\<close>

datatype goroutine = NotStarted | AwaitFirst | Closing | AwaitSecond | Exiting | Exited

record handler =
  onlyOne_closed :: bool \<comment> \<open>\<open>onlyOneSignalHandler\<close>\<close>
  queue :: "signal list" \<comment> \<open>the buffer of \<open>c\<close>\<close>
  stop_closed :: bool
  goroutine_at :: goroutine
  exit_status :: "int option"
  delivered :: "signal list" \<comment> \<open>the shutdown signals since \<open>signal.Notify\<close>, for the statements\<close>

definition new_process :: handler where
  "new_process = \<lparr>onlyOne_closed = False, queue = [], stop_closed = False, goroutine_at = NotStarted,
     exit_status = None, delivered = []\<rparr>"

text \<open>The result is the stop channel, which is the one of the state.\<close>

definition SetupSignalHandler :: "(handler, unit) go" where
  "SetupSignalHandler =
     go_bind (gets onlyOne_closed) (\<lambda>closed.
       if closed then panics CloseOfClosedChannel
       else modifies (\<lambda>h. h\<lparr>onlyOne_closed := True, queue := [], stop_closed := False, goroutine_at := AwaitFirst\<rparr>))"

text \<open>\<open>signal.Notify\<close> does not block: a signal that finds the channel full is dropped.\<close>

definition deliver :: "signal \<Rightarrow> handler \<Rightarrow> handler" where
  "deliver s h = h\<lparr>queue := (if length (queue h) < 2 then queue h @ [s] else queue h), delivered := delivered h @ [s]\<rparr>"

fun goroutine_step :: "handler \<Rightarrow> handler option" where
  \<comment> \<open>the next step of the goroutine; \<open>None\<close> if it is blocked or over\<close>
  "goroutine_step h =
     (case goroutine_at h of
        AwaitFirst \<Rightarrow> (case queue h of [] \<Rightarrow> None | s # q \<Rightarrow> Some (h\<lparr>queue := q, goroutine_at := Closing\<rparr>))
      | Closing \<Rightarrow> Some (h\<lparr>stop_closed := True, goroutine_at := AwaitSecond\<rparr>)
      | AwaitSecond \<Rightarrow> (case queue h of [] \<Rightarrow> None | s # q \<Rightarrow> Some (h\<lparr>queue := q, goroutine_at := Exiting\<rparr>))
      | Exiting \<Rightarrow> Some (h\<lparr>exit_status := Some 1, goroutine_at := Exited\<rparr>)
      | _ \<Rightarrow> None)"

declare goroutine_step.simps [simp del]

inductive sig_step :: "handler \<Rightarrow> handler \<Rightarrow> bool" where
  signalled: "exit_status h = None \<Longrightarrow> goroutine_at h \<noteq> NotStarted \<Longrightarrow> s \<in> set shutdownSignals \<Longrightarrow> sig_step h (deliver s h)"
| stepped: "goroutine_step h = Some h' \<Longrightarrow> sig_step h h'"

inductive reachable :: "handler \<Rightarrow> bool" where
  installed: "SetupSignalHandler new_process = Some (Ok (), h) \<Longrightarrow> reachable h"
| step: "reachable h \<Longrightarrow> sig_step h h' \<Longrightarrow> reachable h'"

section \<open>Invariant\<close>

text \<open>How many signals the goroutine has received.\<close>

fun received :: "goroutine \<Rightarrow> nat" where
  "received NotStarted = 0" | "received AwaitFirst = 0"
| "received Closing = 1" | "received AwaitSecond = 1"
| "received Exiting = 2" | "received Exited = 2"

text \<open>Nothing is received that was not delivered, and of the first two signals none is lost.\<close>

definition handler_ok :: "handler \<Rightarrow> bool" where
  "handler_ok h \<longleftrightarrow> onlyOne_closed h \<and> goroutine_at h \<noteq> NotStarted \<and>
     received (goroutine_at h) + length (queue h) \<le> length (delivered h) \<and>
     min 2 (length (delivered h)) \<le> received (goroutine_at h) + length (queue h) \<and>
     (stop_closed h \<longleftrightarrow> goroutine_at h \<in> {AwaitSecond, Exiting, Exited}) \<and>
     exit_status h = (if goroutine_at h = Exited then Some 1 else None)"

inductive_cases sig_stepE: "sig_step h h'"

lemma handler_ok_step: "goroutine_step h = Some h' \<Longrightarrow> handler_ok h \<Longrightarrow> handler_ok h'"
  by (cases "goroutine_at h"; cases "queue h") (auto simp: goroutine_step.simps handler_ok_def)

lemma handler_ok_deliver: "handler_ok h \<Longrightarrow> handler_ok (deliver s h)"
  by (auto simp: handler_ok_def deliver_def)

lemma reachable_ok: "reachable h \<Longrightarrow> handler_ok h"
proof (induction rule: reachable.induct)
  case (installed h)
  then show ?case
    by (auto simp: SetupSignalHandler_def new_process_def go_simps handler_ok_def)
next
  case (step h h')
  then show ?case by (auto elim!: sig_stepE intro: handler_ok_step handler_ok_deliver)
qed

text \<open>
  C32: the stop channel is closed only after a shutdown signal, and the process is ended, with status 1, only
  after a second one and after the stop channel was closed.
\<close>

theorem handler_safe:
  assumes "reachable h"
  shows "(stop_closed h \<longrightarrow> delivered h \<noteq> []) \<and>
    (\<forall>n. exit_status h = Some n \<longrightarrow> n = 1 \<and> stop_closed h \<and> 2 \<le> length (delivered h))"
  using reachable_ok [OF assms]
  by (cases "goroutine_at h") (auto simp: handler_ok_def split: if_splits)

section \<open>Progress\<close>

fun run_goroutine :: "nat \<Rightarrow> handler \<Rightarrow> handler" where
  \<comment> \<open>at most so many steps of the goroutine alone\<close>
  "run_goroutine 0 h = h"
| "run_goroutine (Suc n) h = (case goroutine_step h of None \<Rightarrow> h | Some h' \<Rightarrow> run_goroutine n h')"

lemma run_goroutine_reachable: "reachable h \<Longrightarrow> reachable (run_goroutine n h)"
  by (induction n arbitrary: h) (auto split: option.split intro: reachable.step sig_step.stepped)

fun steps_left :: "goroutine \<Rightarrow> nat" where
  "steps_left AwaitFirst = 4" | "steps_left Closing = 3" | "steps_left AwaitSecond = 2" | "steps_left Exiting = 1"
| "steps_left _ = 0"

lemma goroutine_step_left: "goroutine_step h = Some h' \<Longrightarrow> steps_left (goroutine_at h') < steps_left (goroutine_at h)"
  by (cases "goroutine_at h"; cases "queue h") (auto simp: goroutine_step.simps)

lemma goroutine_step_delivered: "goroutine_step h = Some h' \<Longrightarrow> delivered h' = delivered h"
  by (cases "goroutine_at h"; cases "queue h") (auto simp: goroutine_step.simps)

lemma run_goroutine_delivered [simp]: "delivered (run_goroutine n h) = delivered h"
  by (induction n arbitrary: h) (auto split: option.split dest: goroutine_step_delivered)

lemma run_goroutine_blocked: "steps_left (goroutine_at h) \<le> n \<Longrightarrow> goroutine_step (run_goroutine n h) = None"
proof (induction n arbitrary: h)
  case 0
  then show ?case by (cases "goroutine_at h") (simp_all add: goroutine_step.simps)
next
  case (Suc n)
  then show ?case by (auto split: option.split dest: goroutine_step_left)
qed

lemma blocked_iff:
  "goroutine_step h = None \<longleftrightarrow>
    goroutine_at h \<in> {NotStarted, Exited} \<or> goroutine_at h \<in> {AwaitFirst, AwaitSecond} \<and> queue h = []"
  by (cases "goroutine_at h"; cases "queue h") (simp_all add: goroutine_step.simps)

text \<open>
  The handler reacts. However the delivery of signals interleaved with the goroutine so far, four steps of
  the goroutine are enough to close the stop channel if a shutdown signal was delivered, and to end the
  process if a second one was: the channel holds two signals, so neither of the first two is dropped.
\<close>

theorem handler_live:
  assumes "reachable h"
  shows "(delivered h \<noteq> [] \<longrightarrow> stop_closed (run_goroutine 4 h)) \<and>
    (2 \<le> length (delivered h) \<longrightarrow> exit_status (run_goroutine 4 h) = Some 1)"
proof -
  let ?h = "run_goroutine 4 h"
  have ok: "handler_ok ?h" by (rule reachable_ok [OF run_goroutine_reachable [OF assms]])
  have "steps_left (goroutine_at h) \<le> 4" by (cases "goroutine_at h") simp_all
  then have "goroutine_step ?h = None" by (rule run_goroutine_blocked)
  with ok show ?thesis
    by (auto simp: blocked_iff handler_ok_def Suc_le_eq min_def split: if_splits)
qed

text \<open>
  The handler is installed at most once: a second call panics, and changes nothing.
\<close>

theorem SetupSignalHandler_once:
  assumes "reachable h"
  shows "SetupSignalHandler h = Some (Panic CloseOfClosedChannel, h)"
  using reachable_ok [OF assms] by (simp add: SetupSignalHandler_def go_simps handler_ok_def)

section \<open>A concrete run\<close>

definition after_two :: handler where
  "after_two = \<lparr>onlyOne_closed = True, queue = [SIGTERM, Interrupt], stop_closed = False, goroutine_at = AwaitFirst,
     exit_status = None, delivered = [SIGTERM, Interrupt]\<rparr>"

lemma after_two_reachable: "reachable after_two"
proof -
  let ?h = "new_process\<lparr>onlyOne_closed := True, queue := [], stop_closed := False, goroutine_at := AwaitFirst\<rparr>"
  have "reachable ?h"
    by (rule reachable.installed) (simp add: SetupSignalHandler_def new_process_def go_simps)
  then have "reachable (deliver SIGTERM ?h)"
    by (rule reachable.step) (rule signalled, simp_all add: new_process_def shutdownSignals_def)
  then have "reachable (deliver Interrupt (deliver SIGTERM ?h))"
    by (rule reachable.step) (rule signalled, simp_all add: new_process_def shutdownSignals_def deliver_def)
  then show ?thesis by (simp add: after_two_def deliver_def new_process_def)
qed

theorem handler_safe_witness:
  "exit_status (run_goroutine 4 after_two) = Some 1 \<and> stop_closed (run_goroutine 4 after_two) \<and>
    2 \<le> length (delivered (run_goroutine 4 after_two))"
proof -
  have "exit_status (run_goroutine 4 after_two) = Some 1"
    by (simp add: eval_nat_numeral goroutine_step.simps after_two_def)
  then show ?thesis using handler_safe [OF run_goroutine_reachable [OF after_two_reachable], of 4] by blast
qed

theorem handler_live_witness: "exit_status (run_goroutine 4 after_two) = Some 1"
  using handler_live [OF after_two_reachable] by (simp add: after_two_def)

theorem SetupSignalHandler_once_witness: "SetupSignalHandler after_two = Some (Panic CloseOfClosedChannel, after_two)"
  by (rule SetupSignalHandler_once [OF after_two_reachable])

end
