(* ===== verification/Quantity_Parse.thy ===== *)
theory Quantity_Parse
  imports Quantity
begin

text \<open>
  Reading quantities: \<open>ParseQuantity\<close> of \<open>k8s.io/apimachinery/pkg/api/resource\<close> (vendored), with which the
  program reads the smallest size of a volume. It has a fast path on \<open>int64\<close> and a slow one on decimals
  of arbitrary size; the theorem is that both give the value that the text denotes.
\<close>

section \<open>Definitions\<close>

subsection \<open>Scanning (quantity.go)\<close>

definition ErrFormatWrong :: error where
  "ErrFormatWrong = Errorf (''quantities must match the regular expression '^([+-]?[0-9.]+)([eEinumkKMGTP]*[-+]?[0-9]*)$'' @ [CHR 0x27]) []"

definition ErrNumeric :: error where
  "ErrNumeric = Errorf ''unable to parse numeric part of quantity'' []"

definition ErrSuffix :: error where
  "ErrSuffix = Errorf ''unable to parse quantity's suffix'' []"

definition is_digit :: "char \<Rightarrow> bool" where
  "is_digit c \<longleftrightarrow> digit_value c \<noteq> None"

definition is_suffix_letter :: "char \<Rightarrow> bool" where
  "is_suffix_letter c \<longleftrightarrow> c \<in> set ''eEinumkKMGTP''"

record scanned =
  scPositive :: bool
  scValue :: string
  scNum :: string
  scDenom :: string
  scSuffix :: string

text \<open>The rest of the text from the suffix on, after \<open>n\<close> and \<open>d\<close>.\<close>

definition scan_suffix :: "bool \<Rightarrow> string \<Rightarrow> string \<Rightarrow> string \<Rightarrow> string \<Rightarrow> error + scanned" where
  "scan_suffix positive str num denom rest =
     (let value = take (length str - length rest) str;
          found = Inr \<lparr>scPositive = positive, scValue = value, scNum = num, scDenom = denom, scSuffix = rest\<rparr>;
          letters = dropWhile is_suffix_letter rest in
      if letters = [] then found
      else
        (let exponent = (if hd letters = CHR ''-'' \<or> hd letters = CHR ''+'' then tl letters else letters) in
         if list_all is_digit exponent then found else Inl ErrFormatWrong))"

definition parseQuantityString :: "string \<Rightarrow> error + scanned" where
  "parseQuantityString str =
     (let positive = (str = [] \<or> hd str \<noteq> CHR ''-'');
          unsigned = (if str \<noteq> [] \<and> (hd str = CHR ''-'' \<or> hd str = CHR ''+'') then tl str else str);
          digits = dropWhile (\<lambda>c. c = CHR ''0'') unsigned in
      if digits = [] then
        Inr \<lparr>scPositive = positive, scValue = ''0'', scNum = ''0'', scDenom = [], scSuffix = []\<rparr>
      else
        (let n = takeWhile is_digit digits; r = dropWhile is_digit digits in
         if r = [] then Inr \<lparr>scPositive = positive, scValue = str, scNum = n, scDenom = [], scSuffix = []\<rparr>
         else
           (let num = (if n = [] then ''0'' else n) in
            if hd r = CHR ''.'' then
              (let d = takeWhile is_digit (tl r); r' = dropWhile is_digit (tl r) in
               if r' = [] then Inr \<lparr>scPositive = positive, scValue = str, scNum = num, scDenom = d, scSuffix = []\<rparr>
               else scan_suffix positive str num d r')
            else scan_suffix positive str num [] r)))"

subsection \<open>Numerals\<close>

text \<open>An optional sign and at least one digit (\<open>big.Int.SetString\<close> in base 10).\<close>

definition signed_numeral :: "string \<Rightarrow> int option" where
  "signed_numeral s =
     (let t = (if s \<noteq> [] \<and> (hd s = CHR ''-'' \<or> hd s = CHR ''+'') then tl s else s) in
      if t = [] then None
      else case digits_value 0 t of
        None \<Rightarrow> None
      | Some v \<Rightarrow> Some (if hd s = CHR ''-'' then - int v else int v))"

definition ParseInt64 :: "string \<Rightarrow> int64 option" where
  \<comment> \<open>\<open>strconv.ParseInt(s, 10, 64)\<close>\<close>
  "ParseInt64 s = (case signed_numeral s of None \<Rightarrow> None | Some v \<Rightarrow> if in64 v then Some v else None)"

definition wrap32 :: "int \<Rightarrow> int" where
  "wrap32 x = (x + 2 ^ 31) mod 2 ^ 32 - 2 ^ 31"

subsection \<open>Suffixes (suffix.go)\<close>

abbreviation DecimalSI :: string where "DecimalSI \<equiv> ''DecimalSI''"
abbreviation BinarySI :: string where "BinarySI \<equiv> ''BinarySI''"
abbreviation DecimalExponent :: string where "DecimalExponent \<equiv> ''DecimalExponent''"

definition decSuffixes :: "(string \<times> int) list" where
  "decSuffixes = [(''n'', -9), (''u'', -6), (''m'', -3), ([], 0), (''k'', 3), (''M'', 6), (''G'', 9), (''T'', 12), (''P'', 15), (''E'', 18)]"

definition binSuffixes :: "(string \<times> int) list" where
  "binSuffixes = [(''Ki'', 10), (''Mi'', 20), (''Gi'', 30), (''Ti'', 40), (''Pi'', 50), (''Ei'', 60)]"

definition interpret_suffix :: "string \<Rightarrow> (int \<times> int \<times> string) option" where
  \<comment> \<open>base, exponent and format\<close>
  "interpret_suffix s =
     (case map_of decSuffixes s of
        Some e \<Rightarrow> Some (10, e, DecimalSI)
      | None \<Rightarrow>
          (case map_of binSuffixes s of
             Some e \<Rightarrow> Some (2, e, BinarySI)
           | None \<Rightarrow>
               if 1 < length s \<and> (hd s = CHR ''E'' \<or> hd s = CHR ''e'') then
                 (case ParseInt64 (tl s) of None \<Rightarrow> None | Some parsed \<Rightarrow> Some (10, wrap32 parsed, DecimalExponent))
               else None))"

subsection \<open>Decimals (inf.v0)\<close>

text \<open>\<open>scan\<close>: the characters collected so far, the index of the decimal point, and what is left.\<close>

fun dec_scan :: "string \<Rightarrow> string \<Rightarrow> nat option \<Rightarrow> string \<times> nat option \<times> string" where
  "dec_scan [] unscaled dp = (unscaled, dp, [])"
| "dec_scan (ch # s) unscaled dp =
     (if ch = CHR ''+'' \<or> ch = CHR ''-'' then
        if unscaled \<noteq> [] \<or> dp \<noteq> None then (unscaled, dp, ch # s) else dec_scan s (unscaled @ [ch]) dp
      else if ch = CHR ''.'' then
        if dp \<noteq> None then (unscaled, dp, ch # s) else dec_scan s unscaled (Some (length unscaled))
      else if is_digit ch then dec_scan s (unscaled @ [ch]) dp
      else (unscaled, dp, ch # s))"

definition Dec_SetString :: "string \<Rightarrow> Dec option" where
  "Dec_SetString s =
     (case dec_scan s [] None of (unscaled, dp, rest) \<Rightarrow>
        if list_all (\<lambda>c. \<not> is_digit c) unscaled then None
        else
          (case signed_numeral unscaled of
             None \<Rightarrow> None
           | Some v \<Rightarrow>
               if rest \<noteq> [] then None
               else Some \<lparr>decUnscaled = v,
                 decScale = (case dp of None \<Rightarrow> 0 | Some p \<Rightarrow> wrap32 (int (length unscaled - p)))\<rparr>))"

definition Dec_Neg :: "Dec \<Rightarrow> Dec" where
  "Dec_Neg x = x\<lparr>decUnscaled := - decUnscaled x\<rparr>"

definition quoRem :: "Dec \<Rightarrow> Dec \<Rightarrow> int \<Rightarrow> Dec \<times> int \<times> int" where
  \<comment> \<open>the quotient at the scale \<open>s\<close>, and numerator and denominator of the remainder\<close>
  "quoRem x y s =
     (let shift = wrap32 (s - wrap32 (decScale x - decScale y));
          ix = (if 0 < shift then decUnscaled x * 10 ^ nat shift else decUnscaled x);
          iy = (if shift < 0 then decUnscaled y * 10 ^ nat (- shift) else decUnscaled y) in
      (\<lparr>decUnscaled = ix sdiv iy, decScale = s\<rparr>, ix smod iy, iy))"

definition RoundUp :: "Dec \<Rightarrow> int \<Rightarrow> int \<Rightarrow> Dec" where
  "RoundUp q rA rB = (if sgn rA \<noteq> 0 then q\<lparr>decUnscaled := decUnscaled q + sgn rA * sgn rB\<rparr> else q)"

definition Dec_Round :: "Dec \<Rightarrow> int \<Rightarrow> Dec" where
  \<comment> \<open>\<open>Round(x, s, inf.RoundUp)\<close>\<close>
  "Dec_Round x s = (case quoRem x \<lparr>decUnscaled = 1, decScale = 0\<rparr> s of (q, rA, rB) \<Rightarrow> RoundUp q rA rB)"

definition Unscaled :: "Dec \<Rightarrow> int64 \<times> bool" where
  "Unscaled x = (wrap64 (decUnscaled x), wrap64 (decUnscaled x) = decUnscaled x)"

subsection \<open>The parser\<close>

definition int64Multiply :: "int64 \<Rightarrow> int64 \<Rightarrow> int64 \<times> bool" where
  "int64Multiply a b =
     (if a = 0 \<or> b = 0 \<or> a = 1 \<or> b = 1 then (wrap64 (a * b), True)
      else if a = mostNegative \<or> b = mostNegative then (0, False)
      else let c = wrap64 (a * b) in (c, quo64 c b = a))"

definition zeroAmount :: int64Amount where
  "zeroAmount = \<lparr>amtValue = 0, amtScale = 0\<rparr>"

definition maxAllowed :: Dec where
  "maxAllowed = \<lparr>decUnscaled = 2 ^ 63 - 1, decScale = 0\<rparr>"

definition fast_precision :: "scanned \<Rightarrow> int \<Rightarrow> string \<Rightarrow> int" where
  "fast_precision sc exponent format =
     (if format = BinarySI then
        if 0 \<le> exponent \<and> scDenom sc = [] then 15 - int (length (scNum sc)) - exponent * 3 div 10 - 1 else -1
      else 18 - int (length (scNum sc) + length (scDenom sc)))"

text \<open>The fast path: \<open>None\<close> if the text has to be read as a decimal.\<close>

definition parse_fast :: "scanned \<Rightarrow> int \<Rightarrow> string \<Rightarrow> (error + Quantity) option" where
  "parse_fast sc exponent format =
     (let scale = wrap32 ((if format = BinarySI then 0 else exponent) - int (length (scDenom sc)));
          mantissa = (if format = BinarySI \<and> 0 \<le> exponent \<and> scDenom sc = [] then wrap64 (2 ^ nat exponent) else 1) in
      if 0 \<le> fast_precision sc exponent format \<and> -9 \<le> scale then
        (case ParseInt64 (scNum sc @ scDenom sc) of
           None \<Rightarrow> Some (Inl ErrNumeric)
         | Some value \<Rightarrow>
             (case int64Multiply value mantissa of (result, ok) \<Rightarrow>
                if ok then Some (Inr \<lparr>qtyI = \<lparr>amtValue = if scPositive sc then result else wrap64 (- result), amtScale = scale\<rparr>,
                  qtyD = None, qtyFormat = format\<rparr>)
                else None))
      else None)"

text \<open>\<open>So that no one but us has to think about suffixes, remove it.\<close>\<close>

definition remove_suffix :: "int \<Rightarrow> int \<Rightarrow> Dec \<Rightarrow> Dec" where
  "remove_suffix base exponent amount =
     (if base = 10 then amount\<lparr>decScale := wrap32 (decScale amount + wrap32 (- exponent))\<rparr>
      else if base = 2 then amount\<lparr>decUnscaled := decUnscaled amount * 2 ^ nat exponent\<rparr> else amount)"

definition parse_slow :: "scanned \<Rightarrow> int \<Rightarrow> int \<Rightarrow> string \<Rightarrow> error + Quantity" where
  "parse_slow sc base exponent format =
     (case Dec_SetString (scValue sc) of
        None \<Rightarrow> Inl ErrNumeric
      | Some amount0 \<Rightarrow>
          (let amount1 = remove_suffix base exponent amount0;
               negative = (decUnscaled amount1 < 0);
               amount2 = (if negative then Dec_Neg amount1 else amount1);
               amount3 = (case Unscaled amount2 of (v, ok) \<Rightarrow> if v \<noteq> 0 \<or> \<not> ok then Dec_Round amount2 9 else amount2);
               amount4 = (if format = BinarySI \<and> 0 < Dec_Cmp amount3 maxAllowed then maxAllowed else amount3);
               format' = (if format = BinarySI \<and> Dec_Cmp amount4 \<lparr>decUnscaled = 1, decScale = 0\<rparr> < 0 \<and>
                   0 < Dec_Cmp amount4 \<lparr>decUnscaled = 0, decScale = 0\<rparr> then DecimalSI else format);
               amount5 = (if negative then Dec_Neg amount4 else amount4) in
           Inr \<lparr>qtyI = zeroAmount, qtyD = Some amount5, qtyFormat = format'\<rparr>))"

definition ParseQuantity :: "string \<Rightarrow> error + Quantity" where
  "ParseQuantity str =
     (if str = [] then Inl ErrFormatWrong
      else if str = ''0'' then Inr \<lparr>qtyI = zeroAmount, qtyD = None, qtyFormat = DecimalSI\<rparr>
      else
        (case parseQuantityString str of
           Inl err \<Rightarrow> Inl err
         | Inr sc \<Rightarrow>
             (case interpret_suffix (scSuffix sc) of
                None \<Rightarrow> Inl ErrSuffix
              | Some (base, exponent, format) \<Rightarrow>
                  (case parse_fast sc exponent format of
                     Some r \<Rightarrow> r
                   | None \<Rightarrow> parse_slow sc base exponent format))))"

section \<open>Numerals and their values\<close>

text \<open>The number that a sequence of digits denotes.\<close>

definition number :: "string \<Rightarrow> nat" where
  "number t = (case digits_value 0 t of None \<Rightarrow> 0 | Some v \<Rightarrow> v)"

lemma is_digit_signs [simp]: "\<not> is_digit (CHR ''+'')" "\<not> is_digit (CHR ''-'')" "\<not> is_digit (CHR ''.'')" "is_digit (CHR ''0'')"
  by (simp_all add: is_digit_def digit_value_def)

lemma digits_value_digits: "list_all is_digit t \<Longrightarrow> digits_value v t \<noteq> None"
  by (induction t arbitrary: v) (auto simp: is_digit_def)

lemma number_digits: "list_all is_digit t \<Longrightarrow> digits_value 0 t = Some (number t)"
  using digits_value_digits [of t 0] by (auto simp: number_def)

lemma digit_value_less: "digit_value c = Some d \<Longrightarrow> d < 10"
  by (auto simp: digit_value_def Let_def split: if_splits)

lemma digits_value_bound: "digits_value v t = Some x \<Longrightarrow> x < Suc v * 10 ^ length t"
proof (induction t arbitrary: v)
  case (Cons c t)
  then obtain d where d: "digit_value c = Some d" "digits_value (10 * v + d) t = Some x" by (auto split: option.splits)
  from Cons.IH [OF d(2)] have "x < Suc (10 * v + d) * 10 ^ length t" .
  also have "\<dots> \<le> (10 * Suc v) * 10 ^ length t"
    using digit_value_less [OF d(1)] by (intro mult_right_mono) simp_all
  finally show ?case by (simp add: algebra_simps)
qed simp

lemma number_bound: "list_all is_digit t \<Longrightarrow> number t < 10 ^ length t"
  using digits_value_bound [of 0 t] by (simp add: number_digits)

lemma digit_value_0 [simp]: "digit_value (CHR ''0'') = Some 0"
  by (simp add: digit_value_def)

lemma digits_value_zeros: "digits_value 0 (dropWhile (\<lambda>c. c = CHR ''0'') t) = digits_value 0 t"
  by (induction t) simp_all

lemma number_zeros: "number ((if dropWhile (\<lambda>c. c = CHR ''0'') t = [] then ''0'' else dropWhile (\<lambda>c. c = CHR ''0'') t) @ f) = number (t @ f)"
proof -
  have "digits_value 0 (if dropWhile (\<lambda>c. c = CHR ''0'') t = [] then ''0'' else dropWhile (\<lambda>c. c = CHR ''0'') t) = digits_value 0 t"
    using digits_value_zeros [of t] by (auto simp del: dropWhile_eq_Nil_conv)
  then show ?thesis by (simp only: number_def digits_value_append)
qed

lemma digits_unsigned:
  assumes "list_all is_digit t" and "t \<noteq> []"
  shows "hd t \<noteq> CHR ''-''" "hd t \<noteq> CHR ''+''"
proof -
  have "is_digit (hd t)" using assms by (cases t) simp_all
  then show "hd t \<noteq> CHR ''-''" "hd t \<noteq> CHR ''+''" by (metis is_digit_signs)+
qed

lemma signed_numeral_digits:
  assumes "list_all is_digit t" and "t \<noteq> []"
  shows "signed_numeral t = Some (int (number t))" "signed_numeral (CHR ''-'' # t) = Some (- int (number t))"
proof -
  note sign = digits_unsigned [OF assms]
  then show "signed_numeral t = Some (int (number t))" using assms by (simp add: signed_numeral_def number_digits)
  show "signed_numeral (CHR ''-'' # t) = Some (- int (number t))" using assms by (simp add: signed_numeral_def number_digits)
qed

text \<open>The texts that are read: a sign, digits, perhaps a fraction, and a suffix.\<close>

definition fraction :: "string option \<Rightarrow> string" where
  "fraction fr = (case fr of None \<Rightarrow> [] | Some f \<Rightarrow> f)"

definition sign_text :: "bool \<Rightarrow> string" where
  "sign_text neg = (if neg then ''-'' else [])"

definition fraction_text :: "string option \<Rightarrow> string" where
  "fraction_text fr = (case fr of None \<Rightarrow> [] | Some f \<Rightarrow> CHR ''.'' # f)"

definition quantity_text :: "bool \<Rightarrow> string \<Rightarrow> string option \<Rightarrow> string \<Rightarrow> string" where
  "quantity_text neg ds fr s = sign_text neg @ ds @ fraction_text fr @ s"

definition numeral_ok :: "string \<Rightarrow> string option \<Rightarrow> bool" where
  "numeral_ok ds fr \<longleftrightarrow> ds \<noteq> [] \<and> list_all is_digit ds \<and> list_all is_digit (fraction fr)"

definition suffixes :: "(string \<times> int \<times> int \<times> string) list" where
  \<comment> \<open>suffix, base, exponent and format\<close>
  "suffixes = map (\<lambda>(s, e). (s, 10, e, DecimalSI)) decSuffixes @ map (\<lambda>(s, e). (s, 2, e, BinarySI)) binSuffixes"

definition suffix_ok :: "string \<times> int \<times> int \<times> string \<Rightarrow> bool" where
  "suffix_ok t = (case t of (s, base, e, fmt) \<Rightarrow> interpret_suffix s = Some (base, e, fmt) \<and> list_all is_suffix_letter s \<and>
     (base = 10 \<and> fmt = DecimalSI \<and> -9 \<le> e \<and> e \<le> 18 \<or> base = 2 \<and> fmt = BinarySI \<and> e \<in> {10, 20, 30, 40, 50, 60}))"

lemma suffixes_ok: "list_all suffix_ok suffixes"
  by code_simp

lemma suffix_cases:
  assumes "(s, base, e, fmt) \<in> set suffixes"
  shows "interpret_suffix s = Some (base, e, fmt)" "list_all is_suffix_letter s"
    "base = 10 \<and> fmt = DecimalSI \<and> -9 \<le> e \<and> e \<le> 18 \<or> base = 2 \<and> fmt = BinarySI \<and> e \<in> {10, 20, 30, 40, 50, 60}"
proof -
  have "suffix_ok (s, base, e, fmt)" using suffixes_ok assms by (simp add: list_all_iff)
  then show "interpret_suffix s = Some (base, e, fmt)" "list_all is_suffix_letter s"
    "base = 10 \<and> fmt = DecimalSI \<and> -9 \<le> e \<and> e \<le> 18 \<or> base = 2 \<and> fmt = BinarySI \<and> e \<in> {10, 20, 30, 40, 50, 60}"
    by (simp_all add: suffix_ok_def)
qed

lemma letter_not_digit: "is_suffix_letter c \<Longrightarrow> \<not> is_digit c \<and> c \<noteq> CHR ''.''"
  by (auto simp: is_suffix_letter_def is_digit_def digit_value_def)

section \<open>Scanning\<close>

lemma dec_scan_digits: "list_all is_digit t \<Longrightarrow> dec_scan (t @ s) u dp = dec_scan s (u @ t) dp"
proof (induction t arbitrary: u)
  case (Cons c t)
  then have "c \<noteq> CHR ''+''" "c \<noteq> CHR ''-''" "c \<noteq> CHR ''.''" by auto
  with Cons show ?case by simp
qed simp

lemma wrap32_id: "- (2 ^ 31) \<le> x \<Longrightarrow> x < 2 ^ 31 \<Longrightarrow> wrap32 x = x"
  by (simp add: wrap32_def)

lemma Dec_SetString_numeral:
  assumes "numeral_ok ds fr" and "length (fraction fr) < 2 ^ 31"
  shows "Dec_SetString (sign_text neg @ ds @ fraction_text fr) =
    Some \<lparr>decUnscaled = (if neg then - 1 else 1) * int (number (ds @ fraction fr)), decScale = int (length (fraction fr))\<rparr>"
proof -
  let ?u = "sign_text neg @ ds @ fraction fr"
  have d: "list_all is_digit ds" "list_all is_digit (fraction fr)" "ds \<noteq> []"
    using assms(1) by (simp_all add: numeral_ok_def)
  have sign: "dec_scan (sign_text neg @ t) [] None = dec_scan t (sign_text neg) None" for t
    by (simp add: sign_text_def)
  have "dec_scan (sign_text neg @ ds @ fraction_text fr) [] None = dec_scan (fraction_text fr) (sign_text neg @ ds) None"
    using dec_scan_digits [OF d(1)] by (simp add: sign)
  also have "\<dots> = (?u, if fr = None then None else Some (length (sign_text neg @ ds)), [])"
    using dec_scan_digits [OF d(2), of "[]"] by (cases fr) (simp_all add: fraction_def fraction_text_def)
  finally have scan: "dec_scan (sign_text neg @ ds @ fraction_text fr) [] None =
      (?u, if fr = None then None else Some (length (sign_text neg @ ds)), [])" .
  have "\<not> list_all (\<lambda>c. \<not> is_digit c) ?u" using d by (cases ds) auto
  moreover have "signed_numeral ?u = Some ((if neg then - 1 else 1) * int (number (ds @ fraction fr)))"
    using signed_numeral_digits [of "ds @ fraction fr"] d by (simp add: sign_text_def)
  moreover have "wrap32 (int (length (fraction fr))) = int (length (fraction fr))" using assms(2) by (intro wrap32_id) simp_all
  ultimately show ?thesis
    unfolding Dec_SetString_def scan by (cases fr) (simp_all add: fraction_def)
qed

text \<open>What the scanner finds.\<close>

definition scanned_as :: "bool \<Rightarrow> string \<Rightarrow> string option \<Rightarrow> string \<Rightarrow> scanned \<Rightarrow> bool" where
  "scanned_as neg ds fr s sc \<longleftrightarrow> scPositive sc = (\<not> neg) \<and> scSuffix sc = s \<and> scDenom sc = fraction fr \<and>
     scNum sc \<noteq> [] \<and> list_all is_digit (scNum sc) \<and> number (scNum sc @ fraction fr) = number (ds @ fraction fr) \<and>
     Dec_SetString (scValue sc) = Some \<lparr>decUnscaled = (if neg then - 1 else 1) * int (number (ds @ fraction fr)),
       decScale = int (length (fraction fr))\<rparr>"

lemma dropWhile_all: "list_all P t \<Longrightarrow> dropWhile P t = []"
  by (induction t) auto

lemma dropWhile_append_stop: "r = [] \<or> \<not> P (hd r) \<Longrightarrow> dropWhile P (t @ r) = dropWhile P t @ r"
  by (induction t) (auto simp: dropWhile_eq_self_iff)

lemma list_all_dropWhile: "list_all P t \<Longrightarrow> list_all P (dropWhile Q t)"
  by (auto simp: list_all_iff dest: set_dropWhileD)

lemma takeWhile_digits:
  assumes "list_all is_digit n" and "r = [] \<or> \<not> is_digit (hd r)"
  shows "takeWhile is_digit (n @ r) = n" "dropWhile is_digit (n @ r) = r"
  using assms by (induction n) (auto simp: takeWhile_eq_Nil_iff dropWhile_eq_self_iff)

lemma scan_suffix_found:
  assumes "list_all is_suffix_letter s"
  shows "scan_suffix positive (p @ s) num denom s =
    Inr \<lparr>scPositive = positive, scValue = p, scNum = num, scDenom = denom, scSuffix = s\<rparr>"
  by (simp add: scan_suffix_def Let_def dropWhile_all [OF assms])

lemma parseQuantityString_split:
  assumes zeros: "dropWhile (\<lambda>c. c = CHR ''0'')
      (if str \<noteq> [] \<and> (hd str = CHR ''-'' \<or> hd str = CHR ''+'') then tl str else str) = z @ r"
    and "list_all is_digit z" and "r = [] \<or> \<not> is_digit (hd r)" and "z @ r \<noteq> []"
  defines "positive \<equiv> str = [] \<or> hd str \<noteq> CHR ''-''" and "num \<equiv> if z = [] then ''0'' else z"
  shows "r = [] \<Longrightarrow> parseQuantityString str =
      Inr \<lparr>scPositive = positive, scValue = str, scNum = num, scDenom = [], scSuffix = []\<rparr>"
    and "r \<noteq> [] \<Longrightarrow> hd r \<noteq> CHR ''.'' \<Longrightarrow> parseQuantityString str = scan_suffix positive str num [] r"
    and "r \<noteq> [] \<Longrightarrow> hd r = CHR ''.'' \<Longrightarrow> tl r = f @ s \<Longrightarrow> list_all is_digit f \<Longrightarrow> s = [] \<or> \<not> is_digit (hd s) \<Longrightarrow>
      parseQuantityString str =
        (if s = [] then Inr \<lparr>scPositive = positive, scValue = str, scNum = num, scDenom = f, scSuffix = []\<rparr>
         else scan_suffix positive str num f s)"
  using assms(2-4) takeWhile_digits [of z r] takeWhile_digits [of f s]
  unfolding parseQuantityString_def Let_def zeros positive_def num_def by (simp_all add: list_all_iff)

text \<open>What is left of a numeral without its sign and its leading zeros.\<close>

lemma unsigned_text:
  fixes neg :: bool
  assumes "numeral_ok ds fr" and "list_all is_suffix_letter s"
  defines "str \<equiv> quantity_text neg ds fr s"
  shows "str \<noteq> []" "hd str = CHR ''-'' \<longleftrightarrow> neg"
    and "dropWhile (\<lambda>c. c = CHR ''0'') (if str \<noteq> [] \<and> (hd str = CHR ''-'' \<or> hd str = CHR ''+'') then tl str else str) =
      dropWhile (\<lambda>c. c = CHR ''0'') ds @ fraction_text fr @ s"
proof -
  have d: "list_all is_digit ds" "ds \<noteq> []" using assms(1) by (simp_all add: numeral_ok_def)
  note sign = digits_unsigned [OF this]
  have "fraction_text fr @ s = [] \<or> hd (fraction_text fr @ s) \<noteq> CHR ''0''"
    using assms(2) letter_not_digit [of "hd s"] by (cases fr; cases s) (auto simp: fraction_text_def)
  then have "dropWhile (\<lambda>c. c = CHR ''0'') (ds @ fraction_text fr @ s) = dropWhile (\<lambda>c. c = CHR ''0'') ds @ fraction_text fr @ s"
    by (intro dropWhile_append_stop) simp
  then show "str \<noteq> []" "hd str = CHR ''-'' \<longleftrightarrow> neg"
    "dropWhile (\<lambda>c. c = CHR ''0'') (if str \<noteq> [] \<and> (hd str = CHR ''-'' \<or> hd str = CHR ''+'') then tl str else str) =
      dropWhile (\<lambda>c. c = CHR ''0'') ds @ fraction_text fr @ s"
    using sign d by (simp_all add: str_def quantity_text_def sign_text_def)
qed

lemma parseQuantityString_text:
  assumes "numeral_ok ds fr" and "list_all is_suffix_letter s" and "length (fraction fr) < 2 ^ 31"
  shows "\<exists>sc. parseQuantityString (quantity_text neg ds fr s) = Inr sc \<and> scanned_as neg ds fr s sc"
proof -
  let ?str = "quantity_text neg ds fr s" and ?f = "fraction fr" and ?v = "sign_text neg @ ds @ fraction_text fr"
  define z where "z = dropWhile (\<lambda>c. c = CHR ''0'') ds"
  define num where "num = (if z = [] then ''0'' else z)"
  define r where "r = fraction_text fr @ s"
  note unsigned = unsigned_text [OF assms(1,2), of neg, folded z_def r_def]
  have d: "list_all is_digit ds" "list_all is_digit ?f" using assms(1) by (simp_all add: numeral_ok_def)
  have s: "s = [] \<or> \<not> is_digit (hd s) \<and> hd s \<noteq> CHR ''.''"
    using assms(2) letter_not_digit [of "hd s"] by (cases s) auto
  then have r: "r = [] \<or> \<not> is_digit (hd r)" by (cases fr) (auto simp: fraction_text_def r_def)
  have z: "list_all is_digit z" using d(1) by (simp add: z_def list_all_dropWhile)
  have num: "list_all is_digit num" "number (num @ ?f) = number (ds @ ?f)" "num \<noteq> []"
    using z number_zeros [of ds ?f] by (simp add: num_def, simp only: num_def z_def, simp add: num_def)
  note set = Dec_SetString_numeral [OF assms(1,3), of neg]
  have as: "scanned_as neg ds fr s \<lparr>scPositive = \<not> neg, scValue = ?v, scNum = num, scDenom = ?f, scSuffix = s\<rparr>"
    unfolding scanned_as_def using num set by simp
  have str: "?str = ?v @ s" by (simp add: quantity_text_def)
  note found = scan_suffix_found [OF assms(2), of "\<not> neg" ?v]
  show ?thesis
  proof (cases "z @ r = []")
    case True
    then have zero: "z = []" "fr = None" "s = []" by (auto simp: fraction_text_def r_def split: option.splits)
    then have "number (ds @ ?f) = 0" using num(2) by (simp add: fraction_def number_def num_def)
    moreover have "Dec_SetString ''0'' = Some \<lparr>decUnscaled = 0, decScale = 0\<rparr>" by code_simp
    ultimately have "scanned_as neg ds fr s \<lparr>scPositive = \<not> neg, scValue = ''0'', scNum = ''0'', scDenom = [], scSuffix = []\<rparr>"
      using zero by (simp add: scanned_as_def fraction_def number_def)
    then show ?thesis
      unfolding parseQuantityString_def Let_def unsigned(3) using True unsigned(1,2) by simp
  next
    case False
    have positive: "(?str = [] \<or> \<not> neg) = (\<not> neg)" using unsigned(1) by simp
    note split = parseQuantityString_split [OF unsigned(3) z r False, folded num_def, unfolded unsigned(2) positive]
    consider (stop) "r = []" | (suffix) "fr = None" "s \<noteq> []" | (fraction) f where "fr = Some f"
      by (cases fr) (auto simp: fraction_text_def r_def)
    then show ?thesis
    proof cases
      case stop
      then have "fr = None" "s = []" by (auto simp: fraction_text_def r_def split: option.splits)
      then show ?thesis using split(1) [OF stop] as unsigned(1) str by (simp add: fraction_def)
    next
      case suffix
      then have "r = s" by (simp add: r_def fraction_text_def)
      then show ?thesis using split(2) suffix s as unsigned(1) found str by (simp add: fraction_def)
    next
      case (fraction f)
      then have "r \<noteq> []" "hd r = CHR ''.''" "tl r = f @ s" "list_all is_digit f" using d by (simp_all add: r_def fraction_text_def fraction_def)
      then show ?thesis using split(3) [of f s] fraction s as unsigned(1) found str by (auto simp: fraction_def)
    qed
  qed
qed

section \<open>The value of what is read\<close>

definition text_value :: "string \<Rightarrow> string option \<Rightarrow> int \<Rightarrow> int \<Rightarrow> rat" where
  \<comment> \<open>the number that the text denotes, without its sign\<close>
  "text_value ds fr base e = of_nat (number (ds @ fraction fr)) * 10 powi (- int (length (fraction fr))) * of_int base powi e"

definition nano_ceil :: "rat \<Rightarrow> rat" where
  "nano_ceil x = of_int \<lceil>x * 10 ^ 9\<rceil> / 10 ^ 9"

definition cap :: "string \<Rightarrow> rat \<Rightarrow> rat" where
  "cap fmt x = (if fmt = BinarySI then min x (2 ^ 63 - 1) else x)"

definition sign_of :: "bool \<Rightarrow> rat" where
  "sign_of neg = (if neg then -1 else 1)"

lemma nano_ceil_0 [simp]: "nano_ceil 0 = 0"
  by (simp add: nano_ceil_def)

lemma powi_nano: "(10::rat) powi s * 10 ^ 9 = 10 powi (s + 9)"
  using power_int_add [of "10::rat" s 9] by simp

lemma nano_ceil_scaled:
  assumes "-9 \<le> s"
  shows "nano_ceil (of_int u * 10 powi s) = of_int u * 10 powi s"
proof -
  have "of_int u * (10::rat) powi s * 10 ^ 9 = of_int (u * 10 ^ nat (s + 9))"
    using assms by (simp only: mult.assoc powi_nano) (simp add: power_int_def)
  then have "of_int \<lceil>of_int u * (10::rat) powi s * 10 ^ 9\<rceil> = of_int u * (10::rat) powi s * 10 ^ 9"
    by (metis ceiling_of_int)
  then show ?thesis by (simp add: nano_ceil_def)
qed

lemma int64Multiply_ok:
  assumes "in64 a" and "in64 b" and "0 \<le> a" and "0 < b" and "in64 (a * b)"
  shows "int64Multiply a b = (a * b, True)"
proof -
  have "a * b sdiv b = a" using assms(4) by (simp add: signed_divide_int_def abs_mult sgn_mult sgn_mult_abs)
  then show ?thesis
    using assms by (auto simp: int64Multiply_def Let_def wrap64_id quo64_def mostNegative_def)
qed

lemma Dec_Round_ceil:
  assumes "0 \<le> decUnscaled x" and "\<bar>decScale x\<bar> < 2 ^ 30"
  shows "dec_val (Dec_Round x 9) = nano_ceil (dec_val x)"
proof -
  let ?u = "decUnscaled x" and ?n = "9 - decScale x"
  have shift: "wrap32 (9 - wrap32 (decScale x - 0)) = ?n"
    using assms(2) by (simp add: wrap32_id)
  show ?thesis
  proof (cases "0 \<le> ?n")
    case True
    have "dec_val (Dec_Round x 9) = of_int (?u * 10 ^ nat ?n) * 10 powi (-9)"
      unfolding Dec_Round_def quoRem_def Let_def RoundUp_def using True
      by (simp add: shift [simplified] dec_val_def signed_modulo_int_def)
    also have "\<dots> = dec_val x" using powi_shift [of "-9" "- decScale x" ?u] True by (auto simp: dec_val_def)
    also have "\<dots> = nano_ceil (dec_val x)" using True by (simp add: dec_val_def nano_ceil_scaled)
    finally show ?thesis .
  next
    case False
    let ?D = "10 ^ nat (decScale x - 9) :: int"
    have quot: "?u sdiv ?D = ?u div ?D" "?u smod ?D = ?u mod ?D"
      using assms(1) by (simp_all add: sdiv_nonneg signed_modulo_int_def sgn_if)
    have sgn: "sgn (?u mod ?D) = (if ?u mod ?D \<noteq> 0 then 1 else 0)"
      using pos_mod_sign [of ?D ?u] by (simp add: sgn_if less_le)
    have ceil: "\<lceil>of_int ?u / (of_int ?D :: rat)\<rceil> = ?u div ?D + (if ?u mod ?D \<noteq> 0 then 1 else 0)"
      by (rule ceiling_divide_nat) simp
    have nano: "of_int c * 10 powi (-9) = (of_int c / 10 ^ 9 :: rat)" for c :: int
      using powi_minus_divide [of 9 c] by simp
    have "Dec_Round x 9 = \<lparr>decUnscaled = ?u div ?D + (if ?u mod ?D \<noteq> 0 then 1 else 0), decScale = 9\<rparr>"
      unfolding Dec_Round_def quoRem_def Let_def RoundUp_def using False
      by (simp add: shift [simplified] quot sgn)
    then have "dec_val (Dec_Round x 9) = of_int (?u div ?D + (if ?u mod ?D \<noteq> 0 then 1 else 0)) * 10 powi (-9)"
      by (simp add: dec_val_def)
    also have "\<dots> = of_int \<lceil>of_int ?u / (of_int ?D :: rat)\<rceil> / 10 ^ 9"
      by (simp only: ceil nano)
    also have "of_int ?u / (of_int ?D :: rat) = dec_val x * 10 ^ 9"
      using False powi_minus_divide [of "decScale x - 9" ?u] by (simp only: dec_val_def mult.assoc powi_nano) simp
    finally show ?thesis by (simp add: nano_ceil_def)
  qed
qed

text \<open>The fast path needs no rounding and no cap.\<close>

lemma in64_small: "0 \<le> v \<Longrightarrow> v < 10 ^ 18 \<Longrightarrow> in64 v"
  by (simp add: in64_def)

lemma wrap64_minus: "in64 v \<Longrightarrow> 0 \<le> v \<Longrightarrow> wrap64 (- v) = - v"
  by (intro wrap64_id) (simp add: in64_def)

lemma pow10_le:
  assumes "n \<le> m"
  shows "(10::int) ^ n \<le> 10 ^ m"
  using assms by (intro power_increasing) simp_all

lemma ParseInt64_digits:
  assumes "list_all is_digit t" and "t \<noteq> []" and "length t \<le> 18"
  shows "ParseInt64 t = Some (int (number t))" "int (number t) < 10 ^ length t" "in64 (int (number t))"
proof -
  have "int (number t) < int (10 ^ length t)" using number_bound [OF assms(1)] by (simp only: of_nat_less_iff)
  then show less: "int (number t) < 10 ^ length t" by simp
  also have "\<dots> \<le> 10 ^ 18" by (rule pow10_le [OF assms(3)])
  finally show fits: "in64 (int (number t))" by (intro in64_small) simp_all
  show "ParseInt64 t = Some (int (number t))"
    by (simp add: ParseInt64_def signed_numeral_digits [OF assms(1,2)] fits)
qed

text \<open>A number of as many digits as the fast path allows, times \<open>2 ^ e\<close>, has at most 18 digits.\<close>

lemma binary_fits:
  fixes v :: int
  assumes "e \<in> {10, 20, 30, 40, 50, 60 :: int}" and "int n \<le> 15 - e * 3 div 10 - 1" and "0 \<le> v" and "v < 10 ^ n"
  shows "v * 2 ^ nat e < 10 ^ 18" "n \<le> 18"
proof -
  from assms(1,2) consider "e = 10" "n \<le> 11" | "e = 20" "n \<le> 8" | "e = 30" "n \<le> 5" | "e = 40" "n \<le> 2" by auto
  then have "v * 2 ^ nat e < 10 ^ 18 \<and> n \<le> 18"
  proof cases
    case 1
    then have "v < 10 ^ 11" using assms(4) pow10_le [of n 11] by linarith
    with 1 show ?thesis by simp
  next
    case 2
    then have "v < 10 ^ 8" using assms(4) pow10_le [of n 8] by linarith
    with 2 show ?thesis by simp
  next
    case 3
    then have "v < 10 ^ 5" using assms(4) pow10_le [of n 5] by linarith
    with 3 show ?thesis by simp
  next
    case 4
    then have "v < 10 ^ 2" using assms(4) pow10_le [of n 2] by linarith
    with 4 show ?thesis by simp
  qed
  then show "v * 2 ^ nat e < 10 ^ 18" "n \<le> 18" by simp_all
qed

definition value_ok :: "bool \<Rightarrow> string \<Rightarrow> string option \<Rightarrow> int \<Rightarrow> int \<Rightarrow> string \<Rightarrow> Quantity \<Rightarrow> bool" where
  "value_ok neg ds fr base e fmt q \<longleftrightarrow> quantity_wf q \<and>
     quantity_val q = sign_of neg * cap fmt (nano_ceil (text_value ds fr base e))"

lemma scanned_digits:
  assumes "scanned_as neg ds fr s sc" and "numeral_ok ds fr"
  shows "scPositive sc = (\<not> neg)" "scDenom sc = fraction fr" "scNum sc \<noteq> []" "list_all is_digit (scNum sc @ scDenom sc)"
    "number (scNum sc @ scDenom sc) = number (ds @ fraction fr)"
  using assms by (simp_all add: scanned_as_def numeral_ok_def)

lemma parse_fast_decimal:
  assumes sc: "scanned_as neg ds fr s sc" "numeral_ok ds fr" "length (fraction fr) < 2 ^ 30"
    and r: "parse_fast sc e fmt = Some r"
    and dec: "base = 10" "fmt = DecimalSI" "-9 \<le> e" "e \<le> 18"
  shows "\<exists>q. r = Inr q \<and> value_ok neg ds fr base e fmt q"
proof -
  let ?L = "length (fraction fr)" and ?t = "scNum sc @ scDenom sc"
  let ?v = "int (number (ds @ fraction fr))"
  note scan = scanned_digits [OF sc(1,2)]
  have scale: "wrap32 (e - int ?L) = e - int ?L" using dec sc(3) by (intro wrap32_id) simp_all
  have cond: "length ?t \<le> 18" "-9 \<le> e - int ?L"
    using r dec scale scan(2) by (auto simp: parse_fast_def fast_precision_def Let_def split: if_splits)
  note parse = ParseInt64_digits [OF scan(4) _ cond(1), unfolded scan(5)]
  have "r = Inr \<lparr>qtyI = \<lparr>amtValue = if neg then - ?v else ?v, amtScale = e - int ?L\<rparr>, qtyD = None, qtyFormat = fmt\<rparr>"
    using r dec scale scan cond parse
    by (cases neg) (simp_all add: parse_fast_def fast_precision_def Let_def int64Multiply_def wrap64_id wrap64_minus)
  moreover have "text_value ds fr base e = of_int ?v * 10 powi (e - int ?L)"
    using dec power_int_add [of "10::rat" e "- int ?L"] by (simp add: text_value_def)
  ultimately show ?thesis
    using dec parse(3) scan(3) nano_ceil_scaled [OF cond(2), of ?v]
    by (simp add: value_ok_def quantity_wf_def quantity_val_def amount_val_def cap_def sign_of_def in64_def)
qed

lemma parse_fast_binary:
  assumes sc: "scanned_as neg ds fr s sc" "numeral_ok ds fr" "length (fraction fr) < 2 ^ 30"
    and r: "parse_fast sc e fmt = Some r"
    and bin: "base = 2" "fmt = BinarySI" "e \<in> {10, 20, 30, 40, 50, 60}"
  shows "\<exists>q. r = Inr q \<and> value_ok neg ds fr base e fmt q"
proof -
  let ?L = "length (fraction fr)" and ?t = "scNum sc @ scDenom sc"
  let ?v = "int (number (ds @ fraction fr))"
  note scan = scanned_digits [OF sc(1,2)]
  have e: "0 \<le> e" using bin by auto
  have frac: "fraction fr = []" and digits: "int (length (scNum sc)) \<le> 15 - e * 3 div 10 - 1"
    using r bin e scan(2) by (auto simp: parse_fast_def fast_precision_def Let_def split: if_splits)
  then have t: "?t = scNum sc" using scan(2) by simp
  have less: "?v < 10 ^ length (scNum sc)"
    using number_bound [OF scan(4)] scan(5) t by (metis of_nat_less_iff of_nat_numeral of_nat_power)
  note fits = binary_fits [OF bin(3) digits _ less]
  have v64: "in64 (?v * 2 ^ nat e)" using fits(1) by (intro in64_small) simp_all
  have m64: "in64 (2 ^ nat e)" using bin(3) by (auto simp: in64_def)
  have n64: "in64 (if neg then - (?v * 2 ^ nat e) else ?v * 2 ^ nat e)"
  proof -
    have "0 \<le> ?v * 2 ^ nat e" by simp
    with v64 show ?thesis unfolding in64_def by (simp split: if_split, linarith)
  qed
  note parse = ParseInt64_digits [OF scan(4), unfolded scan(5), unfolded t]
  have mult: "int64Multiply ?v (2 ^ nat e) = (?v * 2 ^ nat e, True)"
    using parse(3) fits(2) scan(3) m64 v64 by (intro int64Multiply_ok) simp_all
  have "r = Inr \<lparr>qtyI = \<lparr>amtValue = if neg then - (?v * 2 ^ nat e) else ?v * 2 ^ nat e, amtScale = 0\<rparr>, qtyD = None, qtyFormat = fmt\<rparr>"
    using r bin(2) e frac scan digits parse(1) fits(2) mult v64
    by (cases neg) (simp_all add: parse_fast_def fast_precision_def Let_def wrap32_id wrap64_id m64 wrap64_minus)
  moreover have "text_value ds fr base e = of_int (?v * 2 ^ nat e) * 10 powi 0"
    using bin(1) e frac by (simp add: text_value_def power_int_def)
  moreover have "of_int (?v * 2 ^ nat e) \<le> (2 ^ 63 - 1 :: rat)"
    using fits(1) of_int_le_iff [of "?v * 2 ^ nat e" "2 ^ 63 - 1", where 'a = rat] by (simp del: of_int_mult)
  ultimately show ?thesis
    using n64 nano_ceil_scaled [of 0 "?v * 2 ^ nat e"]
    by (simp add: value_ok_def quantity_wf_def quantity_val_def amount_val_def cap_def sign_of_def)
qed

lemma parse_fast_value:
  assumes "scanned_as neg ds fr s sc" and "numeral_ok ds fr" and "length (fraction fr) < 2 ^ 30"
    and "(s, base, e, fmt) \<in> set suffixes" and "parse_fast sc e fmt = Some r"
  shows "\<exists>q. r = Inr q \<and> value_ok neg ds fr base e fmt q"
  using suffix_cases(3) [OF assms(4)] parse_fast_decimal [OF assms(1-3,5)] parse_fast_binary [OF assms(1-3,5)] by blast

text \<open>The slow path on the decimal that \<open>SetString\<close> reads.\<close>

lemma dec_val_Neg [simp]: "dec_val (Dec_Neg x) = - dec_val x"
  by (simp add: dec_val_def Dec_Neg_def)

lemma dec_val_nonneg: "0 \<le> decUnscaled x \<Longrightarrow> 0 \<le> dec_val x"
  by (simp add: dec_val_def)

lemma Unscaled_0: "(case Unscaled x of (v, ok) \<Rightarrow> if v \<noteq> 0 \<or> \<not> ok then a else b) = (if decUnscaled x \<noteq> 0 then a else b)"
  by (auto simp: Unscaled_def wrap64_def)

lemma round_and_cap:
  assumes "0 \<le> decUnscaled x" and "\<bar>decScale x\<bar> < 2 ^ 30"
  defines "y \<equiv> (if decUnscaled x \<noteq> 0 then Dec_Round x 9 else x)"
  shows "dec_val (if fmt = BinarySI \<and> 0 < Dec_Cmp y maxAllowed then maxAllowed else y) = cap fmt (nano_ceil (dec_val x))"
proof -
  have y: "dec_val y = nano_ceil (dec_val x)"
    using Dec_Round_ceil [OF assms(1,2)] by (simp add: y_def dec_val_def)
  have "dec_val maxAllowed = 2 ^ 63 - 1" by (simp add: maxAllowed_def dec_val_def)
  then show ?thesis using y by (auto simp: Dec_Cmp_correct rat_cmp_def cap_def min_def split: if_splits)
qed

lemma parse_slow_value:
  assumes sc: "scanned_as neg ds fr s sc" "length (fraction fr) < 2 ^ 29"
    and suffix: "(s, base, e, fmt) \<in> set suffixes"
  shows "\<exists>q. parse_slow sc base e fmt = Inr q \<and> value_ok neg ds fr base e fmt q"
proof -
  let ?N = "int (number (ds @ fraction fr))" and ?L = "int (length (fraction fr))"
  define x where "x = (if base = 10 then \<lparr>decUnscaled = ?N, decScale = ?L - e\<rparr> else \<lparr>decUnscaled = ?N * 2 ^ nat e, decScale = ?L\<rparr>)"
  from suffix_cases(3) [OF suffix] have e: "base = 10 \<and> -9 \<le> e \<and> e \<le> 18 \<or> base = 2 \<and> 0 \<le> e" by auto
  have x: "0 \<le> decUnscaled x" "\<bar>decScale x\<bar> < 2 ^ 30" using e sc(2) by (auto simp: x_def)
  have val: "dec_val x = text_value ds fr base e"
    using e power_int_add [of "10::rat" e "- ?L"] by (auto simp: x_def dec_val_def text_value_def power_int_def)
  define amount1 where "amount1 = (if neg then Dec_Neg x else x)"
  have wrap: "wrap32 (?L + wrap32 (- e)) = ?L - e" if "base = 10" using e sc(2) that by (simp add: wrap32_id)
  have set: "Dec_SetString (scValue sc) = Some \<lparr>decUnscaled = (if neg then - 1 else 1) * ?N, decScale = ?L\<rparr>"
    using sc(1) by (simp add: scanned_as_def)
  have amount1: "remove_suffix base e \<lparr>decUnscaled = (if neg then - 1 else 1) * ?N, decScale = ?L\<rparr> = amount1"
    using e wrap by (auto simp: remove_suffix_def amount1_def x_def Dec_Neg_def)
  have abs: "(if decUnscaled amount1 < 0 then Dec_Neg amount1 else amount1) = x"
    using x(1) by (auto simp: amount1_def Dec_Neg_def)
  let ?V = "cap fmt (nano_ceil (dec_val x))"
  have signed: "(if decUnscaled amount1 < 0 then - ?V else ?V) = sign_of neg * ?V"
  proof (cases "decUnscaled x = 0")
    case True
    then have "dec_val x = 0" by (simp add: dec_val_def)
    then show ?thesis by (simp add: cap_def)
  next
    case False
    then show ?thesis using x(1) by (simp add: amount1_def Dec_Neg_def sign_of_def)
  qed
  define y where "y = (if decUnscaled x \<noteq> 0 then Dec_Round x 9 else x)"
  define d where "d = (if fmt = BinarySI \<and> 0 < Dec_Cmp y maxAllowed then maxAllowed else y)"
  have d: "dec_val d = ?V" unfolding d_def y_def by (rule round_and_cap [OF x])
  have "\<exists>fmt'. parse_slow sc base e fmt = Inr \<lparr>qtyI = zeroAmount,
      qtyD = Some (if decUnscaled amount1 < 0 then Dec_Neg d else d), qtyFormat = fmt'\<rparr>"
    unfolding parse_slow_def set option.case Let_def Dec.simps amount1 abs Unscaled_0 d_def y_def by blast
  then obtain fmt' where r: "parse_slow sc base e fmt = Inr \<lparr>qtyI = zeroAmount,
      qtyD = Some (if decUnscaled amount1 < 0 then Dec_Neg d else d), qtyFormat = fmt'\<rparr>" by blast
  have "dec_val (if decUnscaled amount1 < 0 then Dec_Neg d else d) = sign_of neg * ?V"
    using signed d by (simp split: if_splits)
  then show ?thesis
    unfolding r by (simp add: value_ok_def quantity_wf_def quantity_val_def zeroAmount_def in64_def val)
qed

text \<open>
  C23: what \<open>ParseQuantity\<close> makes of a numeral with one of the suffixes is the number that the text
  denotes, rounded up to a multiple of \<open>10 ^ -9\<close>, and with a binary suffix cut off at \<open>2 ^ 63 - 1\<close>. No
  such text is refused, and the fast path on \<open>int64\<close>, which checks neither the rounding nor the cap,
  gives the same number as the decimals.
\<close>

theorem ParseQuantity_value:
  assumes "numeral_ok ds fr" and "length (fraction fr) < 2 ^ 29" and "(s, base, e, fmt) \<in> set suffixes"
  shows "\<exists>q. ParseQuantity (quantity_text neg ds fr s) = Inr q \<and> quantity_wf q \<and>
    quantity_val q = (if neg then -1 else 1) * cap fmt (nano_ceil (text_value ds fr base e))"
proof (cases "quantity_text neg ds fr s = ''0''")
  case True
  then have "\<not> neg" "ds @ fraction_text fr @ s = ''0''" by (auto simp: quantity_text_def sign_text_def split: if_splits)
  then have "ds = ''0''" "fr = None" using assms(1)
    by (auto simp: numeral_ok_def fraction_text_def append_eq_Cons_conv split: option.splits)
  then have "text_value ds fr base e = 0" by (simp add: text_value_def number_def fraction_def)
  then show ?thesis
    using True by (simp add: ParseQuantity_def quantity_wf_def quantity_val_def amount_val_def zeroAmount_def in64_def cap_def)
next
  case False
  note suffix = suffix_cases [OF assms(3)]
  from parseQuantityString_text [OF assms(1) suffix(2)] assms(2) obtain sc where
    sc: "parseQuantityString (quantity_text neg ds fr s) = Inr sc" "scanned_as neg ds fr s sc" by fastforce
  have "quantity_text neg ds fr s \<noteq> []" "scSuffix sc = s"
    using assms(1) sc(2) by (simp_all add: quantity_text_def numeral_ok_def scanned_as_def)
  then have parse: "ParseQuantity (quantity_text neg ds fr s) =
      (case parse_fast sc e fmt of Some r \<Rightarrow> r | None \<Rightarrow> parse_slow sc base e fmt)"
    using False by (simp add: ParseQuantity_def sc(1) suffix(1))
  have "\<exists>q. ParseQuantity (quantity_text neg ds fr s) = Inr q \<and> value_ok neg ds fr base e fmt q"
  proof (cases "parse_fast sc e fmt")
    case None
    then show ?thesis using parse_slow_value [OF sc(2) assms(2,3)] parse by simp
  next
    case (Some r)
    then show ?thesis using parse_fast_value [OF sc(2) assms(1) _ assms(3) Some] assms(2) parse by simp
  qed
  then show ?thesis by (auto simp: value_ok_def sign_of_def)
qed

lemma ParseQuantity_value_witness:
  "\<exists>q. ParseQuantity ''50Gi'' = Inr q \<and> quantity_val q = 50 * 2 ^ 30"
proof -
  have ok: "numeral_ok ''50'' None" "length (fraction None) < 2 ^ 29" "(''Gi'', 2, 30, BinarySI) \<in> set suffixes"
    by (simp_all add: numeral_ok_def fraction_def is_digit_def digit_value_def suffixes_def binSuffixes_def)
  have str: "quantity_text False ''50'' None ''Gi'' = ''50Gi''"
    by (simp add: quantity_text_def sign_text_def fraction_text_def)
  have number: "number ''50'' = 50" by (simp add: number_def digit_value_def)
  have "text_value ''50'' None 2 30 = 50 * 2 ^ 30"
    by (simp add: text_value_def fraction_def number)
  moreover have "nano_ceil (50 * 2 ^ 30) = 50 * 2 ^ 30" using nano_ceil_scaled [of 0 "50 * 2 ^ 30"] by simp
  ultimately show ?thesis
    using ParseQuantity_value [OF ok, of False, unfolded str] by (auto simp: cap_def)
qed

end
