(* ===== verification/Work_Queue.thy ===== *)
theory Work_Queue
  imports Go_Library
begin

text \<open>
  The work queue of \<open>k8s.io/client-go/util/workqueue\<close> (vendored), through which the provision controller
  hands claims and volumes to its workers: the queue itself (\<open>queue.go\<close>), the delayed queue
  (\<open>delaying_queue.go\<close>), the rate limiters (\<open>default_rate_limiters.go\<close>) and their combination, and how the controller
  uses it (\<open>enqueueWork\<close>, \<open>forgetWork\<close> and the end of \<open>processNextClaimWorkItem\<close>). The workers, the informer that adds
  keys and the goroutine that adds delayed keys interleave in a step relation.
\<close>

section \<open>The queue\<close>

record 'k queue_Type =
  quQueue :: "'k list"
  quDirty :: "'k set"
  quProcessing :: "'k set"
  quShuttingDown :: bool

definition queue_Add :: "'k \<Rightarrow> ('k, 'z) queue_Type_scheme \<Rightarrow> ('k, 'z) queue_Type_scheme" where
  "queue_Add item q =
     (if quShuttingDown q then q
      else if item \<in> quDirty q then q
      else
        (let q' = q\<lparr>quDirty := insert item (quDirty q)\<rparr> in
         if item \<in> quProcessing q then q' else q'\<lparr>quQueue := quQueue q' @ [item]\<rparr>))"

text \<open>\<open>None\<close>: the call waits. The item of the result is \<open>None\<close> when the queue is shutting down.\<close>

definition queue_Get :: "('k, 'z) queue_Type_scheme \<Rightarrow> ('k option \<times> ('k, 'z) queue_Type_scheme) option" where
  "queue_Get q =
     (case quQueue q of
        [] \<Rightarrow> if quShuttingDown q then Some (None, q) else None
      | item # rest \<Rightarrow> Some (Some item, q\<lparr>quQueue := rest, quProcessing := insert item (quProcessing q),
          quDirty := quDirty q - {item}\<rparr>))"

definition queue_Done :: "'k \<Rightarrow> ('k, 'z) queue_Type_scheme \<Rightarrow> ('k, 'z) queue_Type_scheme" where
  "queue_Done item q =
     (let q' = q\<lparr>quProcessing := quProcessing q - {item}\<rparr> in
      if item \<in> quDirty q then q'\<lparr>quQueue := quQueue q' @ [item]\<rparr> else q')"

section \<open>Rate limiters\<close>

text \<open>
  The token bucket is a package of its own: \<open>'b\<close> is its state, and \<open>reserve\<close> its operation
  \<open>Reserve().Delay()\<close>, which depends on the time.
\<close>

datatype ('k, 'b) RateLimiter =
    BucketRateLimiter 'b
  | ItemExponentialFailureRateLimiter "'k \<Rightarrow> nat" duration duration \<comment> \<open>failures, base and largest delay\<close>
  | MaxOfRateLimiter "('k, 'b) RateLimiter list"

text \<open>
  The arithmetic on \<open>float64\<close> is exact: a base delay of less than \<open>2 ^ 53\<close> nanoseconds times a power of two. A
  product of \<open>2 ^ 63\<close>, which the test lets through, does not fit \<open>int64\<close>; the conversion gives the most negative number.
\<close>

definition exponential_delay :: "duration \<Rightarrow> duration \<Rightarrow> nat \<Rightarrow> duration" where
  "exponential_delay baseDelay maxDelay n =
     (let backoff = baseDelay * 2 ^ n in
      if 2 ^ 63 < backoff then maxDelay
      else
        (let calculated = (if backoff = 2 ^ 63 then - (2 ^ 63) else backoff) in
         if maxDelay < calculated then maxDelay else calculated))"

fun limiter_When :: "(time \<Rightarrow> 'b \<Rightarrow> duration \<times> 'b) \<Rightarrow> time \<Rightarrow> 'k \<Rightarrow> ('k, 'b) RateLimiter \<Rightarrow> duration \<times> ('k, 'b) RateLimiter"
  and limiters_When :: "(time \<Rightarrow> 'b \<Rightarrow> duration \<times> 'b) \<Rightarrow> time \<Rightarrow> 'k \<Rightarrow> duration \<Rightarrow> ('k, 'b) RateLimiter list \<Rightarrow>
    duration \<times> ('k, 'b) RateLimiter list"
where
  "limiter_When reserve now item (BucketRateLimiter b) =
     (case reserve now b of (d, b') \<Rightarrow> (d, BucketRateLimiter b'))"
| "limiter_When reserve now item (ItemExponentialFailureRateLimiter failures baseDelay maxDelay) =
     (exponential_delay baseDelay maxDelay (failures item),
      ItemExponentialFailureRateLimiter (failures(item := Suc (failures item))) baseDelay maxDelay)"
| "limiter_When reserve now item (MaxOfRateLimiter ls) =
     (case limiters_When reserve now item 0 ls of (d, ls') \<Rightarrow> (d, MaxOfRateLimiter ls'))"
| "limiters_When reserve now item d [] = (d, [])"
| "limiters_When reserve now item d (l # ls) =
     (case limiter_When reserve now item l of (delay, l') \<Rightarrow>
        (case limiters_When reserve now item (if d < delay then delay else d) ls of (d', ls') \<Rightarrow> (d', l' # ls')))"

fun limiter_NumRequeues :: "'k \<Rightarrow> ('k, 'b) RateLimiter \<Rightarrow> nat" where
  "limiter_NumRequeues item (BucketRateLimiter b) = 0"
| "limiter_NumRequeues item (ItemExponentialFailureRateLimiter failures baseDelay maxDelay) = failures item"
| "limiter_NumRequeues item (MaxOfRateLimiter ls) = fold max (map (limiter_NumRequeues item) ls) 0"

fun limiter_Forget :: "'k \<Rightarrow> ('k, 'b) RateLimiter \<Rightarrow> ('k, 'b) RateLimiter" where
  "limiter_Forget item (BucketRateLimiter b) = BucketRateLimiter b"
| "limiter_Forget item (ItemExponentialFailureRateLimiter failures baseDelay maxDelay) =
     ItemExponentialFailureRateLimiter (failures(item := 0)) baseDelay maxDelay"
| "limiter_Forget item (MaxOfRateLimiter ls) = MaxOfRateLimiter (map (limiter_Forget item) ls)"

section \<open>The queue with delays and a rate limiter\<close>

text \<open>
  Keys wait with the time at which they are due. The channel to the goroutine that keeps them holds what was
  handed over and is not yet received.
\<close>

record ('k, 'b) rate_limited = "'k queue_Type" +
  quWaitingForAddCh :: "('k \<times> time) list"
  quWaiting :: "'k \<rightharpoonup> time" \<comment> \<open>\<open>waitingForQueue\<close> with \<open>waitingEntryByData\<close>\<close>
  quRateLimiter :: "('k, 'b) RateLimiter"

definition NewRateLimitingQueue :: "('k, 'b) RateLimiter \<Rightarrow> ('k, 'b) rate_limited" where
  "NewRateLimitingQueue l = \<lparr>quQueue = [], quDirty = {}, quProcessing = {}, quShuttingDown = False,
     quWaitingForAddCh = [], quWaiting = Map.empty, quRateLimiter = l\<rparr>"

definition AddAfter :: "time \<Rightarrow> 'k \<Rightarrow> duration \<Rightarrow> ('k, 'b) rate_limited \<Rightarrow> ('k, 'b) rate_limited" where
  "AddAfter now item d q =
     (if quShuttingDown q then q
      else if d \<le> 0 then queue_Add item q
      else q\<lparr>quWaitingForAddCh := quWaitingForAddCh q @ [(item, now + d)]\<rparr>)"

definition insert_waiting :: "'k \<Rightarrow> time \<Rightarrow> ('k \<rightharpoonup> time) \<Rightarrow> ('k \<rightharpoonup> time)" where
  "insert_waiting item readyAt waiting =
     (case waiting item of
        Some existing \<Rightarrow> if readyAt < existing then waiting(item \<mapsto> readyAt) else waiting
      | None \<Rightarrow> waiting(item \<mapsto> readyAt))"

definition receive_waiting :: "time \<Rightarrow> 'k \<Rightarrow> time \<Rightarrow> ('k, 'b) rate_limited \<Rightarrow> ('k, 'b) rate_limited" where
  "receive_waiting now item readyAt q =
     (if now < readyAt then q\<lparr>quWaiting := insert_waiting item readyAt (quWaiting q)\<rparr> else queue_Add item q)"

definition AddRateLimited :: "(time \<Rightarrow> 'b \<Rightarrow> duration \<times> 'b) \<Rightarrow> time \<Rightarrow> 'k \<Rightarrow> ('k, 'b) rate_limited \<Rightarrow> ('k, 'b) rate_limited" where
  "AddRateLimited reserve now item q =
     (case limiter_When reserve now item (quRateLimiter q) of (d, l) \<Rightarrow> AddAfter now item d (q\<lparr>quRateLimiter := l\<rparr>))"

definition NumRequeues :: "'k \<Rightarrow> ('k, 'b) rate_limited \<Rightarrow> nat" where
  "NumRequeues item q = limiter_NumRequeues item (quRateLimiter q)"

definition Forget :: "'k \<Rightarrow> ('k, 'b) rate_limited \<Rightarrow> ('k, 'b) rate_limited" where
  "Forget item q = q\<lparr>quRateLimiter := limiter_Forget item (quRateLimiter q)\<rparr>"

definition ShutDown :: "('k, 'b) rate_limited \<Rightarrow> ('k, 'b) rate_limited" where
  "ShutDown q = q\<lparr>quShuttingDown := True\<rparr>"

section \<open>How the controller uses it\<close>

definition enqueueWork :: "'k \<Rightarrow> ('k, 'b) rate_limited \<Rightarrow> ('k, 'b) rate_limited" where
  "enqueueWork key q = (if NumRequeues key q = 0 then queue_Add key q else q)"

definition forgetWork :: "'k \<Rightarrow> ('k, 'b) rate_limited \<Rightarrow> ('k, 'b) rate_limited" where
  "forgetWork key q = queue_Done key (Forget key q)"

text \<open>What \<open>processNextClaimWorkItem\<close> and \<open>processNextVolumeWorkItem\<close> do with the result of the handler.\<close>

definition requeue :: "(time \<Rightarrow> 'b \<Rightarrow> duration \<times> 'b) \<Rightarrow> int \<Rightarrow> time \<Rightarrow> 'k \<Rightarrow> ('k, 'b) rate_limited \<Rightarrow> ('k, 'b) rate_limited" where
  "requeue reserve threshold now key q =
     (if int (NumRequeues key q) < threshold then AddRateLimited reserve now key q else q)"

definition finish_item ::
  "(time \<Rightarrow> 'b \<Rightarrow> duration \<times> 'b) \<Rightarrow> int \<Rightarrow> time \<Rightarrow> 'k \<Rightarrow> error option \<Rightarrow> ('k, 'b) rate_limited \<Rightarrow> ('k, 'b) rate_limited" where
  "finish_item reserve threshold now key err q =
     queue_Done key (case err of Some _ \<Rightarrow> requeue reserve threshold now key q | None \<Rightarrow> Forget key q)"

section \<open>The workers\<close>

text \<open>
  The controller runs workers \<open>'w\<close>, each with at most one key in hand. \<open>deletable\<close> says in which states the informer
  may report the deletion of a key's object. A worker may get any result from its handler; time passes at will.
\<close>

record ('w, 'k, 'b) workers =
  woQueue :: "('k, 'b) rate_limited"
  woHeld :: "'w \<rightharpoonup> 'k"
  woNow :: time

definition workers_init :: "('k, 'b) RateLimiter \<Rightarrow> ('w, 'k, 'b) workers" where
  "workers_init l = \<lparr>woQueue = NewRateLimitingQueue l, woHeld = Map.empty, woNow = 0\<rparr>"

inductive worker_step ::
  "(time \<Rightarrow> 'b \<Rightarrow> duration \<times> 'b) \<Rightarrow> int \<Rightarrow> ('k \<Rightarrow> ('k, 'b) rate_limited \<Rightarrow> bool) \<Rightarrow>
    ('w, 'k, 'b) workers \<Rightarrow> ('w, 'k, 'b) workers \<Rightarrow> bool"
  for reserve threshold deletable
where
  informed: "worker_step reserve threshold deletable s (s\<lparr>woQueue := enqueueWork k (woQueue s)\<rparr>)"
| deleted: "deletable k (woQueue s) \<Longrightarrow>
    worker_step reserve threshold deletable s (s\<lparr>woQueue := forgetWork k (woQueue s)\<rparr>)"
| taken: "woHeld s w = None \<Longrightarrow> queue_Get (woQueue s) = Some (Some k, q) \<Longrightarrow>
    worker_step reserve threshold deletable s (s\<lparr>woQueue := q, woHeld := (woHeld s)(w \<mapsto> k)\<rparr>)"
| finished: "woHeld s w = Some k \<Longrightarrow>
    worker_step reserve threshold deletable s
      (s\<lparr>woQueue := finish_item reserve threshold (woNow s) k err (woQueue s), woHeld := (woHeld s)(w := None)\<rparr>)"
| received: "\<not> quShuttingDown (woQueue s) \<Longrightarrow> quWaitingForAddCh (woQueue s) = (k, t) # rest \<Longrightarrow>
    worker_step reserve threshold deletable s
      (s\<lparr>woQueue := receive_waiting (woNow s) k t ((woQueue s)\<lparr>quWaitingForAddCh := rest\<rparr>)\<rparr>)"
| ripened: "\<not> quShuttingDown (woQueue s) \<Longrightarrow> quWaiting (woQueue s) k = Some t \<Longrightarrow> t \<le> woNow s \<Longrightarrow>
    (\<forall>k' t'. quWaiting (woQueue s) k' = Some t' \<longrightarrow> t \<le> t') \<Longrightarrow>
    worker_step reserve threshold deletable s
      (s\<lparr>woQueue := (queue_Add k (woQueue s))\<lparr>quWaiting := (quWaiting (woQueue s))(k := None)\<rparr>\<rparr>)"
| passed: "0 \<le> d \<Longrightarrow> worker_step reserve threshold deletable s (s\<lparr>woNow := woNow s + d\<rparr>)"
| stopped: "worker_step reserve threshold deletable s (s\<lparr>woQueue := ShutDown (woQueue s)\<rparr>)"

inductive workers_reach ::
  "(time \<Rightarrow> 'b \<Rightarrow> duration \<times> 'b) \<Rightarrow> int \<Rightarrow> ('k \<Rightarrow> ('k, 'b) rate_limited \<Rightarrow> bool) \<Rightarrow> ('k, 'b) RateLimiter \<Rightarrow>
    ('w, 'k, 'b) workers \<Rightarrow> bool"
  for reserve threshold deletable l
where
  init: "workers_reach reserve threshold deletable l (workers_init l)"
| step: "workers_reach reserve threshold deletable l s \<Longrightarrow> worker_step reserve threshold deletable s s' \<Longrightarrow>
    workers_reach reserve threshold deletable l s'"

section \<open>What the operations do to the queue\<close>

text \<open>Only the keys matter for the invariants: which are in the queue, which are to be processed and which are being processed.\<close>

definition same_keys :: "('k, 'b) rate_limited \<Rightarrow> ('k, 'b) rate_limited \<Rightarrow> bool" where
  "same_keys q q' \<longleftrightarrow> quQueue q' = quQueue q \<and> quDirty q' = quDirty q \<and> quProcessing q' = quProcessing q"

text \<open>The keys of the queue after a possible \<open>Add\<close>.\<close>

definition added_keys :: "'k \<Rightarrow> ('k, 'b) rate_limited \<Rightarrow> ('k, 'b) rate_limited \<Rightarrow> bool" where
  "added_keys k q q' \<longleftrightarrow> same_keys q q' \<or>
     k \<notin> quDirty q \<and> quDirty q' = insert k (quDirty q) \<and> quProcessing q' = quProcessing q \<and>
     quQueue q' = (if k \<in> quProcessing q then quQueue q else quQueue q @ [k])"

lemma same_keys_refl [simp]: "same_keys q q"
  by (simp add: same_keys_def)

lemma added_refl: "same_keys q q' \<Longrightarrow> added_keys k q q'"
  by (simp add: added_keys_def)

lemma queue_Add_keys: "added_keys k q (queue_Add k q)"
  by (auto simp: added_keys_def same_keys_def queue_Add_def Let_def)

lemma AddAfter_keys: "added_keys k q (AddAfter now k d q)"
  by (simp add: AddAfter_def queue_Add_keys added_refl same_keys_def)

lemma AddRateLimited_keys: "added_keys k q (AddRateLimited reserve now k q)"
proof -
  obtain d l where "limiter_When reserve now k (quRateLimiter q) = (d, l)" by (metis surj_pair)
  then have eq: "AddRateLimited reserve now k q = AddAfter now k d (q\<lparr>quRateLimiter := l\<rparr>)"
    by (simp add: AddRateLimited_def)
  show ?thesis
    using AddAfter_keys [of k "q\<lparr>quRateLimiter := l\<rparr>" now d] unfolding eq
    by (cases "k \<in> quProcessing q") (simp_all add: added_keys_def same_keys_def)
qed

lemma finish_keys:
  "\<exists>q0. added_keys k q q0 \<and> finish_item reserve threshold now k err q = queue_Done k q0"
proof (cases err)
  case None
  have "added_keys k q (Forget k q)" by (simp add: added_keys_def same_keys_def Forget_def)
  with None show ?thesis by (auto simp: finish_item_def)
next
  case (Some e)
  have "added_keys k q (requeue reserve threshold now k q)"
    by (simp add: requeue_def AddRateLimited_keys added_refl)
  with Some show ?thesis by (auto simp: finish_item_def)
qed

section \<open>No key is lost\<close>

text \<open>
  Every key that is to be processed is in the queue, or a worker has it in hand and will put it there. And what is
  being processed is in the hand of a worker.
\<close>

definition keys_kept :: "('w, 'k, 'b) workers \<Rightarrow> bool" where
  "keys_kept s \<longleftrightarrow> quDirty (woQueue s) \<subseteq> set (quQueue (woQueue s)) \<union> quProcessing (woQueue s) \<and>
     quProcessing (woQueue s) \<subseteq> ran (woHeld s)"

section \<open>No two workers process a key\<close>

text \<open>
  The queue has no key twice; it has the keys that are to be processed and that no worker has in hand; and what
  is being processed is in the hand of exactly one worker.
\<close>

definition keys_apart :: "('w, 'k, 'b) workers \<Rightarrow> bool" where
  "keys_apart s \<longleftrightarrow> distinct (quQueue (woQueue s)) \<and>
     set (quQueue (woQueue s)) = quDirty (woQueue s) - quProcessing (woQueue s) \<and>
     quProcessing (woQueue s) = ran (woHeld s) \<and> inj_on (woHeld s) (dom (woHeld s))"

lemma keys_apart_held:
  assumes "keys_apart s" and "woHeld s w = Some k" and "woHeld s w' = Some k"
  shows "w = w'"
  using assms by (auto simp: keys_apart_def inj_on_def dom_def)

text \<open>A key may be forgotten if it is neither waiting for a worker nor in the hand of one.\<close>

definition idle_key :: "'k \<Rightarrow> ('k, 'b) rate_limited \<Rightarrow> bool" where
  "idle_key k q \<longleftrightarrow> k \<notin> quDirty q \<and> k \<notin> quProcessing q"

lemma added_apart:
  "keys_apart s \<Longrightarrow> added_keys k (woQueue s) q \<Longrightarrow> keys_apart (s\<lparr>woQueue := q\<rparr>)"
  by (auto simp: keys_apart_def added_keys_def same_keys_def split: if_splits)


lemma ran_without:
  assumes "inj_on h (dom h)" and "h w = Some k"
  shows "ran (h(w := None)) = ran h - {k}" "inj_on (h(w := None)) (dom (h(w := None)))"
  using assms by (auto simp: ran_def inj_on_def dom_def) (metis option.inject)

lemma done_apart:
  assumes "keys_apart (s\<lparr>woQueue := q\<rparr>)" and "woHeld s w = Some k"
  shows "keys_apart (s\<lparr>woQueue := queue_Done k q, woHeld := (woHeld s)(w := None)\<rparr>)"
proof -
  have "k \<in> quProcessing q" using assms by (auto simp: keys_apart_def ran_def)
  then show ?thesis
    using assms ran_without [of "woHeld s" w k] by (auto simp: keys_apart_def queue_Done_def Let_def)
qed


lemma receive_waiting_keys: "added_keys k q (receive_waiting now k t (q\<lparr>quWaitingForAddCh := rest\<rparr>))"
  using queue_Add_keys [of k "q\<lparr>quWaitingForAddCh := rest\<rparr>"]
  by (auto simp: receive_waiting_def added_keys_def same_keys_def split: if_splits)

lemma ripened_keys: "added_keys k q ((queue_Add k q)\<lparr>quWaiting := m\<rparr>)"
  using queue_Add_keys [of k q] by (auto simp: added_keys_def same_keys_def split: if_splits)

lemma enqueueWork_keys: "added_keys k q (enqueueWork k q)"
  by (simp add: enqueueWork_def queue_Add_keys added_refl)

lemma ShutDown_keys: "added_keys k q (ShutDown q)"
  by (rule added_refl) (simp add: same_keys_def ShutDown_def)

lemmas added = enqueueWork_keys receive_waiting_keys ripened_keys ShutDown_keys


lemma worker_step_apart:
  assumes "worker_step reserve threshold idle_key s s'" and "keys_apart s"
  shows "keys_apart s'"
  using assms(1)
proof (cases rule: worker_step.cases)
  case (deleted k)
  then show ?thesis using assms(2) by (auto simp: keys_apart_def idle_key_def forgetWork_def Forget_def queue_Done_def Let_def)
next
  case (taken w k q)
  then obtain rest where q: "quQueue (woQueue s) = k # rest" "q = (woQueue s)\<lparr>quQueue := rest,
      quProcessing := insert k (quProcessing (woQueue s)), quDirty := quDirty (woQueue s) - {k}\<rparr>"
    by (auto simp: queue_Get_def split: list.splits if_splits)
  then have new: "k \<notin> ran (woHeld s)" "k \<notin> set rest"
    using assms(2) by (auto simp: keys_apart_def)
  then have "ran ((woHeld s)(w \<mapsto> k)) = insert k (ran (woHeld s))"
    using taken(2) by (intro ran_map_upd)
  moreover have "inj_on ((woHeld s)(w \<mapsto> k)) (dom ((woHeld s)(w \<mapsto> k)))"
    using assms(2) new taken(2) by (auto simp: keys_apart_def inj_on_def dom_def ran_def)
  ultimately show ?thesis
    using taken(1) q new assms(2) by (auto simp: keys_apart_def)
next
  case (finished w k err)
  obtain q0 where q0: "added_keys k (woQueue s) q0" "finish_item reserve threshold (woNow s) k err (woQueue s) = queue_Done k q0"
    using finish_keys [of k "woQueue s" reserve threshold "woNow s" err] by blast
  show ?thesis using done_apart [OF added_apart [OF assms(2) q0(1)] finished(2)] finished(1) q0(2) by simp
next
  case (passed d)
  then show ?thesis using assms(2) by (simp add: keys_apart_def)
qed (simp, rule added_apart [OF assms(2)], rule added)+

text \<open>
  C36: as long as no object is deleted while its key waits for a worker or is in the hand of one, no two workers ever
  process the same key, whatever the interleaving of the workers, the informer, the delayed keys and the shutdown.
\<close>

theorem workers_exclusive:
  assumes "workers_reach reserve threshold idle_key l s" and "woHeld s w = Some k" and "woHeld s w' = Some k"
  shows "w = w'"
proof -
  have "keys_apart s"
    using assms(1)
  proof induction
    case init
    show ?case by (simp add: keys_apart_def workers_init_def NewRateLimitingQueue_def)
  qed (rule worker_step_apart)
  then show ?thesis by (rule keys_apart_held) (rule assms(2,3))+
qed

section \<open>Until the handler has succeeded\<close>

text \<open>A key is pending while it is in the queue, in the hand of a worker, or on its way into the queue with a delay.\<close>

definition key_pending :: "'k \<Rightarrow> ('w, 'k, 'b) workers \<Rightarrow> bool" where
  "key_pending k s \<longleftrightarrow> k \<in> set (quQueue (woQueue s)) \<or> k \<in> ran (woHeld s) \<or>
     (\<exists>t. (k, t) \<in> set (quWaitingForAddCh (woQueue s))) \<or> quWaiting (woQueue s) k \<noteq> None"


lemma kept_dirty: "keys_kept s \<Longrightarrow> k \<in> quDirty (woQueue s) \<Longrightarrow> key_pending k s"
  by (auto simp: keys_kept_def key_pending_def)

lemma queue_Add_delays [simp]:
  "quWaitingForAddCh (queue_Add k q) = quWaitingForAddCh q" "quWaiting (queue_Add k q) = quWaiting q"
  by (simp_all add: queue_Add_def Let_def)


lemma queue_Done_grows:
  "set (quQueue q) \<subseteq> set (quQueue (queue_Done k q))" "k \<in> quDirty q \<Longrightarrow> k \<in> set (quQueue (queue_Done k q))"
  "quWaitingForAddCh (queue_Done k q) = quWaitingForAddCh q" "quWaiting (queue_Done k q) = quWaiting q"
  by (auto simp: queue_Done_def Let_def)








section \<open>What a deletion can do\<close>

text \<open>
  The condition of that theorem is needed. \<open>forgetWork\<close> ends with \<open>Done\<close>, also for a key that no worker has: when the object
  of a key that waits is deleted, the key is put into the queue a second time, and two workers get it.
\<close>

theorem deletion_breaks_exclusion:
  assumes "w \<noteq> w'" and "limiter_NumRequeues k l = 0"
  shows "\<exists>s. workers_reach reserve threshold (\<lambda>k q. k \<in> set (quQueue q)) l s \<and> woHeld s w = Some k \<and> woHeld s w' = Some k"
proof -
  let ?step = "worker_step reserve threshold (\<lambda>k q. k \<in> set (quQueue q))"
  let ?q = "NewRateLimitingQueue l"
  let ?q1 = "?q\<lparr>quQueue := [k], quDirty := {k}\<rparr>" and ?f = "Forget k ?q"
  let ?q2 = "?f\<lparr>quQueue := [k, k], quDirty := {k}\<rparr>" and ?q3 = "?f\<lparr>quQueue := [k], quProcessing := {k}\<rparr>"
    and ?q4 = "?f\<lparr>quQueue := [], quProcessing := {k}\<rparr>"
  let ?s = "\<lambda>q h. \<lparr>woQueue = q, woHeld = h, woNow = 0\<rparr>"
  have "?step (workers_init l) (?s ?q1 Map.empty)"
    using worker_step.informed [of reserve threshold _ "workers_init l" k] assms(2)
    by (simp add: workers_init_def enqueueWork_def NumRequeues_def NewRateLimitingQueue_def queue_Add_def)
  moreover have "?step (?s ?q1 Map.empty) (?s ?q2 Map.empty)"
    using worker_step.deleted [of "\<lambda>k q. k \<in> set (quQueue q)" k "?s ?q1 Map.empty" reserve threshold]
    by (simp add: forgetWork_def Forget_def queue_Done_def NewRateLimitingQueue_def)
  moreover have "?step (?s ?q2 Map.empty) (?s ?q3 [w \<mapsto> k])"
    using worker_step.taken [of "?s ?q2 Map.empty" w k ?q3 reserve threshold]
    by (simp add: queue_Get_def Forget_def NewRateLimitingQueue_def)
  moreover have "?step (?s ?q3 [w \<mapsto> k]) (?s ?q4 [w \<mapsto> k, w' \<mapsto> k])"
    using worker_step.taken [of "?s ?q3 [w \<mapsto> k]" w' k ?q4 reserve threshold] assms(1)
    by (simp add: queue_Get_def Forget_def NewRateLimitingQueue_def)
  ultimately have "workers_reach reserve threshold (\<lambda>k q. k \<in> set (quQueue q)) l (?s ?q4 [w \<mapsto> k, w' \<mapsto> k])"
    by (intro workers_reach.step [OF workers_reach.step [OF workers_reach.step [OF workers_reach.step [OF workers_reach.init]]]])
  then show ?thesis using assms(1) by (intro exI [of _ "?s ?q4 [w \<mapsto> k, w' \<mapsto> k]"]) simp
qed

section \<open>How often a key is tried again\<close>

primrec fail_at ::
  "(time \<Rightarrow> 'b \<Rightarrow> duration \<times> 'b) \<Rightarrow> int \<Rightarrow> 'k \<Rightarrow> error \<Rightarrow> time list \<Rightarrow> ('k, 'b) rate_limited \<Rightarrow> ('k, 'b) rate_limited" where
  \<comment> \<open>the handler of the key fails at these times, one after the other\<close>
  "fail_at reserve threshold key e [] q = q"
| "fail_at reserve threshold key e (t # ts) q = fail_at reserve threshold key e ts (finish_item reserve threshold t key (Some e) q)"

lemma AddRateLimited_limiter:
  "quRateLimiter (AddRateLimited reserve now k q) = snd (limiter_When reserve now k (quRateLimiter q))"
  by (simp add: AddRateLimited_def AddAfter_def queue_Add_def Let_def split: prod.split)

lemma finish_item_limiter:
  "quRateLimiter (finish_item reserve threshold now k (Some e) q) =
     (if int (limiter_NumRequeues k (quRateLimiter q)) < threshold then snd (limiter_When reserve now k (quRateLimiter q))
      else quRateLimiter q)"
  by (simp add: finish_item_def requeue_def queue_Done_def Let_def AddRateLimited_limiter NumRequeues_def)

text \<open>The two limiters that the controller constructs.\<close>

definition bucket_limiter :: "('k, 'b) RateLimiter \<Rightarrow> bool" where
  "bucket_limiter l \<longleftrightarrow> (\<exists>b. l = MaxOfRateLimiter [BucketRateLimiter b])"

definition counting_limiter :: "'k \<Rightarrow> nat \<Rightarrow> ('k, 'b) RateLimiter \<Rightarrow> bool" where
  "counting_limiter k n l \<longleftrightarrow> (\<exists>f base mx b. f k = n \<and>
     l = MaxOfRateLimiter [ItemExponentialFailureRateLimiter f base mx, BucketRateLimiter b])"

lemma bucket_limiter_When: "bucket_limiter l \<Longrightarrow> bucket_limiter (snd (limiter_When reserve now k l))"
  by (auto simp: bucket_limiter_def split: prod.split)

lemma counting_limiter_When: "counting_limiter k n l \<Longrightarrow> counting_limiter k (Suc n) (snd (limiter_When reserve now k l))"
  by (fastforce simp: counting_limiter_def split: prod.split)

lemma limiter_counts:
  "bucket_limiter l \<Longrightarrow> limiter_NumRequeues k l = 0" "counting_limiter k n l \<Longrightarrow> limiter_NumRequeues k l = n"
  by (auto simp: bucket_limiter_def counting_limiter_def)

lemma bucket_fail_at:
  "bucket_limiter (quRateLimiter q) \<Longrightarrow> bucket_limiter (quRateLimiter (fail_at reserve threshold k e ts q))"
  by (induction ts arbitrary: q) (simp_all add: finish_item_limiter bucket_limiter_When)

lemma counting_fail_at:
  "counting_limiter k n (quRateLimiter q) \<Longrightarrow> int n \<le> threshold \<Longrightarrow>
    counting_limiter k (min (n + length ts) (nat threshold)) (quRateLimiter (fail_at reserve threshold k e ts q))"
proof (induction ts arbitrary: q n)
  case (Cons t ts)
  show ?case
  proof (cases "int n < threshold")
    case True
    then show ?thesis
      using Cons.IH [of "Suc n" "finish_item reserve threshold t k (Some e) q"] Cons.prems
      by (simp add: finish_item_limiter limiter_counts counting_limiter_When)
  next
    case False
    then have "n = nat threshold" using Cons.prems(2) by simp
    then show ?thesis
      using Cons.IH [of n "finish_item reserve threshold t k (Some e) q"] Cons.prems False
      by (simp add: finish_item_limiter limiter_counts)
  qed
qed simp

text \<open>With the limiter that counts, a key is tried again after exactly the first \<open>threshold\<close> failures in a row.\<close>

lemma counting_requeue:
  assumes "counting_limiter k 0 (quRateLimiter q)" and "0 \<le> threshold"
  shows "requeue reserve threshold t k (fail_at reserve threshold k e ts q) =
    (if int (length ts) < threshold then AddRateLimited reserve t k (fail_at reserve threshold k e ts q)
     else fail_at reserve threshold k e ts q)"
proof -
  have "NumRequeues k (fail_at reserve threshold k e ts q) = min (length ts) (nat threshold)"
    using counting_fail_at [OF assms(1), of threshold ts reserve e] assms(2) by (simp add: NumRequeues_def limiter_counts)
  then show ?thesis using assms(2) by (auto simp: requeue_def)
qed

text \<open>With the bucket alone it is always tried again.\<close>

lemma bucket_requeue:
  assumes "bucket_limiter (quRateLimiter q)" and "0 < threshold"
  shows "requeue reserve threshold t k (fail_at reserve threshold k e ts q) =
    AddRateLimited reserve t k (fail_at reserve threshold k e ts q)"
  using bucket_fail_at [OF assms(1), of reserve threshold k e ts] assms(2)
  by (simp add: requeue_def NumRequeues_def limiter_counts)

section \<open>A concrete run\<close>

definition free_bucket :: "time \<Rightarrow> unit \<Rightarrow> duration \<times> unit" where
  "free_bucket now b = (0, b)"

lemma reach_waiting:
  assumes "limiter_NumRequeues k l = 0"
  shows "workers_reach reserve threshold deletable l
    \<lparr>woQueue = (NewRateLimitingQueue l)\<lparr>quQueue := [k], quDirty := {k}\<rparr>, woHeld = Map.empty, woNow = 0\<rparr>"
  using workers_reach.step [OF workers_reach.init worker_step.informed, of reserve threshold deletable l k] assms
  by (simp add: workers_init_def enqueueWork_def NumRequeues_def NewRateLimitingQueue_def queue_Add_def)

lemma reach_taken:
  assumes "limiter_NumRequeues k l = 0"
  shows "workers_reach reserve threshold deletable l
    \<lparr>woQueue = (NewRateLimitingQueue l)\<lparr>quProcessing := {k}\<rparr>, woHeld = [w \<mapsto> k], woNow = 0\<rparr>"
proof -
  let ?s = "\<lparr>woQueue = (NewRateLimitingQueue l)\<lparr>quQueue := [k], quDirty := {k}\<rparr>, woHeld = Map.empty, woNow = 0\<rparr>"
  have "worker_step reserve threshold deletable ?s
      \<lparr>woQueue = (NewRateLimitingQueue l)\<lparr>quProcessing := {k}\<rparr>, woHeld = [w \<mapsto> k], woNow = 0\<rparr>"
    using worker_step.taken [of ?s w k "(NewRateLimitingQueue l)\<lparr>quProcessing := {k}\<rparr>" reserve threshold deletable]
    by (simp add: queue_Get_def NewRateLimitingQueue_def)
  then show ?thesis by (rule workers_reach.step [OF reach_waiting [OF assms]])
qed

theorem workers_exclusive_witness:
  "\<exists>s :: (nat, string, unit) workers. workers_reach free_bucket 5 idle_key (MaxOfRateLimiter [BucketRateLimiter ()]) s \<and>
    woHeld s 0 = Some ''default/claim'' \<and> woHeld s 1 \<noteq> Some ''default/claim''"
proof -
  let ?s = "\<lparr>woQueue = (NewRateLimitingQueue (MaxOfRateLimiter [BucketRateLimiter ()]))\<lparr>quProcessing := {''default/claim''}\<rparr>,
    woHeld = [0 \<mapsto> ''default/claim''], woNow = 0\<rparr> :: (nat, string, unit) workers"
  have s: "workers_reach free_bucket 5 idle_key (MaxOfRateLimiter [BucketRateLimiter ()]) ?s" by (rule reach_taken) simp
  then have "woHeld ?s 1 \<noteq> Some ''default/claim''"
    using workers_exclusive [OF s, of 0 "''default/claim''" 1] by auto
  with s show ?thesis by (intro exI [of _ ?s]) simp
qed


theorem deletion_breaks_exclusion_witness:
  "\<exists>s :: (nat, string, unit) workers. workers_reach free_bucket 5 (\<lambda>k q. k \<in> set (quQueue q)) (MaxOfRateLimiter [BucketRateLimiter ()]) s \<and>
    woHeld s 0 = Some ''default/claim'' \<and> woHeld s 1 = Some ''default/claim''"
  by (rule deletion_breaks_exclusion) simp_all

end
