(* ===== verification/Controller.thy ===== *)
theory Controller
  imports Core Work_Queue
begin

text \<open>
  The provision controller of \<open>external-storage/lib/controller\<close> (vendored), which drives the core provisioner: its
  construction, which claims it provisions for and which volumes it deletes, \<open>provisionClaimOperation\<close> with
  the attempts to save the volume and to clean up, \<open>deleteVolumeOperation\<close>, and the workers' handlers.

  The Kubernetes API server with the caches of the informers is a parameter (\<open>KubeAPI\<close>), as is the
  election of a leader for a claim. What the controller does is recorded in order (\<open>clActs\<close>).
\<close>

section \<open>A part of the state\<close>

definition zoom :: "('s \<Rightarrow> 't) \<Rightarrow> ('t \<Rightarrow> 's \<Rightarrow> 's) \<Rightarrow> ('t, 'a) go \<Rightarrow> ('s, 'a) go" where
  \<comment> \<open>a function on one part of the state\<close>
  "zoom get put m s = (case m (get s) of None \<Rightarrow> None | Some (r, t) \<Rightarrow> Some (r, put t s))"

lemma zoom_run: "m (get s) = Some (r, t) \<Longrightarrow> zoom get put m s = Some (r, put t s)"
  by (simp add: zoom_def)

lemma zoom_eq: "zoom get put m s = Some (r, s') \<longleftrightarrow> (\<exists>t. m (get s) = Some (r, t) \<and> s' = put t s)"
  by (auto simp: zoom_def split: option.splits)

lemma go_bind_zoom:
  "go_bind (zoom get put m) f s = (case m (get s) of
      None \<Rightarrow> None | Some (Ok x, t) \<Rightarrow> f x (put t s) | Some (Err e, t) \<Rightarrow> Some (Err e, put t s)
    | Some (Panic p, t) \<Rightarrow> Some (Panic p, put t s) | Some (Exit n, t) \<Rightarrow> Some (Exit n, put t s))"
  by (auto simp: go_bind_def zoom_def split: option.split prod.split outcome.split)

section \<open>Construction\<close>

text \<open>
  The controller as \<open>NewProvisionController\<close> constructs it: its settings start from the defaults of its
  package, except \<open>DefaultExponentialBackOffOnError\<close>, which it does not use, and each option sets one. The version of the
  server must be a semantic version.
\<close>

record 'c ProvisionController =
  ctProvisionerName :: string
  ctProvisioner :: "'c OCIProvisioner"
  ctKubeVersion :: string
  ctResyncPeriod :: duration
  ctExponentialBackOffOnError :: bool
  ctFailedProvisionThreshold :: int
  ctLeaseDuration :: duration
  ctRenewDeadline :: duration
  ctRetryPeriod :: duration
  ctTermLimit :: duration
  ctCreateProvisionedPVRetryCount :: int
  ctCreateProvisionedPVInterval :: duration
  ctFailedDeleteThreshold :: int

abbreviation DefaultLeaseDuration :: duration where "DefaultLeaseDuration \<equiv> 15 * Second"
abbreviation DefaultRenewDeadline :: duration where "DefaultRenewDeadline \<equiv> 10 * Second"
abbreviation DefaultRetryPeriod :: duration where "DefaultRetryPeriod \<equiv> 2 * Second"
abbreviation DefaultTermLimit :: duration where "DefaultTermLimit \<equiv> 30 * Second"

definition resyncPeriod :: duration where "resyncPeriod = 15 * Second"

definition exponentialBackOffOnError :: bool where "exponentialBackOffOnError = False"

definition failedRetryThreshold :: int where "failedRetryThreshold = 5"

abbreviation leasePeriod :: duration where "leasePeriod \<equiv> DefaultLeaseDuration"
abbreviation retryPeriod :: duration where "retryPeriod \<equiv> DefaultRetryPeriod"
abbreviation renewDeadline :: duration where "renewDeadline \<equiv> DefaultRenewDeadline"
abbreviation termLimit :: duration where "termLimit \<equiv> DefaultTermLimit"

type_synonym 'c controller_option = "'c ProvisionController \<Rightarrow> 'c ProvisionController"

definition NewProvisionController ::
  "(string \<Rightarrow> error option) \<Rightarrow> string \<Rightarrow> 'c OCIProvisioner \<Rightarrow> string \<Rightarrow> 'c controller_option list \<Rightarrow>
     ('s, 'c ProvisionController) go" where
  \<comment> \<open>the first argument is the parser of semantic versions; \<open>MustParseSemantic\<close> panics with its error\<close>
  "NewProvisionController parseSemantic provisionerName provisioner kubeVersion options =
     (case parseSemantic kubeVersion of
        Some e \<Rightarrow> panics (PanicError e)
      | None \<Rightarrow> ret (fold (\<lambda>option c. option c) options
          \<lparr>ctProvisionerName = provisionerName, ctProvisioner = provisioner, ctKubeVersion = kubeVersion,
           ctResyncPeriod = 15 * Minute, ctExponentialBackOffOnError = False, ctFailedProvisionThreshold = 15,
           ctLeaseDuration = DefaultLeaseDuration, ctRenewDeadline = DefaultRenewDeadline,
           ctRetryPeriod = DefaultRetryPeriod, ctTermLimit = DefaultTermLimit,
           ctCreateProvisionedPVRetryCount = 5, ctCreateProvisionedPVInterval = 10 * Second, ctFailedDeleteThreshold = 15\<rparr>))"

definition controller_options :: "'c controller_option list" where
  \<comment> \<open>the options that \<open>main\<close> gives\<close>
  "controller_options =
     [ctResyncPeriod_update (\<lambda>_. resyncPeriod), ctExponentialBackOffOnError_update (\<lambda>_. exponentialBackOffOnError),
      ctFailedProvisionThreshold_update (\<lambda>_. failedRetryThreshold), ctLeaseDuration_update (\<lambda>_. leasePeriod),
      ctRenewDeadline_update (\<lambda>_. renewDeadline), ctRetryPeriod_update (\<lambda>_. retryPeriod),
      ctTermLimit_update (\<lambda>_. termLimit)]"

definition controller_of :: "'c OCIProvisioner \<Rightarrow> string \<Rightarrow> string \<Rightarrow> 'c ProvisionController" where
  \<comment> \<open>the controller with the settings of the program\<close>
  "controller_of p ty v = \<lparr>ctProvisionerName = ty, ctProvisioner = p, ctKubeVersion = v,
     ctResyncPeriod = 15 * Second, ctExponentialBackOffOnError = False, ctFailedProvisionThreshold = 5,
     ctLeaseDuration = DefaultLeaseDuration, ctRenewDeadline = DefaultRenewDeadline,
     ctRetryPeriod = DefaultRetryPeriod, ctTermLimit = DefaultTermLimit,
     ctCreateProvisionedPVRetryCount = 5, ctCreateProvisionedPVInterval = 10 * Second, ctFailedDeleteThreshold = 15\<rparr>"

lemma NewProvisionController_run:
  "NewProvisionController parse ty p v controller_options s =
     Some (case parse v of Some e \<Rightarrow> Panic (PanicError e) | None \<Rightarrow> Ok (controller_of p ty v), s)"
  by (simp add: NewProvisionController_def controller_options_def controller_of_def resyncPeriod_def exponentialBackOffOnError_def failedRetryThreshold_def
      go_simps split: option.split)

text \<open>
  The rate limiter of the queues: without \<open>ExponentialBackOffOnError\<close> it is the token bucket alone. The queues of claims and of
  volumes share one limiter. Their keys differ (the key of a claim has a slash), so each queue is modelled with a limiter of
  its own, and the bucket's answers leave room for the other queue.
\<close>

definition queue_limiter :: "'c ProvisionController \<Rightarrow> 'b \<Rightarrow> ('k, 'b) RateLimiter" where
  "queue_limiter ct bucket =
     (if \<not> ctExponentialBackOffOnError ct then MaxOfRateLimiter [BucketRateLimiter bucket]
      else MaxOfRateLimiter [ItemExponentialFailureRateLimiter (\<lambda>_. 0) (15 * Second) (1000 * Second), BucketRateLimiter bucket])"

section \<open>Objects\<close>

text \<open>The fields of the objects that only the controller looks at, around those that the provisioner sees.\<close>

abbreviation annClass :: string where "annClass \<equiv> ''volume.beta.kubernetes.io/storage-class''"
abbreviation annDynamicallyProvisioned :: string where "annDynamicallyProvisioned \<equiv> ''pv.kubernetes.io/provisioned-by''"
abbreviation annStorageProvisioner :: string where "annStorageProvisioner \<equiv> ''volume.beta.kubernetes.io/storage-provisioner''"

record ClaimObject =
  coClaim :: PersistentVolumeClaim
  coNamespace :: string
  coVolumeName :: string
  coStorageClassName :: "string option"
  coVolumeMode :: "string option"

record ObjectReference =
  orNamespace :: string
  orName :: string
  orUID :: string

record PVObject =
  poVolume :: PersistentVolume
  poClaimRef :: "ObjectReference option"
  poStorageClassName :: string
  poPhase :: string

record StorageClass =
  scProvisioner :: string
  scParameters :: strmap
  scReclaimPolicy :: "string option"
  scMountOptions :: "string list"

definition SetMetaDataAnnotation :: "string \<Rightarrow> string \<Rightarrow> PersistentVolume \<Rightarrow> PersistentVolume" where
  "SetMetaDataAnnotation ann value pv = pv\<lparr>pvAnnotations :=
     Some ((case pvAnnotations pv of None \<Rightarrow> Map.empty | Some m \<Rightarrow> m)(ann \<mapsto> value))\<rparr>"

definition GetPersistentVolumeClaimClass :: "ClaimObject \<Rightarrow> string" where
  "GetPersistentVolumeClaimClass cobj =
     (case pvcAnnotations (coClaim cobj) annClass of
        Some class_name \<Rightarrow> class_name
      | None \<Rightarrow> (case coStorageClassName cobj of Some n \<Rightarrow> n | None \<Rightarrow> []))"

definition CheckPersistentVolumeClaimModeBlock :: "ClaimObject \<Rightarrow> bool" where
  "CheckPersistentVolumeClaimModeBlock cobj \<longleftrightarrow> coVolumeMode cobj = Some ''Block''"

definition getProvisionedVolumeNameForClaim :: "ClaimObject \<Rightarrow> string" where
  "getProvisionedVolumeNameForClaim cobj = ''pvc-'' @ pvcUID (coClaim cobj)"

section \<open>The API server and the state of the controller\<close>

record 'a KubeAPI =
  kaGet :: "string \<Rightarrow> ('a, error + PVObject) api"
  kaCreate :: "PVObject \<Rightarrow> ('a, error option) api"
  kaDelete :: "string \<Rightarrow> ('a, error option) api"
  kaClasses :: "string \<Rightarrow> 'a \<Rightarrow> error + StorageClass option" \<comment> \<open>\<open>classes.GetByKey\<close>, from the cache\<close>
  kaClaims :: "string \<Rightarrow> 'a \<Rightarrow> error + ClaimObject option" \<comment> \<open>\<open>claims.GetByKey\<close>\<close>
  kaVolumes :: "string \<Rightarrow> 'a \<Rightarrow> error + PVObject option" \<comment> \<open>\<open>volumes.GetByKey\<close>\<close>
  kaReference :: "ClaimObject \<Rightarrow> error + ObjectReference" \<comment> \<open>\<open>ref.GetReference\<close>\<close>
  kaAtLeast :: "string \<Rightarrow> string \<Rightarrow> bool" \<comment> \<open>whether the first version is at least the second\<close>

datatype act =
    Got string "error + PVObject"
  | Created PVObject "error option"
  | Removed string "error option"
  | Provisioned VolumeOptions "error + PersistentVolume"
  | Deprovisioned PersistentVolume "error option"
  | Recorded string string \<comment> \<open>an event: its type and its reason\<close>
  | Slept duration

record ('a, 'c) cluster =
  clWorld :: "'c world"
  clApi :: 'a
  clActs :: "act list"

definition records :: "act \<Rightarrow> (('a, 'c) cluster, unit) go" where
  "records a = modifies (\<lambda>s. s\<lparr>clActs := clActs s @ [a]\<rparr>)"

definition kube_call :: "('r \<Rightarrow> act) \<Rightarrow> ('a, 'r) api \<Rightarrow> (('a, 'c) cluster, 'r) go" where
  "kube_call mk f s = (case f (clock (clWorld s)) (clApi s) of (r, d, a) \<Rightarrow>
     Some (Ok r, s\<lparr>clWorld := (clWorld s)\<lparr>clock := clock (clWorld s) + int d\<rparr>, clApi := a, clActs := clActs s @ [mk r]\<rparr>))"

definition sleeps :: "duration \<Rightarrow> (('a, 'c) cluster, unit) go" where
  "sleeps d = modifies (\<lambda>s. s\<lparr>clWorld := (clWorld s)\<lparr>clock := clock (clWorld s) + max 0 d\<rparr>, clActs := clActs s @ [Slept d]\<rparr>)"

definition attempt :: "('s, 'a) go \<Rightarrow> ('s, error + 'a) go" where
  \<comment> \<open>the error as a value\<close>
  "attempt m = go_try m ret"

abbreviation in_provisioner :: "('c world, 'r) go \<Rightarrow> (('a, 'c) cluster, 'r) go" where
  "in_provisioner \<equiv> zoom clWorld (\<lambda>w s. s\<lparr>clWorld := w\<rparr>)"

definition call_Provision :: "'c ProvisionController \<Rightarrow> VolumeOptions \<Rightarrow> (('a, 'c) cluster, error + PersistentVolume) go" where
  "call_Provision ct options =
     go_bind (attempt (in_provisioner (core_Provision (ctProvisioner ct) options))) (\<lambda>r.
     go_bind (records (Provisioned options r)) (\<lambda>_. ret r))"

definition call_Delete :: "'c ProvisionController \<Rightarrow> PersistentVolume \<Rightarrow> (('a, 'c) cluster, error option) go" where
  "call_Delete ct volume =
     go_bind (attempt (in_provisioner (core_Delete (ctProvisioner ct) volume))) (\<lambda>r.
     let err = (case r of Inl e \<Rightarrow> Some e | Inr _ \<Rightarrow> None) in
     go_bind (records (Deprovisioned volume err)) (\<lambda>_. ret err))"

section \<open>Storage classes\<close>

definition find_class :: "'a KubeAPI \<Rightarrow> string \<Rightarrow> (('a, 'c) cluster, StorageClass) go" where
  "find_class k name =
     go_bind (gets (\<lambda>s. kaClasses k name (clApi s))) (\<lambda>r.
     go_bind (of_result r) (\<lambda>found.
       case found of
         None \<Rightarrow> fail (Errorf ''StorageClass %q not found'' [FmtS name])
       | Some sc \<Rightarrow> ret sc))"

definition getStorageClassFields :: "'a KubeAPI \<Rightarrow> string \<Rightarrow> (('a, 'c) cluster, string \<times> strmap) go" where
  "getStorageClassFields k name = go_bind (find_class k name) (\<lambda>sc. ret (scProvisioner sc, scParameters sc))"

definition fetchReclaimPolicy :: "'a KubeAPI \<Rightarrow> string \<Rightarrow> (('a, 'c) cluster, string) go" where
  "fetchReclaimPolicy k name = go_bind (find_class k name) (\<lambda>sc. deref (scReclaimPolicy sc))"

definition fetchMountOptions :: "'a KubeAPI \<Rightarrow> string \<Rightarrow> (('a, 'c) cluster, string list) go" where
  "fetchMountOptions k name = go_bind (find_class k name) (\<lambda>sc. ret (scMountOptions sc))"

section \<open>What is desired\<close>

text \<open>The core provisioner implements neither \<open>Qualifier\<close> nor \<open>BlockProvisioner\<close>.\<close>

definition supportsBlock :: bool where
  "supportsBlock = False"

definition shouldProvision :: "'a KubeAPI \<Rightarrow> 'c ProvisionController \<Rightarrow> ClaimObject \<Rightarrow> (('a, 'c) cluster, bool) go" where
  "shouldProvision k ct cobj =
     (if coVolumeName cobj \<noteq> [] then ret False
      else if kaAtLeast k (ctKubeVersion ct) ''v1.5.0'' then
        ret (pvcAnnotations (coClaim cobj) annStorageProvisioner = Some (ctProvisionerName ct))
      else
        go_bind (attempt (getStorageClassFields k (GetPersistentVolumeClaimClass cobj))) (\<lambda>r.
          ret (case r of Inl _ \<Rightarrow> False | Inr (provisioner, _) \<Rightarrow> provisioner = ctProvisionerName ct)))"

definition shouldDelete :: "'a KubeAPI \<Rightarrow> 'c ProvisionController \<Rightarrow> PVObject \<Rightarrow> bool" where
  "shouldDelete k ct volume \<longleftrightarrow>
     (if kaAtLeast k (ctKubeVersion ct) ''v1.5.0'' then poPhase volume = ''Released''
      else poPhase volume = ''Released'' \<or> poPhase volume = ''Failed'') \<and>
     pvReclaimPolicy (poVolume volume) = ''Delete'' \<and>
     map_get (pvAnnotations (poVolume volume)) annDynamicallyProvisioned = Some (ctProvisionerName ct)"

definition canProvision :: "ClaimObject \<Rightarrow> bool" where
  "canProvision cobj \<longleftrightarrow> \<not> (CheckPersistentVolumeClaimModeBlock cobj \<and> \<not> supportsBlock)"

section \<open>Provisioning\<close>

definition claim_volume ::
  "'a KubeAPI \<Rightarrow> 'c ProvisionController \<Rightarrow> ObjectReference \<Rightarrow> string \<Rightarrow> PersistentVolume \<Rightarrow> PVObject" where
  \<comment> \<open>the object that is saved\<close>
  "claim_volume k ct claimRef claimClass volume =
     (let pv = SetMetaDataAnnotation annDynamicallyProvisioned (ctProvisionerName ct) volume in
      if kaAtLeast k (ctKubeVersion ct) ''v1.6.0''
      then \<lparr>poVolume = pv, poClaimRef = Some claimRef, poStorageClassName = claimClass, poPhase = []\<rparr>
      else \<lparr>poVolume = SetMetaDataAnnotation annClass claimClass pv, poClaimRef = Some claimRef, poStorageClassName = [], poPhase = []\<rparr>)"

text \<open>The loops that save the object and clean up, with the rounds left and the error of the last round.\<close>

fun save_volume :: "'a KubeAPI \<Rightarrow> duration \<Rightarrow> PVObject \<Rightarrow> nat \<Rightarrow> error option \<Rightarrow> (('a, 'c) cluster, error option) go" where
  "save_volume k interval volume 0 err = ret err"
| "save_volume k interval volume (Suc n) err =
     go_bind (kube_call (Created volume) (kaCreate k volume)) (\<lambda>err'.
       case err' of
         None \<Rightarrow> ret None
       | Some e \<Rightarrow> go_bind (sleeps interval) (\<lambda>_. save_volume k interval volume n (Some e)))"

fun clean_volume :: "'c ProvisionController \<Rightarrow> duration \<Rightarrow> PersistentVolume \<Rightarrow> nat \<Rightarrow> error option \<Rightarrow> (('a, 'c) cluster, error option) go" where
  "clean_volume ct interval volume 0 err = ret err"
| "clean_volume ct interval volume (Suc n) err =
     go_bind (call_Delete ct volume) (\<lambda>err'.
       case err' of
         None \<Rightarrow> ret None
       | Some e \<Rightarrow> go_bind (sleeps interval) (\<lambda>_. clean_volume ct interval volume n (Some e)))"

definition save_or_clean :: "'a KubeAPI \<Rightarrow> 'c ProvisionController \<Rightarrow> PVObject \<Rightarrow> (('a, 'c) cluster, unit) go" where
  "save_or_clean k ct volume =
     (let rounds = nat (ctCreateProvisionedPVRetryCount ct); interval = ctCreateProvisionedPVInterval ct in
      go_bind (save_volume k interval volume rounds None) (\<lambda>err.
        if err \<noteq> None then
          go_bind (records (Recorded ''Warning'' ''ProvisioningFailed'')) (\<lambda>_.
          go_bind (clean_volume ct interval (poVolume volume) rounds err) (\<lambda>err'.
            if err' \<noteq> None then records (Recorded ''Warning'' ''ProvisioningCleanupFailed'') else ret ()))
        else records (Recorded ''Normal'' ''ProvisioningSucceeded'')))"

definition provision_volume ::
  "'a KubeAPI \<Rightarrow> 'c ProvisionController \<Rightarrow> ObjectReference \<Rightarrow> string \<Rightarrow> VolumeOptions \<Rightarrow> (('a, 'c) cluster, unit) go" where
  \<comment> \<open>from the event that announces it on\<close>
  "provision_volume k ct claimRef claimClass options =
     go_bind (records (Recorded ''Normal'' ''Provisioning'')) (\<lambda>_.
     go_bind (call_Provision ct options) (\<lambda>r.
       case r of
         Inl (IgnoredError reason) \<Rightarrow> ret ()
       | Inl err \<Rightarrow> go_bind (records (Recorded ''Warning'' ''ProvisioningFailed'')) (\<lambda>_. fail err)
       | Inr volume \<Rightarrow> save_or_clean k ct (claim_volume k ct claimRef claimClass volume)))"

definition provisionClaimOperation ::
  "'a KubeAPI \<Rightarrow> 'c ProvisionController \<Rightarrow> ClaimObject \<Rightarrow> (('a, 'c) cluster, unit) go" where
  "provisionClaimOperation k ct cobj =
     (let claimClass = GetPersistentVolumeClaimClass cobj; name = getProvisionedVolumeNameForClaim cobj in
      go_bind (kube_call (Got name) (kaGet k name)) (\<lambda>found.
      case found of
        Inr _ \<Rightarrow> ret ()
      | Inl _ \<Rightarrow>
      (case kaReference k cobj of
        Inl _ \<Rightarrow> ret ()
      | Inr claimRef \<Rightarrow>
      go_bind (attempt (getStorageClassFields k claimClass)) (\<lambda>fields.
      case fields of
        Inl _ \<Rightarrow> ret ()
      | Inr (provisioner, parameters) \<Rightarrow>
          if provisioner \<noteq> ctProvisionerName ct then ret ()
          else if \<not> canProvision cobj then records (Recorded ''Warning'' ''ProvisioningFailed'')
          else
            go_bind (if kaAtLeast k (ctKubeVersion ct) ''v1.8.0'' then fetchReclaimPolicy k claimClass else ret ''Delete'') (\<lambda>reclaimPolicy.
            go_bind (fetchMountOptions k claimClass) (\<lambda>mountOptions.
            provision_volume k ct claimRef claimClass
              \<lparr>optReclaimPolicy = reclaimPolicy, optPVName = name, optMountOptions = mountOptions,
               optPVC = Some (coClaim cobj), optParameters = parameters\<rparr>))))))"

section \<open>Deletion\<close>

definition deleteVolumeOperation :: "'a KubeAPI \<Rightarrow> 'c ProvisionController \<Rightarrow> PVObject \<Rightarrow> (('a, 'c) cluster, unit) go" where
  "deleteVolumeOperation k ct volume =
     (let name = pvName (poVolume volume) in
      go_bind (kube_call (Got name) (kaGet k name)) (\<lambda>found.
      case found of
        Inl _ \<Rightarrow> ret ()
      | Inr newVolume \<Rightarrow>
          if \<not> shouldDelete k ct newVolume then ret ()
          else
            go_bind (call_Delete ct (poVolume volume)) (\<lambda>err.
            case err of
              Some (IgnoredError reason) \<Rightarrow> ret ()
            | Some e \<Rightarrow> go_bind (records (Recorded ''Warning'' ''VolumeFailedDelete'')) (\<lambda>_. fail e)
            | None \<Rightarrow>
                go_bind (kube_call (Removed name) (kaDelete k name)) (\<lambda>err.
                case err of None \<Rightarrow> ret () | Some e \<Rightarrow> fail e))))"

section \<open>The handlers\<close>

text \<open>
  The election of a leader is a parameter: \<open>isLeader\<close> says whether this controller leads the claim already, and
  \<open>lock\<close> is \<open>lockProvisionClaimOperation\<close>, applied to the operation that it runs as the leader. The metrics are left out.
\<close>

definition syncClaim ::
  "'a KubeAPI \<Rightarrow> 'c ProvisionController \<Rightarrow> (string \<Rightarrow> ('a, 'c) cluster \<Rightarrow> bool) \<Rightarrow>
     ((('a, 'c) cluster, unit) go \<Rightarrow> (('a, 'c) cluster, unit) go) \<Rightarrow> ClaimObject \<Rightarrow> (('a, 'c) cluster, unit) go" where
  "syncClaim k ct isLeader lock cobj =
     go_bind (shouldProvision k ct cobj) (\<lambda>should.
       if should then
         go_bind (gets (isLeader (pvcUID (coClaim cobj)))) (\<lambda>leads.
         if leads then provisionClaimOperation k ct cobj else lock (provisionClaimOperation k ct cobj))
       else ret ())"

definition syncVolume :: "'a KubeAPI \<Rightarrow> 'c ProvisionController \<Rightarrow> PVObject \<Rightarrow> (('a, 'c) cluster, unit) go" where
  "syncVolume k ct volume = (if shouldDelete k ct volume then deleteVolumeOperation k ct volume else ret ())"

definition syncClaimHandler ::
  "'a KubeAPI \<Rightarrow> 'c ProvisionController \<Rightarrow> (string \<Rightarrow> ('a, 'c) cluster \<Rightarrow> bool) \<Rightarrow>
     ((('a, 'c) cluster, unit) go \<Rightarrow> (('a, 'c) cluster, unit) go) \<Rightarrow> string \<Rightarrow> (('a, 'c) cluster, unit) go" where
  "syncClaimHandler k ct isLeader lock key =
     go_bind (gets (\<lambda>s. kaClaims k key (clApi s))) (\<lambda>r.
     go_bind (of_result r) (\<lambda>found.
       case found of None \<Rightarrow> ret () | Some cobj \<Rightarrow> syncClaim k ct isLeader lock cobj))"

definition syncVolumeHandler :: "'a KubeAPI \<Rightarrow> 'c ProvisionController \<Rightarrow> string \<Rightarrow> (('a, 'c) cluster, unit) go" where
  "syncVolumeHandler k ct key =
     go_bind (gets (\<lambda>s. kaVolumes k key (clApi s))) (\<lambda>r.
     go_bind (of_result r) (\<lambda>found.
       case found of None \<Rightarrow> ret () | Some volume \<Rightarrow> syncVolume k ct volume))"

text \<open>
  One round of a worker: a key of the queue, its handler, and what becomes of the key. The result says
  whether the worker goes on. A panic of the handler ends the process.
\<close>

definition processNextWorkItem ::
  "(time \<Rightarrow> 'b \<Rightarrow> duration \<times> 'b) \<Rightarrow> int \<Rightarrow> (string \<Rightarrow> (('a, 'c) cluster, unit) go) \<Rightarrow>
     (('a, 'c) cluster \<times> (string, 'b) rate_limited, bool) go" where
  "processNextWorkItem reserve threshold handler s =
     (case queue_Get (snd s) of
        None \<Rightarrow> None
      | Some (None, q) \<Rightarrow> Some (Ok False, (fst s, q))
      | Some (Some key, q) \<Rightarrow>
          (case handler key (fst s) of
             None \<Rightarrow> None
           | Some (Ok _, c) \<Rightarrow> Some (Ok True, (c, finish_item reserve threshold (clock (clWorld c)) key None q))
           | Some (Err e, c) \<Rightarrow> Some (Ok True, (c, finish_item reserve threshold (clock (clWorld c)) key (Some e) q))
           | Some (Panic p, c) \<Rightarrow> Some (Panic p, (c, queue_Done key q))
           | Some (Exit n, c) \<Rightarrow> Some (Exit n, (c, q))))"

definition processNextClaimWorkItem ::
  "(time \<Rightarrow> 'b \<Rightarrow> duration \<times> 'b) \<Rightarrow> 'a KubeAPI \<Rightarrow> 'c ProvisionController \<Rightarrow> (string \<Rightarrow> ('a, 'c) cluster \<Rightarrow> bool) \<Rightarrow>
     ((('a, 'c) cluster, unit) go \<Rightarrow> (('a, 'c) cluster, unit) go) \<Rightarrow> (('a, 'c) cluster \<times> (string, 'b) rate_limited, bool) go" where
  "processNextClaimWorkItem reserve k ct isLeader lock =
     processNextWorkItem reserve (ctFailedProvisionThreshold ct) (syncClaimHandler k ct isLeader lock)"

definition processNextVolumeWorkItem ::
  "(time \<Rightarrow> 'b \<Rightarrow> duration \<times> 'b) \<Rightarrow> 'a KubeAPI \<Rightarrow> 'c ProvisionController \<Rightarrow> (('a, 'c) cluster \<times> (string, 'b) rate_limited, bool) go" where
  "processNextVolumeWorkItem reserve k ct =
     processNextWorkItem reserve (ctFailedDeleteThreshold ct) (syncVolumeHandler k ct)"

section \<open>Runs of the parts\<close>

lemma records_run [go_simps]: "records a s = Some (Ok (), s\<lparr>clActs := clActs s @ [a]\<rparr>)"
  by (simp add: records_def go_simps)

lemma go_bind_records [go_simps]: "go_bind (records a) f s = f () (s\<lparr>clActs := clActs s @ [a]\<rparr>)"
  by (simp add: records_def go_simps)

lemma go_bind_sleeps [go_simps]: "go_bind (sleeps d) f s =
    f () (s\<lparr>clWorld := (clWorld s)\<lparr>clock := clock (clWorld s) + max 0 d\<rparr>, clActs := clActs s @ [Slept d]\<rparr>)"
  by (simp add: sleeps_def go_simps)

text \<open>Between requests of the provisioner only the clock of its world moves, and never back.\<close>

definition same_world :: "('a, 'c) cluster \<Rightarrow> ('a, 'c) cluster \<Rightarrow> bool" where
  "same_world s s' \<longleftrightarrow> (\<exists>t \<ge> clock (clWorld s). clWorld s' = (clWorld s)\<lparr>clock := t\<rparr>)"

lemma same_world_events: "same_world s s' \<Longrightarrow> events (clWorld s') = events (clWorld s) \<and>
    cloud (clWorld s') = cloud (clWorld s) \<and> environ (clWorld s') = environ (clWorld s)"
  by (auto simp: same_world_def)

lemma same_worldI: "clWorld s' = (clWorld s)\<lparr>clock := t\<rparr> \<Longrightarrow> clock (clWorld s) \<le> t \<Longrightarrow> same_world s s'"
  unfolding same_world_def by blast

lemma same_world_trans: "same_world s t \<Longrightarrow> same_world t u \<Longrightarrow> same_world s u"
  by (auto simp: same_world_def) (metis order_trans)

lemma same_world_acts [simp]: "same_world s (s\<lparr>clActs := as\<rparr>)" "same_world s s"
  by (auto simp: same_world_def intro: exI [of _ "clock (clWorld s)"])

lemma kube_call_bind:
  assumes "go_bind (kube_call mk f) g s = Some (r, s')"
  obtains x s1 where "clActs s1 = clActs s @ [mk x]" "same_world s s1" "f (clock (clWorld s)) (clApi s) = (x, nat (clock (clWorld s1) - clock (clWorld s)), clApi s1)"
    "g x s1 = Some (r, s')"
proof -
  obtain x d a where f: "f (clock (clWorld s)) (clApi s) = (x, d, a)" by (metis prod_cases3)
  let ?s1 = "s\<lparr>clWorld := (clWorld s)\<lparr>clock := clock (clWorld s) + int d\<rparr>, clApi := a, clActs := clActs s @ [mk x]\<rparr>"
  have "same_world s ?s1" by (rule same_worldI [where t = "clock (clWorld s) + int d"]) simp_all
  moreover have "g x ?s1 = Some (r, s')" using assms f by (simp add: go_bind_def kube_call_def)
  ultimately show thesis by (intro that [of ?s1 x]) (simp_all add: f)
qed

lemma attempt_run: "attempt m s = (case m s of
    None \<Rightarrow> None | Some (Ok x, s') \<Rightarrow> Some (Ok (Inr x), s') | Some (Err e, s') \<Rightarrow> Some (Ok (Inl e), s')
  | Some (Panic p, s') \<Rightarrow> Some (Panic p, s') | Some (Exit n, s') \<Rightarrow> Some (Exit n, s'))"
  by (auto simp: attempt_def go_try_def go_simps split: option.split outcome.split)

lemma find_class_run: "find_class k name s = Some (case kaClasses k name (clApi s) of
    Inl e \<Rightarrow> Err e | Inr None \<Rightarrow> Err (Errorf ''StorageClass %q not found'' [FmtS name]) | Inr (Some sc) \<Rightarrow> Ok sc, s)"
  by (auto simp: find_class_def go_simps split: sum.split option.split)

lemma class_runs:
  "\<exists>r. getStorageClassFields k name s = Some (r, s) \<and> (\<forall>p n. r \<noteq> Panic p \<and> r \<noteq> Exit n)"
  "\<exists>r. fetchReclaimPolicy k name s = Some (r, s)" "\<exists>r. fetchMountOptions k name s = Some (r, s)"
  by (auto simp: getStorageClassFields_def fetchReclaimPolicy_def fetchMountOptions_def go_bind_def find_class_run go_simps deref_def
      split: sum.split option.split)

text \<open>What the loops do.\<close>

definition failed_saves :: "duration \<Rightarrow> PVObject \<Rightarrow> error list \<Rightarrow> act list" where
  "failed_saves d v es = concat (map (\<lambda>e. [Created v (Some e), Slept d]) es)"

definition failed_deletes :: "duration \<Rightarrow> PersistentVolume \<Rightarrow> error list \<Rightarrow> act list" where
  "failed_deletes d pv es = concat (map (\<lambda>e. [Deprovisioned pv (Some e), Slept d]) es)"

lemma failed_simps [simp]:
  "failed_saves d v [] = []" "failed_saves d v (e # es) = Created v (Some e) # Slept d # failed_saves d v es"
  "failed_deletes d pv [] = []" "failed_deletes d pv (e # es) = Deprovisioned pv (Some e) # Slept d # failed_deletes d pv es"
  by (simp_all add: failed_saves_def failed_deletes_def)

lemma save_volume_run:
  assumes "save_volume k d v n err s = Some (r, s')"
  shows "same_world s s' \<and> (\<exists>es. length es < n \<and> r = Ok None \<and> clActs s' = clActs s @ failed_saves d v es @ [Created v None] \<or>
    length es = n \<and> r = Ok (last (err # map Some es)) \<and> clActs s' = clActs s @ failed_saves d v es)"
  using assms
proof (induction n arbitrary: err s)
  case 0
  then show ?case by (auto simp: go_simps intro!: exI [of _ "[]"])
next
  case (Suc n)
  from Suc.prems have "go_bind (kube_call (Created v) (kaCreate k v)) (\<lambda>err'.
      case err' of None \<Rightarrow> ret None | Some e \<Rightarrow> go_bind (sleeps d) (\<lambda>_. save_volume k d v n (Some e))) s = Some (r, s')" by simp
  then obtain x s1 where x: "clActs s1 = clActs s @ [Created v x]" "same_world s s1"
    and run: "(case x of None \<Rightarrow> ret None | Some e \<Rightarrow> go_bind (sleeps d) (\<lambda>_. save_volume k d v n (Some e))) s1 = Some (r, s')"
    by (rule kube_call_bind)
  show ?case
  proof (cases x)
    case None
    then show ?thesis using x run by (auto simp: go_simps intro!: exI [of _ "[]"])
  next
    case (Some e)
    let ?s2 = "s1\<lparr>clWorld := (clWorld s1)\<lparr>clock := clock (clWorld s1) + max 0 d\<rparr>, clActs := clActs s1 @ [Slept d]\<rparr>"
    have "save_volume k d v n (Some e) ?s2 = Some (r, s')" using run Some by (simp add: go_simps)
    note IH = Suc.IH [OF this]
    have "same_world s1 ?s2" by (rule same_worldI [where t = "clock (clWorld s1) + max 0 d"]) simp_all
    with x(2) have "same_world s ?s2" by (rule same_world_trans)
    then have "same_world s s'" using IH same_world_trans by blast
    moreover obtain es where es: "length es < n \<and> r = Ok None \<and> clActs s' = clActs ?s2 @ failed_saves d v es @ [Created v None] \<or>
        length es = n \<and> r = Ok (last (Some e # map Some es)) \<and> clActs s' = clActs ?s2 @ failed_saves d v es" using IH by blast
    ultimately show ?thesis using x(1) Some by (intro conjI exI [of _ "e # es"]) auto
  qed
qed

lemma call_Delete_bind:
  assumes "go_bind (call_Delete ct pv) g s = Some (y, s')" and "y = Ok z \<or> (\<exists>e. y = Err e)"
  obtains r w s1 where "core_Delete (ctProvisioner ct) pv (clWorld s) = Some (r, w)" "r = Ok () \<or> (\<exists>e. r = Err e)"
    "s1 = s\<lparr>clWorld := w, clActs := clActs s @ [Deprovisioned pv (case r of Err e \<Rightarrow> Some e | _ \<Rightarrow> None)]\<rparr>"
    "g (case r of Err e \<Rightarrow> Some e | _ \<Rightarrow> None) s1 = Some (y, s')"
  using assms that
  by (auto simp: call_Delete_def go_bind_def attempt_run zoom_def go_simps Let_def records_run split: option.splits outcome.splits)

lemma clean_volume_run:
  assumes "clean_volume ct d pv n err s = Some (Ok x, s')"
  shows "\<exists>es. length es < n \<and> x = None \<and> clActs s' = clActs s @ failed_deletes d pv es @ [Deprovisioned pv None] \<or>
    length es = n \<and> x = last (err # map Some es) \<and> clActs s' = clActs s @ failed_deletes d pv es"
  using assms
proof (induction n arbitrary: err s)
  case 0
  then show ?case by (auto simp: go_simps intro!: exI [of _ "[]"])
next
  case (Suc n)
  from Suc.prems have "go_bind (call_Delete ct pv) (\<lambda>err'.
      case err' of None \<Rightarrow> ret None | Some e \<Rightarrow> go_bind (sleeps d) (\<lambda>_. clean_volume ct d pv n (Some e))) s = Some (Ok x, s')" by simp
  then obtain r w s1 where x: "core_Delete (ctProvisioner ct) pv (clWorld s) = Some (r, w)" "r = Ok () \<or> (\<exists>e. r = Err e)"
    "s1 = s\<lparr>clWorld := w, clActs := clActs s @ [Deprovisioned pv (case r of Err e \<Rightarrow> Some e | _ \<Rightarrow> None)]\<rparr>"
    "(case (case r of Err e \<Rightarrow> Some e | _ \<Rightarrow> None) of None \<Rightarrow> ret None
      | Some e \<Rightarrow> go_bind (sleeps d) (\<lambda>_. clean_volume ct d pv n (Some e))) s1 = Some (Ok x, s')"
    by (rule call_Delete_bind) blast
  from x(2) show ?case
  proof
    assume "r = Ok ()"
    then show ?thesis using x by (auto simp: go_simps intro!: exI [of _ "[]"])
  next
    assume "\<exists>e. r = Err e"
    then obtain e where e: "r = Err e" ..
    let ?s2 = "s1\<lparr>clWorld := (clWorld s1)\<lparr>clock := clock (clWorld s1) + max 0 d\<rparr>, clActs := clActs s1 @ [Slept d]\<rparr>"
    have "clean_volume ct d pv n (Some e) ?s2 = Some (Ok x, s')" using x(4) e by (simp add: go_simps)
    from Suc.IH [OF this] obtain es where "length es < n \<and> x = None \<and> clActs s' = clActs ?s2 @ failed_deletes d pv es @ [Deprovisioned pv None] \<or>
      length es = n \<and> x = last (Some e # map Some es) \<and> clActs s' = clActs ?s2 @ failed_deletes d pv es" by blast
    then show ?thesis using x(3) e by (intro exI [of _ "e # es"]) auto
  qed
qed

section \<open>Saved or cleaned up\<close>

text \<open>
  What becomes of a volume that was provisioned for a claim: its object is saved, after fewer than \<open>n\<close> failed
  attempts, or all \<open>n\<close> attempts failed and it is deleted, after fewer than \<open>n\<close> failed attempts, or all attempts failed
  and an event says so.
\<close>

definition accounted :: "nat \<Rightarrow> duration \<Rightarrow> PVObject \<Rightarrow> act list \<Rightarrow> bool" where
  "accounted n d v as \<longleftrightarrow>
     (\<exists>es. length es < n \<and> as = failed_saves d v es @ [Created v None, Recorded ''Normal'' ''ProvisioningSucceeded'']) \<or>
     (\<exists>es fs. length es = n \<and> length fs < n \<and> as = failed_saves d v es @ Recorded ''Warning'' ''ProvisioningFailed'' #
        failed_deletes d (poVolume v) fs @ [Deprovisioned (poVolume v) None]) \<or>
     (\<exists>es fs. length es = n \<and> length fs = n \<and> as = failed_saves d v es @ Recorded ''Warning'' ''ProvisioningFailed'' #
        failed_deletes d (poVolume v) fs @ [Recorded ''Warning'' ''ProvisioningCleanupFailed''])"

lemma last_Some: "n \<noteq> 0 \<Longrightarrow> length es = n \<Longrightarrow> \<exists>e. last (err # map Some es) = Some e"
  by (cases es rule: rev_cases) auto

lemma not_saved:
  "Created v' None \<notin> set (failed_saves d v es)" "Created v' None \<notin> set (failed_deletes d pv fs)"
  "Provisioned opts x \<notin> set (failed_saves d v es)" "Provisioned opts x \<notin> set (failed_deletes d pv fs)"
  by (auto simp: failed_saves_def failed_deletes_def)

lemma save_or_clean_cases:
  fixes s s' :: "('a, 'c) cluster"
  assumes "save_or_clean k ct v s = Some (Ok (), s')" and "0 < ctCreateProvisionedPVRetryCount ct"
  obtains (saved) es where "length es < nat (ctCreateProvisionedPVRetryCount ct)" "same_world s s'"
      "clActs s' = clActs s @ failed_saves (ctCreateProvisionedPVInterval ct) v es @ [Created v None, Recorded ''Normal'' ''ProvisioningSucceeded'']"
    | (cleaned) es e y and s2 s3 :: "('a, 'c) cluster" where "length es = nat (ctCreateProvisionedPVRetryCount ct)"
      "clActs s2 = clActs s @ failed_saves (ctCreateProvisionedPVInterval ct) v es @ [Recorded ''Warning'' ''ProvisioningFailed'']"
      "clean_volume ct (ctCreateProvisionedPVInterval ct) (poVolume v) (nat (ctCreateProvisionedPVRetryCount ct)) (Some e) s2 = Some (Ok y, s3)"
      "clActs s' = clActs s3 @ (if y = None then [] else [Recorded ''Warning'' ''ProvisioningCleanupFailed''])"
proof -
  let ?n = "nat (ctCreateProvisionedPVRetryCount ct)" and ?d = "ctCreateProvisionedPVInterval ct"
  have n: "?n \<noteq> 0" using assms(2) by simp
  from assms(1) obtain x s1 where save: "save_volume k ?d v ?n None s = Some (Ok x, s1)"
    and rest: "(if x \<noteq> None then go_bind (records (Recorded ''Warning'' ''ProvisioningFailed'')) (\<lambda>_.
        go_bind (clean_volume ct ?d (poVolume v) ?n x) (\<lambda>err'.
          if err' \<noteq> None then records (Recorded ''Warning'' ''ProvisioningCleanupFailed'') else ret ()))
      else records (Recorded ''Normal'' ''ProvisioningSucceeded'')) s1 = Some (Ok (), s')"
    by (auto simp: save_or_clean_def Let_def go_bind_eq_Ok)
  note run = save_volume_run [OF save]
  then obtain es where
    "length es < ?n \<and> x = None \<and> clActs s1 = clActs s @ failed_saves ?d v es @ [Created v None] \<or>
     length es = ?n \<and> x = last (None # map Some es) \<and> clActs s1 = clActs s @ failed_saves ?d v es" by auto
  then show thesis
  proof
    assume es: "length es < ?n \<and> x = None \<and> clActs s1 = clActs s @ failed_saves ?d v es @ [Created v None]"
    then have s': "s' = s1\<lparr>clActs := clActs s1 @ [Recorded ''Normal'' ''ProvisioningSucceeded'']\<rparr>"
      using rest by (auto simp: go_simps)
    have "same_world s s'" unfolding s' by (rule same_world_trans [OF _ same_world_acts(1)]) (use run in blast)
    with es s' show thesis by (intro saved [of es]) simp_all
  next
    assume es: "length es = ?n \<and> x = last (None # map Some es) \<and> clActs s1 = clActs s @ failed_saves ?d v es"
    then obtain e where e: "x = Some e" using last_Some [OF n, of es None] by auto
    let ?s2 = "s1\<lparr>clActs := clActs s1 @ [Recorded ''Warning'' ''ProvisioningFailed'']\<rparr>"
    from rest e obtain y s3 where "clean_volume ct ?d (poVolume v) ?n (Some e) ?s2 = Some (Ok y, s3)"
      and "(if y \<noteq> None then records (Recorded ''Warning'' ''ProvisioningCleanupFailed'') else ret ()) s3 = Some (Ok (), s')"
      by (auto simp: go_simps go_bind_eq_Ok)
    then show thesis using es by (intro cleaned [of es ?s2 e y s3]) (auto simp: go_simps split: if_splits)
  qed
qed

lemma save_or_clean_run:
  assumes "save_or_clean k ct v s = Some (Ok (), s')" and "0 < ctCreateProvisionedPVRetryCount ct"
  shows "\<exists>as. clActs s' = clActs s @ as \<and>
    accounted (nat (ctCreateProvisionedPVRetryCount ct)) (ctCreateProvisionedPVInterval ct) v as \<and>
    (\<forall>v'. Created v' None \<in> set as \<longrightarrow> v' = v \<and> same_world s s')"
proof -
  let ?n = "nat (ctCreateProvisionedPVRetryCount ct)" and ?d = "ctCreateProvisionedPVInterval ct"
  show ?thesis
    using assms
  proof (cases rule: save_or_clean_cases)
    case (saved es)
    then show ?thesis
      by (intro exI [of _ "failed_saves ?d v es @ [Created v None, Recorded ''Normal'' ''ProvisioningSucceeded'']"])
        (auto simp: accounted_def not_saved)
  next
    case (cleaned es e y s2 s3)
    have n: "?n \<noteq> 0" using assms(2) by simp
    let ?w = "\<lambda>fs. failed_saves ?d v es @ Recorded ''Warning'' ''ProvisioningFailed'' # failed_deletes ?d (poVolume v) fs"
    from clean_volume_run [OF cleaned(3)] obtain fs where
      "length fs < ?n \<and> y = None \<and> clActs s3 = clActs s2 @ failed_deletes ?d (poVolume v) fs @ [Deprovisioned (poVolume v) None] \<or>
       length fs = ?n \<and> y = last (Some e # map Some fs) \<and> clActs s3 = clActs s2 @ failed_deletes ?d (poVolume v) fs" by blast
    then show ?thesis
    proof
      assume "length fs < ?n \<and> y = None \<and> clActs s3 = clActs s2 @ failed_deletes ?d (poVolume v) fs @ [Deprovisioned (poVolume v) None]"
      then show ?thesis using cleaned
        by (intro exI [of _ "?w fs @ [Deprovisioned (poVolume v) None]"]) (auto simp: accounted_def not_saved)
    next
      assume fs: "length fs = ?n \<and> y = last (Some e # map Some fs) \<and> clActs s3 = clActs s2 @ failed_deletes ?d (poVolume v) fs"
      then have "y \<noteq> None" using last_Some [OF n, of fs "Some e"] by auto
      then show ?thesis using cleaned fs
        by (intro exI [of _ "?w fs @ [Recorded ''Warning'' ''ProvisioningCleanupFailed'']"]) (auto simp: accounted_def not_saved)
    qed
  qed
qed

section \<open>An operation for a claim\<close>

text \<open>The operation ends before anything is provisioned, or it comes to \<open>provision_volume\<close>.\<close>

definition provision_options :: "ClaimObject \<Rightarrow> string \<Rightarrow> StorageClass \<Rightarrow> VolumeOptions" where
  "provision_options cobj policy sc =
     \<lparr>optReclaimPolicy = policy, optPVName = getProvisionedVolumeNameForClaim cobj, optMountOptions = scMountOptions sc,
      optPVC = Some (coClaim cobj), optParameters = scParameters sc\<rparr>"

lemma provisionClaim_cases:
  assumes "provisionClaimOperation k ct cobj s = Some (r, s')"
  obtains (nothing) x as where "same_world s s'" "clActs s' = clActs s @ Got (getProvisionedVolumeNameForClaim cobj) x # as"
      "set as \<subseteq> {Recorded ''Warning'' ''ProvisioningFailed''}"
      "\<exists>t d. kaGet k (getProvisionedVolumeNameForClaim cobj) t (clApi s) = (x, d, clApi s')"
    | (provision) e s1 ref sc policy where "same_world s s1" "clActs s1 = clActs s @ [Got (getProvisionedVolumeNameForClaim cobj) (Inl e)]"
      "\<exists>t d. kaGet k (getProvisionedVolumeNameForClaim cobj) t (clApi s) = (Inl e, d, clApi s1)"
      "kaReference k cobj = Inr ref" "kaClasses k (GetPersistentVolumeClaimClass cobj) (clApi s1) = Inr (Some sc)"
      "scProvisioner sc = ctProvisionerName ct" "canProvision cobj"
      "if kaAtLeast k (ctKubeVersion ct) ''v1.8.0'' then scReclaimPolicy sc = Some policy else policy = ''Delete''"
      "provision_volume k ct ref (GetPersistentVolumeClaimClass cobj) (provision_options cobj policy sc) s1 = Some (r, s')"
proof -
  let ?c = "GetPersistentVolumeClaimClass cobj" and ?n = "getProvisionedVolumeNameForClaim cobj"
  obtain x s1 where x: "clActs s1 = clActs s @ [Got ?n x]" "same_world s s1"
    and got: "kaGet k ?n (clock (clWorld s)) (clApi s) = (x, nat (clock (clWorld s1) - clock (clWorld s)), clApi s1)"
    and run: "(case x of Inr _ \<Rightarrow> ret () | Inl _ \<Rightarrow>
      (case kaReference k cobj of Inl _ \<Rightarrow> ret () | Inr ref \<Rightarrow>
      go_bind (attempt (getStorageClassFields k ?c)) (\<lambda>fields.
      case fields of Inl _ \<Rightarrow> ret () | Inr (provisioner, parameters) \<Rightarrow>
        if provisioner \<noteq> ctProvisionerName ct then ret ()
        else if \<not> canProvision cobj then records (Recorded ''Warning'' ''ProvisioningFailed'')
        else go_bind (if kaAtLeast k (ctKubeVersion ct) ''v1.8.0'' then fetchReclaimPolicy k ?c else ret ''Delete'') (\<lambda>reclaimPolicy.
          go_bind (fetchMountOptions k ?c) (\<lambda>mountOptions.
          provision_volume k ct ref ?c
            \<lparr>optReclaimPolicy = reclaimPolicy, optPVName = ?n, optMountOptions = mountOptions,
             optPVC = Some (coClaim cobj), optParameters = parameters\<rparr>))))) s1 = Some (r, s')"
    using assms unfolding provisionClaimOperation_def Let_def by (rule kube_call_bind)
  have early: "s' = s1 \<or> s' = s1\<lparr>clActs := clActs s1 @ [Recorded ''Warning'' ''ProvisioningFailed'']\<rparr> \<Longrightarrow> thesis"
  proof (elim disjE)
    assume "s' = s1"
    show thesis by (rule that(1) [of x "[]"]) (use x got \<open>s' = s1\<close> in auto)
  next
    assume s': "s' = s1\<lparr>clActs := clActs s1 @ [Recorded ''Warning'' ''ProvisioningFailed'']\<rparr>"
    have "same_world s s'" unfolding s' by (rule same_world_trans [OF x(2) same_world_acts(1)])
    then show thesis by (rule that(1) [of x "[Recorded ''Warning'' ''ProvisioningFailed'']"]) (use x got s' in auto)
  qed
  show thesis
  proof (cases x)
    case (Inr y)
    then show thesis using run early by (simp add: go_simps)
  next
    case (Inl e)
    show thesis
    proof (cases "\<exists>ref sc. kaReference k cobj = Inr ref \<and> kaClasses k ?c (clApi s1) = Inr (Some sc) \<and>
        scProvisioner sc = ctProvisionerName ct \<and> canProvision cobj")
      case False
      then show thesis
        using run Inl early
        by (auto simp: go_simps getStorageClassFields_def go_bind_def attempt_run find_class_run split: sum.splits option.splits if_splits)
    next
      case True
      then obtain ref sc where c: "kaReference k cobj = Inr ref" "kaClasses k ?c (clApi s1) = Inr (Some sc)"
        "scProvisioner sc = ctProvisionerName ct" "canProvision cobj" by blast
      have "s' = s1 \<or> (\<exists>policy. (if kaAtLeast k (ctKubeVersion ct) ''v1.8.0'' then scReclaimPolicy sc = Some policy else policy = ''Delete'') \<and>
          provision_volume k ct ref ?c (provision_options cobj policy sc) s1 = Some (r, s'))"
        using run Inl c
        by (auto simp: go_simps getStorageClassFields_def fetchReclaimPolicy_def fetchMountOptions_def go_bind_def attempt_run
            find_class_run provision_options_def deref_def split: option.splits if_splits)
      moreover have "\<exists>t d. kaGet k ?n t (clApi s) = (Inl e, d, clApi s1)" using got Inl by blast
      ultimately show thesis using early provision [OF x(2) x(1) [unfolded Inl] _ c] by blast
    qed
  qed
qed

lemma provision_volume_cases:
  assumes "provision_volume k ct ref c opts s = Some (r, s')"
  obtains (failed) e w where "core_Provision (ctProvisioner ct) opts (clWorld s) = Some (Err e, w)" "clWorld s' = w" "clApi s' = clApi s"
      "r = (case e of IgnoredError _ \<Rightarrow> Ok () | _ \<Rightarrow> Err e)"
      "clActs s' = clActs s @ [Recorded ''Normal'' ''Provisioning'', Provisioned opts (Inl e)] @
        (case e of IgnoredError _ \<Rightarrow> [] | _ \<Rightarrow> [Recorded ''Warning'' ''ProvisioningFailed''])"
    | (dead) "\<And>x. r \<noteq> Ok x" "\<And>e. r \<noteq> Err e" "clActs s' = clActs s @ [Recorded ''Normal'' ''Provisioning'']"
      "clApi s' = clApi s"
    | (made) pv w s1 where "core_Provision (ctProvisioner ct) opts (clWorld s) = Some (Ok pv, w)"
      "s1 = s\<lparr>clWorld := w, clActs := clActs s @ [Recorded ''Normal'' ''Provisioning'', Provisioned opts (Inr pv)]\<rparr>"
      "save_or_clean k ct (claim_volume k ct ref c pv) s1 = Some (r, s')"
proof -
  obtain x w where p: "core_Provision (ctProvisioner ct) opts (clWorld s) = Some (x, w)"
    using assms by (auto simp: provision_volume_def call_Provision_def go_simps go_bind_def attempt_run zoom_def split: option.splits)
  show thesis
  proof (cases x)
    case (Ok pv)
    then show thesis using assms p made [of pv w]
      by (simp add: provision_volume_def call_Provision_def go_simps go_bind_def attempt_run zoom_def)
  next
    case (Err e)
    then show thesis using assms p failed [of e w]
      by (cases e) (auto simp: provision_volume_def call_Provision_def go_simps go_bind_def attempt_run zoom_def)
  next
    case (Panic q)
    then show thesis using assms p dead
      by (auto simp: provision_volume_def call_Provision_def go_simps go_bind_def attempt_run zoom_def)
  next
    case (Exit n)
    then show thesis using assms p dead
      by (auto simp: provision_volume_def call_Provision_def go_simps go_bind_def attempt_run zoom_def)
  qed
qed

lemma go_bind_eq_Err: "go_bind m f s = Some (Err e, s') \<longleftrightarrow>
    m s = Some (Err e, s') \<or> (\<exists>x s1. m s = Some (Ok x, s1) \<and> f x s1 = Some (Err e, s'))"
  by (auto simp: go_bind_def split: option.splits outcome.splits)

lemma call_Delete_no_Err: "call_Delete ct pv s \<noteq> Some (Err e, s')"
  by (auto simp: call_Delete_def go_bind_def attempt_run records_run ret_def Let_def split: option.splits outcome.splits)

lemma clean_volume_no_Err: "clean_volume ct d pv n err s \<noteq> Some (Err e, s')"
proof (induction n arbitrary: err s)
  case (Suc n)
  then show ?case
    by (auto simp: go_bind_eq_Err call_Delete_no_Err sleeps_def modifies_def ret_def split: option.splits)
qed (simp add: ret_def)

lemma save_or_clean_no_Err: "save_or_clean k ct v s \<noteq> Some (Err e, s')"
proof
  let ?n = "nat (ctCreateProvisionedPVRetryCount ct)" and ?d = "ctCreateProvisionedPVInterval ct"
  have saved: "save_volume k ?d v ?n None s \<noteq> Some (Err e, s')" using save_volume_run [of k ?d v ?n None s] by auto
  assume "save_or_clean k ct v s = Some (Err e, s')"
  then show False
    using saved
    by (auto simp: save_or_clean_def Let_def go_bind_eq_Err clean_volume_no_Err records_run ret_def split: if_splits)
qed

lemma not_in_early: "set as \<subseteq> {Recorded a b} \<Longrightarrow> Provisioned opts x \<notin> set as" "set as \<subseteq> {Recorded a b} \<Longrightarrow> Removed n res \<notin> set as"
  by auto

lemma accounted_once: "accounted n d v as \<Longrightarrow> Provisioned opts x \<notin> set as"
  by (auto simp: accounted_def not_saved)

lemma made_acts:
  assumes "provision_volume k ct ref c opts s = Some (r, s')" and "0 < ctCreateProvisionedPVRetryCount ct"
    and "r = Ok () \<or> (\<exists>e. r = Err e)"
  shows "(\<exists>pv as. r = Ok () \<and> clActs s' = clActs s @ Recorded ''Normal'' ''Provisioning'' # Provisioned opts (Inr pv) # as \<and>
        accounted (nat (ctCreateProvisionedPVRetryCount ct)) (ctCreateProvisionedPVInterval ct) (claim_volume k ct ref c pv) as) \<or>
      (\<exists>e as. clActs s' = clActs s @ Recorded ''Normal'' ''Provisioning'' # Provisioned opts (Inl e) # as \<and>
        set as \<subseteq> {Recorded ''Warning'' ''ProvisioningFailed''})"
  using assms(1)
proof (cases rule: provision_volume_cases)
  case (failed e w)
  then show ?thesis by (cases e) auto
next
  case dead
  then show ?thesis using assms(3) by blast
next
  case (made pv w s1)
  have "r = Ok ()" using assms(3) made(3) save_or_clean_no_Err by blast
  from save_or_clean_run [OF made(3) [unfolded this] assms(2)] show ?thesis using made(2) \<open>r = Ok ()\<close> by auto
qed

text \<open>
  C4: an operation for a claim accounts for every volume it provisions. When it has returned, and provisioned the volume \<open>pv\<close>
  on the way, it returned without an error, and after provisioning it either saved the object of the volume, with its claim, class and
  annotations, after at most four failed attempts, or made five failed attempts, said so in an event, and then deleted
  the volume again or, after five failed deletions, said in an event that the clean-up failed. No volume is dropped silently.
\<close>

theorem claim_volume_accounted:
  assumes "provisionClaimOperation k ct cobj s = Some (r, s')" and "r = Ok () \<or> (\<exists>e. r = Err e)"
    and "0 < ctCreateProvisionedPVRetryCount ct"
    and "clActs s' = clActs s @ as" and "Provisioned opts (Inr pv) \<in> set as"
  shows "r = Ok () \<and> (\<exists>before after ref. as = before @ Provisioned opts (Inr pv) # after \<and> kaReference k cobj = Inr ref \<and>
    accounted (nat (ctCreateProvisionedPVRetryCount ct)) (ctCreateProvisionedPVInterval ct)
      (claim_volume k ct ref (GetPersistentVolumeClaimClass cobj) pv) after)"
  using assms(1)
proof (cases rule: provisionClaim_cases)
  case (nothing x as')
  then show ?thesis using assms(4,5) not_in_early by fastforce
next
  case (provision e s1 ref sc policy)
  let ?o = "provision_options cobj policy sc" and ?c = "GetPersistentVolumeClaimClass cobj"
  from made_acts [OF provision(9) assms(3,2)] show ?thesis
  proof (elim disjE exE conjE)
    fix pv' as'
    assume run: "r = Ok ()" "clActs s' = clActs s1 @ Recorded ''Normal'' ''Provisioning'' # Provisioned ?o (Inr pv') # as'"
      and acc: "accounted (nat (ctCreateProvisionedPVRetryCount ct)) (ctCreateProvisionedPVInterval ct) (claim_volume k ct ref ?c pv') as'"
    have as: "as = [Got (getProvisionedVolumeNameForClaim cobj) (Inl e), Recorded ''Normal'' ''Provisioning''] @ Provisioned ?o (Inr pv') # as'"
      using assms(4) provision(2) run(2) by simp
    have "Provisioned opts (Inr pv) \<notin> set as'" using accounted_once [OF acc] .
    then have "opts = ?o \<and> pv = pv'" using assms(5) as by auto
    then show ?thesis using run(1) as acc provision(4) by blast
  next
    fix e' as'
    assume "clActs s' = clActs s1 @ Recorded ''Normal'' ''Provisioning'' # Provisioned ?o (Inl e') # as'"
      "set as' \<subseteq> {Recorded ''Warning'' ''ProvisioningFailed''}"
    then show ?thesis using assms(4,5) provision(2) not_in_early by fastforce
  qed
qed

section \<open>Saved objects\<close>

text \<open>What an operation that saved an object did: it provisioned the volume of the object, and only that.\<close>

lemma saved_by:
  assumes "provisionClaimOperation k ct cobj s = Some (Ok (), s')" and "clActs s' = clActs s @ as" and "Created v None \<in> set as"
    and "0 < ctCreateProvisionedPVRetryCount ct"
  obtains e s1 ref sc policy pv w where "same_world s s1" "kaReference k cobj = Inr ref"
    "core_Provision (ctProvisioner ct) (provision_options cobj policy sc) (clWorld s1) = Some (Ok pv, w)"
    "v = claim_volume k ct ref (GetPersistentVolumeClaimClass cobj) pv" "new_events (clWorld s) (clWorld s') = new_events (clWorld s1) w"
    "scProvisioner sc = ctProvisionerName ct" "canProvision cobj" "kaClasses k (GetPersistentVolumeClaimClass cobj) (clApi s1) = Inr (Some sc)"
    "if kaAtLeast k (ctKubeVersion ct) ''v1.8.0'' then scReclaimPolicy sc = Some policy else policy = ''Delete''"
  using assms(1)
proof (cases rule: provisionClaim_cases)
  case (nothing x as')
  then show thesis using assms(2,3) by auto
next
  case (provision e s1 ref sc policy)
  from provision(9) show thesis
  proof (cases rule: provision_volume_cases)
    case (failed e w)
    then show thesis using assms(2,3) provision(2) by (cases e) auto
  next
    case dead
    then show thesis by blast
  next
    case (made pv w s2)
    from save_or_clean_run [OF made(3) assms(4)] obtain bs where bs: "clActs s' = clActs s2 @ bs"
      "\<forall>v'. Created v' None \<in> set bs \<longrightarrow> v' = claim_volume k ct ref (GetPersistentVolumeClaimClass cobj) pv \<and> same_world s2 s'" by blast
    have "Created v None \<in> set bs" using assms(2,3) bs(1) made(2) provision(2) by auto
    then have saved: "v = claim_volume k ct ref (GetPersistentVolumeClaimClass cobj) pv" "same_world s2 s'" using bs(2) by blast+
    have "new_events (clWorld s) (clWorld s') = new_events (clWorld s1) w"
      using same_world_events [OF saved(2)] same_world_events [OF provision(1)] made(2) by (simp add: new_events_def)
    with that [OF provision(1,4) made(1) saved(1)] provision show thesis by blast
  qed
qed

section \<open>An operation for a volume\<close>

text \<open>What the operation does, and its result, for each answer of the server and of the provisioner.\<close>

definition delete_outcome ::
  "'a KubeAPI \<Rightarrow> 'c ProvisionController \<Rightarrow> PVObject \<Rightarrow> error + PVObject \<Rightarrow> error option \<Rightarrow> error option \<Rightarrow> act list \<times> unit outcome" where
  "delete_outcome k ct v found err res =
     (let n = pvName (poVolume v) in
      case found of
        Inl e \<Rightarrow> ([Got n found], Ok ())
      | Inr new \<Rightarrow>
          if \<not> shouldDelete k ct new then ([Got n found], Ok ())
          else case err of
            None \<Rightarrow> ([Got n found, Deprovisioned (poVolume v) None, Removed n res], (case res of None \<Rightarrow> Ok () | Some e \<Rightarrow> Err e))
          | Some (IgnoredError reason) \<Rightarrow> ([Got n found, Deprovisioned (poVolume v) err], Ok ())
          | Some e \<Rightarrow> ([Got n found, Deprovisioned (poVolume v) err, Recorded ''Warning'' ''VolumeFailedDelete''], Err e))"

lemma deleteVolumeOperation_cases:
  assumes "deleteVolumeOperation k ct v s = Some (r, s')" and "r = Ok () \<or> (\<exists>e. r = Err e)"
  obtains (kept) found where "(\<exists>e. found = Inl e) \<or> (\<exists>new. found = Inr new \<and> \<not> shouldDelete k ct new)"
      "fst (kaGet k (pvName (poVolume v)) (clock (clWorld s)) (clApi s)) = found"
      "r = Ok ()" "clActs s' = clActs s @ [Got (pvName (poVolume v)) found]" "same_world s s'"
    | (asked) new s1 x w res where "shouldDelete k ct new" "same_world s s1"
      "fst (kaGet k (pvName (poVolume v)) (clock (clWorld s)) (clApi s)) = Inr new"
      "core_Delete (ctProvisioner ct) (poVolume v) (clWorld s1) = Some (x, w)" "x = Ok () \<or> (\<exists>e. x = Err e)"
      "clActs s' = clActs s @ fst (delete_outcome k ct v (Inr new) (case x of Err e \<Rightarrow> Some e | _ \<Rightarrow> None) res)"
      "r = snd (delete_outcome k ct v (Inr new) (case x of Err e \<Rightarrow> Some e | _ \<Rightarrow> None) res)"
      "events (clWorld s') = events w"
proof -
  let ?n = "pvName (poVolume v)"
  obtain found s1 where f: "clActs s1 = clActs s @ [Got ?n found]" "same_world s s1"
      "fst (kaGet k ?n (clock (clWorld s)) (clApi s)) = found"
    and run: "(case found of Inl _ \<Rightarrow> ret () | Inr newVolume \<Rightarrow>
        if \<not> shouldDelete k ct newVolume then ret ()
        else go_bind (call_Delete ct (poVolume v)) (\<lambda>err.
          case err of
            Some (IgnoredError reason) \<Rightarrow> ret ()
          | Some e \<Rightarrow> go_bind (records (Recorded ''Warning'' ''VolumeFailedDelete'')) (\<lambda>_. fail e)
          | None \<Rightarrow> go_bind (kube_call (Removed ?n) (kaDelete k ?n)) (\<lambda>err. case err of None \<Rightarrow> ret () | Some e \<Rightarrow> fail e))) s1 = Some (r, s')"
    using assms(1) unfolding deleteVolumeOperation_def Let_def by (rule kube_call_bind) simp
  show thesis
  proof (cases "\<exists>new. found = Inr new \<and> shouldDelete k ct new")
    case False
    then have "r = Ok () \<and> s' = s1" using run by (cases found) (auto simp: go_simps)
    with False f kept [of found] show thesis by (cases found) auto
  next
    case True
    then obtain new where new: "found = Inr new" "shouldDelete k ct new" by blast
    let ?g = "\<lambda>err. case err of
            Some (IgnoredError reason) \<Rightarrow> ret ()
          | Some e \<Rightarrow> go_bind (records (Recorded ''Warning'' ''VolumeFailedDelete'')) (\<lambda>_. fail e)
          | None \<Rightarrow> go_bind (kube_call (Removed ?n) (kaDelete k ?n)) (\<lambda>err. case err of None \<Rightarrow> ret () | Some e \<Rightarrow> fail e)"
    from run new have run': "go_bind (call_Delete ct (poVolume v)) ?g s1 = Some (r, s')" by simp
    obtain x w s2 where d: "core_Delete (ctProvisioner ct) (poVolume v) (clWorld s1) = Some (x, w)" "x = Ok () \<or> (\<exists>e. x = Err e)"
      "s2 = s1\<lparr>clWorld := w, clActs := clActs s1 @ [Deprovisioned (poVolume v) (case x of Err e \<Rightarrow> Some e | _ \<Rightarrow> None)]\<rparr>"
      "?g (case x of Err e \<Rightarrow> Some e | _ \<Rightarrow> None) s2 = Some (r, s')"
      by (rule call_Delete_bind [OF run' assms(2)])
    from d(2) show thesis
    proof
      assume x: "x = Ok ()"
      with d(4) have "go_bind (kube_call (Removed ?n) (kaDelete k ?n)) (\<lambda>err. case err of None \<Rightarrow> ret () | Some e \<Rightarrow> fail e) s2 = Some (r, s')"
        by simp
      then obtain res s3 where s3: "clActs s3 = clActs s2 @ [Removed ?n res]" "same_world s2 s3"
        "(case res of None \<Rightarrow> ret () | Some e \<Rightarrow> fail e) s3 = Some (r, s')" by (rule kube_call_bind)
      then have s': "s' = s3" "r = (case res of None \<Rightarrow> Ok () | Some e \<Rightarrow> Err e)" by (cases res; simp add: go_simps)+
      show thesis
        by (rule asked [OF new(2) f(2) f(3) [unfolded new(1)] d(1,2), of res])
          (use s' s3 d(3) x f(1) new same_world_events [OF s3(2)] in \<open>simp_all add: delete_outcome_def Let_def\<close>)
    next
      assume "\<exists>e. x = Err e"
      then obtain e where x: "x = Err e" ..
      show thesis
        by (rule asked [OF new(2) f(2) f(3) [unfolded new(1)] d(1,2), of None])
          (use d(3,4) x f(1) new in \<open>cases e; auto simp: delete_outcome_def Let_def go_simps\<close>)+
    qed
  qed
qed

section \<open>Runs from what the server answers\<close>

lemma kube_call_goes:
  obtains s1 where "kube_call mk f s = Some (Ok (fst (f (clock (clWorld s)) (clApi s))), s1)"
    "clActs s1 = clActs s @ [mk (fst (f (clock (clWorld s)) (clApi s)))]" "same_world s s1"
    "\<exists>t d. f t (clApi s) = (fst (f (clock (clWorld s)) (clApi s)), d, clApi s1)"
proof -
  obtain x d a where f: "f (clock (clWorld s)) (clApi s) = (x, d, a)" by (metis prod_cases3)
  let ?s1 = "s\<lparr>clWorld := (clWorld s)\<lparr>clock := clock (clWorld s) + int d\<rparr>, clApi := a, clActs := clActs s @ [mk x]\<rparr>"
  have "same_world s ?s1" by (rule same_worldI [where t = "clock (clWorld s) + int d"]) simp_all
  then show thesis using f by (intro that [of ?s1]) (auto simp: kube_call_def)
qed

lemma go_bind_call_Delete:
  assumes "core_Delete (ctProvisioner ct) pv (clWorld s) = Some (r, w)" and "r = Ok () \<or> (\<exists>e. r = Err e)"
  shows "go_bind (call_Delete ct pv) g s = g (case r of Err e \<Rightarrow> Some e | _ \<Rightarrow> None)
    (s\<lparr>clWorld := w, clActs := clActs s @ [Deprovisioned pv (case r of Err e \<Rightarrow> Some e | _ \<Rightarrow> None)]\<rparr>)"
  using assms by (auto simp: call_Delete_def go_bind_def attempt_run zoom_def go_simps Let_def records_run)

lemma provisionClaim_goes:
  assumes "fst (kaGet k (getProvisionedVolumeNameForClaim cobj) (clock (clWorld s)) (clApi s)) = Inl e"
    and "kaReference k cobj = Inr ref" and "\<And>a. kaClasses k (GetPersistentVolumeClaimClass cobj) a = Inr (Some sc)"
    and "scProvisioner sc = ctProvisionerName ct" and "canProvision cobj"
    and "if kaAtLeast k (ctKubeVersion ct) ''v1.8.0'' then scReclaimPolicy sc = Some policy else policy = ''Delete''"
  obtains s1 where "provisionClaimOperation k ct cobj s =
      provision_volume k ct ref (GetPersistentVolumeClaimClass cobj) (provision_options cobj policy sc) s1"
    "clActs s1 = clActs s @ [Got (getProvisionedVolumeNameForClaim cobj) (Inl e)]" "same_world s s1"
    "\<exists>t d. kaGet k (getProvisionedVolumeNameForClaim cobj) t (clApi s) = (Inl e, d, clApi s1)"
proof -
  let ?n = "getProvisionedVolumeNameForClaim cobj"
  obtain s1 where s1: "kube_call (Got ?n) (kaGet k ?n) s = Some (Ok (Inl e), s1)" "clActs s1 = clActs s @ [Got ?n (Inl e)]"
    "same_world s s1" "\<exists>t d. kaGet k ?n t (clApi s) = (Inl e, d, clApi s1)"
    using kube_call_goes [of "Got ?n" "kaGet k ?n" s] unfolding assms(1) by blast
  show thesis
    by (rule that [of s1])
      (use s1 assms in \<open>auto simp: provisionClaimOperation_def Let_def getStorageClassFields_def fetchReclaimPolicy_def
        fetchMountOptions_def go_bind_def attempt_run find_class_run go_simps provision_options_def\<close>)
qed

lemma deleteVolume_goes:
  assumes "fst (kaGet k (pvName (poVolume v)) (clock (clWorld s)) (clApi s)) = Inr new" and "shouldDelete k ct new"
    and "\<And>w. events w = events (clWorld s) \<Longrightarrow> \<exists>r w'. core_Delete (ctProvisioner ct) (poVolume v) w = Some (r, w') \<and> (r = Ok () \<or> (\<exists>e. r = Err e))"
  obtains r s' where "deleteVolumeOperation k ct v s = Some (r, s')" "r = Ok () \<or> (\<exists>e. r = Err e)"
proof -
  let ?n = "pvName (poVolume v)"
  obtain s1 where s1: "kube_call (Got ?n) (kaGet k ?n) s = Some (Ok (Inr new), s1)" "same_world s s1"
    using kube_call_goes [of "Got ?n" "kaGet k ?n" s] unfolding assms(1) by blast
  from assms(3) [of "clWorld s1"] same_world_events [OF s1(2)] obtain r w where
    d: "core_Delete (ctProvisioner ct) (poVolume v) (clWorld s1) = Some (r, w)" "r = Ok () \<or> (\<exists>e. r = Err e)" by auto
  let ?s2 = "s1\<lparr>clWorld := w, clActs := clActs s1 @ [Deprovisioned (poVolume v) (case r of Err e \<Rightarrow> Some e | _ \<Rightarrow> None)]\<rparr>"
  obtain res s3 where s3: "kube_call (Removed ?n) (kaDelete k ?n) ?s2 = Some (Ok res, s3)"
    using kube_call_goes [of "Removed ?n" "kaDelete k ?n" ?s2] by blast
  have "deleteVolumeOperation k ct v s = (case (case r of Err e \<Rightarrow> Some e | _ \<Rightarrow> None) of
              Some (IgnoredError reason) \<Rightarrow> ret ()
            | Some e \<Rightarrow> go_bind (records (Recorded ''Warning'' ''VolumeFailedDelete'')) (\<lambda>_. fail e)
            | None \<Rightarrow> go_bind (kube_call (Removed ?n) (kaDelete k ?n)) (\<lambda>err. case err of None \<Rightarrow> ret () | Some e \<Rightarrow> fail e)) ?s2"
    using assms(1,2) by (simp add: deleteVolumeOperation_def Let_def go_bind_def [of "kube_call (Got _) _"] s1(1) go_bind_call_Delete [OF d])
  then have "\<exists>r s'. deleteVolumeOperation k ct v s = Some (r, s') \<and> (r = Ok () \<or> (\<exists>e. r = Err e))"
    using d(2) s3
    by (cases res) (auto simp: go_simps go_bind_def [of "kube_call _ _"] split: error.splits)
  then show thesis using that by blast
qed

section \<open>A concrete server\<close>

text \<open>A server that keeps a list of objects and knows one storage class.\<close>

definition listed :: "string \<Rightarrow> PVObject list \<Rightarrow> PVObject option" where
  "listed n vs = find (\<lambda>v. pvName (poVolume v) = n) vs"

definition list_server :: "StorageClass \<Rightarrow> PVObject list KubeAPI" where
  "list_server sc =
     \<lparr>kaGet = (\<lambda>n t vs. (case listed n vs of None \<Rightarrow> Inl (Errorf ''not found'' []) | Some v \<Rightarrow> Inr v, 0, vs)),
      kaCreate = (\<lambda>v t vs. (None, 0, vs @ [v])),
      kaDelete = (\<lambda>n t vs. (None, 0, filter (\<lambda>v. pvName (poVolume v) \<noteq> n) vs)),
      kaClasses = (\<lambda>n vs. Inr (Some sc)), kaClaims = (\<lambda>key vs. Inr None), kaVolumes = (\<lambda>key vs. Inr (listed key vs)),
      kaReference = (\<lambda>cobj. Inr \<lparr>orNamespace = coNamespace cobj, orName = pvcName (coClaim cobj), orUID = pvcUID (coClaim cobj)\<rparr>),
      kaAtLeast = (\<lambda>v v'. True)\<rparr>"

lemma list_server_simps [simp]:
  "kaGet (list_server sc) n u vs = (case listed n vs of None \<Rightarrow> Inl (Errorf ''not found'' []) | Some v \<Rightarrow> Inr v, 0, vs)"
  "kaCreate (list_server sc) v u vs = (None, 0, vs @ [v])"
  "kaDelete (list_server sc) n u vs = (None, 0, filter (\<lambda>v. pvName (poVolume v) \<noteq> n) vs)"
  "kaClasses (list_server sc) n vs = Inr (Some sc)" "kaVolumes (list_server sc) n vs = Inr (listed n vs)"
  "kaAtLeast (list_server sc) a b"
  by (simp_all add: list_server_def)

definition block_class :: StorageClass where
  "block_class = \<lparr>scProvisioner = ProvisionerNameDefault, scParameters = Map.empty, scReclaimPolicy = Some ''Delete'', scMountOptions = []\<rparr>"

definition mock_object :: ClaimObject where
  "mock_object = \<lparr>coClaim = the (optPVC (claim [ReadWriteOnce] 20 Map.empty)), coNamespace = ''default'', coVolumeName = [],
     coStorageClassName = Some ''oci'', coVolumeMode = None\<rparr>"

definition mock_cluster :: "PVObject list \<Rightarrow> (PVObject list, unit) cluster" where
  "mock_cluster vs = \<lparr>clWorld = configured, clApi = vs, clActs = []\<rparr>"

abbreviation block_controller :: "unit ProvisionController" where
  "block_controller \<equiv> controller_of mock_block_core ProvisionerNameDefault ''v1.10.0''"

lemma controller_of_simps [simp]:
  "ctProvisionerName (controller_of p ty v) = ty" "ctProvisioner (controller_of p ty v) = p" "ctKubeVersion (controller_of p ty v) = v"
  "ctCreateProvisionedPVRetryCount (controller_of p ty v) = 5" "ctFailedProvisionThreshold (controller_of p ty v) = 5"
  "ctFailedDeleteThreshold (controller_of p ty v) = 15" "\<not> ctExponentialBackOffOnError (controller_of p ty v)"
  by (simp_all add: controller_of_def)

lemma block_class_simps [simp]:
  "scProvisioner block_class = ProvisionerNameDefault" "scReclaimPolicy block_class = Some ''Delete''"
  by (simp_all add: block_class_def)

text \<open>The block plugin does not use the name that the controller asks for.\<close>

lemma block_ignores_name: "block_Provision b (opts\<lparr>optPVName := n\<rparr>) = block_Provision b opts"
proof -
  have pv: "block_pv (opts\<lparr>optPVName := n\<rparr>) = block_pv opts" by (intro ext) (simp add: block_pv_def resolveFSType_def)
  have o: "optPVC (opts\<lparr>optPVName := n\<rparr>) = optPVC opts" "optParameters (opts\<lparr>optPVName := n\<rparr>) = optParameters opts" by simp_all
  show ?thesis unfolding block_Provision_def pv o by (rule refl)
qed

lemma core_ignores_name:
  "core_Provision mock_block_core (opts\<lparr>optPVName := n\<rparr>) = core_Provision mock_block_core opts"
  by (intro ext) (simp add: core_Provision_def mock_core_def block_ignores_name)

lemma mock_options: "provision_options mock_object ''Delete'' block_class = (claim [ReadWriteOnce] 20 Map.empty)\<lparr>optPVName := ''pvc-uid''\<rparr>"
  by (simp add: provision_options_def mock_object_def block_class_def claim_def getProvisionedVolumeNameForClaim_def)

definition mock_saved :: "PersistentVolume \<Rightarrow> PVObject" where
  "mock_saved pv = claim_volume (list_server block_class) block_controller
     \<lparr>orNamespace = ''default'', orName = ''claim'', orUID = ''uid''\<rparr> ''oci'' pv"

lemma mock_claim_run:
  assumes "listed ''pvc-uid'' vs = None"
  obtains pv w' s' where "core_Provision mock_block_core (claim [ReadWriteOnce] 20 Map.empty) configured = Some (Ok pv, w')"
    "pvName pv = VolumeBackupID"
    "provisionClaimOperation (list_server block_class) block_controller mock_object (mock_cluster vs) = Some (Ok (), s')"
    "clActs s' = [Got ''pvc-uid'' (Inl (Errorf ''not found'' [])), Recorded ''Normal'' ''Provisioning'',
      Provisioned (provision_options mock_object ''Delete'' block_class) (Inr pv),
      Created (mock_saved pv) None,
      Recorded ''Normal'' ''ProvisioningSucceeded'']"
    "clApi s' = vs @ [mock_saved pv]"
    "clWorld s' = w'"
proof -
  obtain pv w' where run: "core_Provision mock_block_core (claim [ReadWriteOnce] 20 Map.empty) configured = Some (Ok pv, w')"
    "pvName pv = VolumeBackupID" using mock_block_core_run by blast
  let ?o = "provision_options mock_object ''Delete'' block_class"
  have p: "core_Provision mock_block_core ?o configured = Some (Ok pv, w')" using run(1) by (simp add: mock_options core_ignores_name)
  let ?k = "list_server block_class" and ?ct = block_controller and ?n = "''pvc-uid''"
  have n: "getProvisionedVolumeNameForClaim mock_object = ?n" by (simp add: getProvisionedVolumeNameForClaim_def mock_object_def claim_def)
  have c: "GetPersistentVolumeClaimClass mock_object = ''oci''" by (simp add: GetPersistentVolumeClaimClass_def mock_object_def claim_def)
  let ?ref = "\<lparr>orNamespace = ''default'', orName = ''claim'', orUID = ''uid''\<rparr>"
  have ref: "kaReference ?k mock_object = Inr ?ref" by (simp add: list_server_def mock_object_def claim_def)
  let ?s1 = "(mock_cluster vs)\<lparr>clActs := [Got ?n (Inl (Errorf ''not found'' []))]\<rparr>"
  have got: "kube_call (Got ?n) (kaGet ?k ?n) (mock_cluster vs) = Some (Ok (Inl (Errorf ''not found'' [])), ?s1)"
    using assms by (simp add: kube_call_def list_server_def mock_cluster_def)
  have can: "canProvision mock_object" by (simp add: canProvision_def CheckPersistentVolumeClaimModeBlock_def mock_object_def)
  have "provisionClaimOperation ?k ?ct mock_object (mock_cluster vs) = provision_volume ?k ?ct ?ref ''oci'' ?o ?s1"
    by (simp add: provisionClaimOperation_def Let_def n c ref got can getStorageClassFields_def
        fetchReclaimPolicy_def fetchMountOptions_def go_bind_def attempt_run find_class_run go_simps provision_options_def)
  also have "\<dots> = save_or_clean ?k ?ct (claim_volume ?k ?ct ?ref ''oci'' pv) (?s1\<lparr>clWorld := w',
      clActs := clActs ?s1 @ [Recorded ''Normal'' ''Provisioning'', Provisioned ?o (Inr pv)]\<rparr>)"
    using p by (simp add: provision_volume_def call_Provision_def go_simps go_bind_def attempt_run zoom_def mock_cluster_def)
  finally have "provisionClaimOperation ?k ?ct mock_object (mock_cluster vs) = Some (Ok (), \<lparr>clWorld = w', clApi = vs @ [mock_saved pv],
      clActs = clActs ?s1 @ [Recorded ''Normal'' ''Provisioning'', Provisioned ?o (Inr pv), Created (mock_saved pv) None,
        Recorded ''Normal'' ''ProvisioningSucceeded'']\<rparr>)"
    by (simp add: save_or_clean_def Let_def numeral_eq_Suc go_bind_def kube_call_def go_simps mock_cluster_def mock_saved_def)
  then show thesis by (rule that [OF run]) simp_all
qed

theorem claim_volume_accounted_witness:
  "\<exists>pv s' bs. provisionClaimOperation (list_server block_class) block_controller mock_object (mock_cluster []) = Some (Ok (), s') \<and>
    Provisioned (provision_options mock_object ''Delete'' block_class) (Inr pv) \<in> set (clActs s') \<and>
    accounted 5 (10 * Second) (mock_saved pv) bs"
proof -
  have none: "listed ''pvc-uid'' [] = None" by (simp add: listed_def)
  obtain pv s' where run: "provisionClaimOperation (list_server block_class) block_controller mock_object (mock_cluster []) = Some (Ok (), s')"
    and acts: "clActs s' = [Got ''pvc-uid'' (Inl (Errorf ''not found'' [])), Recorded ''Normal'' ''Provisioning'',
      Provisioned (provision_options mock_object ''Delete'' block_class) (Inr pv), Created (mock_saved pv) None,
      Recorded ''Normal'' ''ProvisioningSucceeded'']"
    by (rule mock_claim_run [OF none]) blast
  have "clActs s' = clActs (mock_cluster []) @ clActs s'" by (simp add: mock_cluster_def)
  from claim_volume_accounted [OF run disjI1 [OF refl] _ this, of "provision_options mock_object ''Delete'' block_class" pv] acts
  obtain ref bs where "kaReference (list_server block_class) mock_object = Inr ref"
    "accounted 5 (10 * Second) (claim_volume (list_server block_class) block_controller ref
      (GetPersistentVolumeClaimClass mock_object) pv) bs" by (auto simp: controller_of_def)
  moreover from this(1) have "claim_volume (list_server block_class) block_controller ref (GetPersistentVolumeClaimClass mock_object) pv =
      mock_saved pv"
    by (auto simp: list_server_def mock_object_def claim_def mock_saved_def GetPersistentVolumeClaimClass_def)
  ultimately show ?thesis using run acts by (intro exI [of _ pv] exI [of _ s'] exI [of _ bs]) simp
qed

section \<open>Deletion\<close>

text \<open>
  C5: an object goes only after its storage. If an operation for a volume has returned and asked the server to remove an object, then it
  was the object of that volume, the server had just returned it as one to delete, the provisioner had deleted its volume
  without an error before, and the removal is the last thing the operation did; the operation returns its error.
\<close>

theorem volume_removed_last:
  assumes "deleteVolumeOperation k ct v s = Some (r, s')" and "r = Ok () \<or> (\<exists>e. r = Err e)"
    and "clActs s' = clActs s @ as" and "Removed n res \<in> set as"
  shows "n = pvName (poVolume v) \<and> r = (case res of None \<Rightarrow> Ok () | Some e \<Rightarrow> Err e) \<and>
    (\<exists>new. as = [Got n (Inr new), Deprovisioned (poVolume v) None, Removed n res] \<and> shouldDelete k ct new) \<and>
    (\<exists>s1 w. same_world s s1 \<and> core_Delete (ctProvisioner ct) (poVolume v) (clWorld s1) = Some (Ok (), w) \<and>
      events (clWorld s') = events w)"
  using assms(1,2)
proof (cases rule: deleteVolumeOperation_cases)
  case (kept found)
  then show ?thesis using assms(3,4) by auto
next
  case (asked new s1 x w res')
  have as: "as = fst (delete_outcome k ct v (Inr new) (case x of Err e \<Rightarrow> Some e | _ \<Rightarrow> None) res')"
    using asked(6) assms(3) by simp
  from asked(5) show ?thesis
  proof
    assume "x = Ok ()"
    with as asked(1) have "as = [Got (pvName (poVolume v)) (Inr new), Deprovisioned (poVolume v) None, Removed (pvName (poVolume v)) res']"
      by (simp add: delete_outcome_def Let_def)
    then show ?thesis using assms(4) asked \<open>x = Ok ()\<close> by (auto simp: delete_outcome_def Let_def)
  next
    assume "\<exists>e. x = Err e"
    then obtain e where "x = Err e" ..
    then show ?thesis using assms(4) as asked(1) by (cases e) (auto simp: delete_outcome_def Let_def)
  qed
qed

text \<open>
  C33: the provisioner's controller leaves the volumes of other provisioners alone. When a worker takes the key of a volume that
  carries the mark of another owner, whatever the server answers, nothing is sent to the services, no object is removed, and the key is
  done and forgotten, not tried again.
\<close>

theorem foreign_volume_kept:
  assumes "queue_Get q = Some (Some key, q')" and "kaVolumes k key (clApi c) = Inr (Some v)"
    and "map_get (pvAnnotations (poVolume v)) ociProvisionerIdentity = Some other" and "other \<noteq> ociProvisionerIdentity"
  shows "\<exists>c' as. processNextVolumeWorkItem reserve k ct (c, q) = Some (Ok True, (c', queue_Done key (Forget key q'))) \<and>
    events (clWorld c') = events (clWorld c) \<and> clActs c' = clActs c @ as \<and> (\<forall>n res. Removed n res \<notin> set as)"
proof -
  let ?n = "pvName (poVolume v)"
  have foreign: "core_Delete (ctProvisioner ct) (poVolume v) w =
      Some (Err (IgnoredError ''identity annotation on PV does not match ours''), w)" for w
    using assms(3,4) by (simp add: core_Delete_def go_simps)
  have "\<exists>c' as. syncVolume k ct v c = Some (Ok (), c') \<and> events (clWorld c') = events (clWorld c) \<and>
      clActs c' = clActs c @ as \<and> (\<forall>n res. Removed n res \<notin> set as)"
  proof (cases "shouldDelete k ct v")
    case True
    obtain s1 where s1: "kube_call (Got ?n) (kaGet k ?n) c = Some (Ok (fst (kaGet k ?n (clock (clWorld c)) (clApi c))), s1)"
      "clActs s1 = clActs c @ [Got ?n (fst (kaGet k ?n (clock (clWorld c)) (clApi c)))]" "same_world c s1"
      by (rule kube_call_goes [of "Got ?n" "kaGet k ?n" c])
    show ?thesis
      using True s1 same_world_events [OF s1(3)]
      by (cases "fst (kaGet k ?n (clock (clWorld c)) (clApi c))")
        (auto simp: syncVolume_def deleteVolumeOperation_def Let_def go_bind_Ok [of "kube_call _ _", OF s1(1)] go_simps
          go_bind_call_Delete [OF foreign])
  qed (auto simp: syncVolume_def go_simps)
  then show ?thesis
    using assms(1,2)
    by (auto simp: processNextVolumeWorkItem_def processNextWorkItem_def syncVolumeHandler_def go_simps finish_item_def)
qed

lemma block_Delete_returns:
  assumes "block_Delete b pv w = Some (r, w')"
  shows "r = Ok () \<or> (\<exists>e. r = Err e)"
proof (cases "map_get (pvAnnotations pv) OCIVolumeID")
  case (Some volID)
  let ?ctx = "WithTimeout Background (clock w) (pcTimeout (bpClient b))"
  obtain resp err d cl where api:
    "DeleteVolume (pcBlockStorage (bpClient b)) ?ctx (Some volID) (clock w) (cloud w) = ((resp, err), d, cl)"
    by (metis prod_cases3 surj_pair)
  show ?thesis
    using assms by (cases err) (auto simp: Some block_Delete_def go_simps go_bind_invoke [of "DeleteVolume _ _ _", OF api] split: if_splits)
qed (use assms in \<open>auto simp: block_Delete_def go_simps\<close>)

section \<open>From the claim to the deletion\<close>

lemma claim_volume_parts [simp]:
  "pvName (poVolume (claim_volume k ct ref c pv)) = pvName pv"
  "pvReclaimPolicy (poVolume (claim_volume k ct ref c pv)) = pvReclaimPolicy pv"
  "map_get (pvAnnotations (poVolume (claim_volume k ct ref c pv))) annDynamicallyProvisioned = Some (ctProvisionerName ct)"
  "key \<noteq> annDynamicallyProvisioned \<Longrightarrow> key \<noteq> annClass \<Longrightarrow>
    map_get (pvAnnotations (poVolume (claim_volume k ct ref c pv))) key = map_get (pvAnnotations pv) key"
  by (auto simp: claim_volume_def SetMetaDataAnnotation_def Let_def map_get_def split: option.split)

lemma block_core_made:
  assumes "block_core p c b" and "core_Provision p opts w = Some (Ok pv, w')"
  shows "pvReclaimPolicy pv = optReclaimPolicy opts" and "map_get (pvAnnotations pv) OCIVolumeID = Some (pvName pv)"
    and "map_get (pvAnnotations pv) ociProvisionerIdentity = Some ociProvisionerIdentity"
    and "\<exists>cr d vol. cr \<in> set (new_events w w') \<and> evCall cr = CallCreateVolume d (Inr vol) \<and> volId vol = Some (pvName pv)"
proof -
  let ?b = "b\<lparr>bpClient := client_of c\<rparr>"
  have ok: "client_ok (opClient p)" "client_ok (bpClient ?b)"
    and pl: "plProvision (opPlugin p) = block_Provision ?b"
    using assms(1) by (simp_all add: block_core_def)
  obtain name ad e w1 pv0 w2 where made: "events w1 = events w @ [e]"
    "plProvision (opPlugin p) opts ad w1 = Some (Ok pv0, w2)" "mark p name ad pv0 w2 = Some (Ok pv, w')"
    by (rule core_Provision_Ok [OF assms(2) ok(1)]) (rule that)
  note run = made(2) [unfolded pl]
  obtain pvc a q ocid region where pv0: "pv0 = block_pv opts pvc a q ocid region"
    using run ok(2)
  proof (cases rule: block_Provision_cases)
    case (created pvc q a c p w1 ocid w2 md)
    from created(8) [OF refl] obtain region where "pv0 = block_pv opts pvc a (snd (block_sizing ?b (optParameters opts) q)) ocid region" by blast
    then show thesis by (rule that)
  qed auto
  from mark_Ok [OF made(3)] obtain n a' l c' where m: "pvAnnotations pv0 = Some a'"
    "pv = pv0\<lparr>pvAnnotations := Some (a'(ociProvisionerIdentity \<mapsto> ociProvisionerIdentity, ociAvailabilityDomain \<mapsto> name,
      ociCompartment \<mapsto> c')), pvLabels := Some (l(kubeLabelZoneFailureDomain \<mapsto> mapAvailabilityDomainToFailureDomain n))\<rparr>" by blast
  then show "pvReclaimPolicy pv = optReclaimPolicy opts" "map_get (pvAnnotations pv) OCIVolumeID = Some (pvName pv)"
    "map_get (pvAnnotations pv) ociProvisionerIdentity = Some ociProvisionerIdentity"
    using pv0 by (auto simp: block_pv_def)
  from block_Provision_available' [OF run ok(2)] obtain cr d vol where
    "cr \<in> set (new_events w1 w2)" "evCall cr = CallCreateVolume d (Inr vol)" "volId vol = Some (pvName pv0)" by blast
  moreover have "extends w1 w2" by (rule keepsD [OF block_Provision_frame [OF ok(2)] run])
  moreover have "extends w2 w'" by (rule keepsD [OF mark_frame [OF ok(1)] made(3)])
  moreover have "pvName pv = pvName pv0" using m by simp
  ultimately show "\<exists>cr d vol. cr \<in> set (new_events w w') \<and> evCall cr = CallCreateVolume d (Inr vol) \<and> volId vol = Some (pvName pv)"
    using made(1) by (auto simp: extends_def new_events_def)
qed

text \<open>
  C3: what a claim gets is deleted when it is released. Let an operation of the controller with the block provisioner save the object \<open>v\<close> for a claim
  of a class with the policy \<open>Delete\<close>. The object is named after a volume that the operation created. When the object is
  released later, and the server returns it so, then the operation for the volume, in whatever state, sends exactly one
  request, and that request deletes that volume.
\<close>

theorem claim_to_deletion:
  assumes "block_core (ctProvisioner ct) c b" and "0 < ctCreateProvisionedPVRetryCount ct"
    and "provisionClaimOperation k ct cobj s = Some (Ok (), s')" and "clActs s' = clActs s @ as" and "Created v None \<in> set as"
    and "\<And>a. kaClasses k (GetPersistentVolumeClaimClass cobj) a = Inr (Some sc)" and "scReclaimPolicy sc = Some ''Delete''"
    and "fst (kaGet k (pvName (poVolume v)) (clock (clWorld u)) (clApi u)) = Inr (v\<lparr>poPhase := ''Released''\<rparr>)"
  shows "(\<exists>cr d vol. cr \<in> set (new_events (clWorld s) (clWorld s')) \<and> evCall cr = CallCreateVolume d (Inr vol) \<and>
      volId vol = Some (pvName (poVolume v))) \<and>
    (\<exists>r u' x res. deleteVolumeOperation k ct (v\<lparr>poPhase := ''Released''\<rparr>) u = Some (r, u') \<and>
      new_events (clWorld u) (clWorld u') = [x] \<and> evCall x = CallDeleteVolume (Some (pvName (poVolume v))) res)"
proof (rule saved_by [OF assms(3-5,2)])
  fix s1 ref sc' policy pv w
  assume prov: "core_Provision (ctProvisioner ct) (provision_options cobj policy sc') (clWorld s1) = Some (Ok pv, w)"
    and v: "v = claim_volume k ct ref (GetPersistentVolumeClaimClass cobj) pv"
    and new: "new_events (clWorld s) (clWorld s') = new_events (clWorld s1) w"
    and sc': "kaClasses k (GetPersistentVolumeClaimClass cobj) (clApi s1) = Inr (Some sc')"
    and policy: "if kaAtLeast k (ctKubeVersion ct) ''v1.8.0'' then scReclaimPolicy sc' = Some policy else policy = ''Delete''"
  note made = block_core_made [OF assms(1) prov]
  have "policy = ''Delete''" using policy sc' assms(6,7) by (auto split: if_splits)
  then have should: "shouldDelete k ct (v\<lparr>poPhase := ''Released''\<rparr>)"
    using made(1) by (simp add: shouldDelete_def v provision_options_def)
  let ?pv = "poVolume v" and ?b = "b\<lparr>bpClient := client_of c\<rparr>"
  have del: "core_Delete (ctProvisioner ct) ?pv = block_Delete ?b ?pv"
    using assms(1) made(3) by (simp add: core_Delete_def v block_core_def)
  have ann: "map_get (pvAnnotations ?pv) OCIVolumeID = Some (pvName ?pv)" using made(2) by (simp add: v)
  have sends: "\<exists>r w'. core_Delete (ctProvisioner ct) ?pv w = Some (r, w') \<and> (r = Ok () \<or> (\<exists>e. r = Err e)) \<and>
      (\<exists>x res. new_events w w' = [x] \<and> evCall x = CallDeleteVolume (Some (pvName ?pv)) res)" for w
    using block_Delete_sends [OF ann, of ?b w] block_Delete_returns [of ?b ?pv w] unfolding del by metis
  then have returns: "\<exists>r. (\<exists>w'. core_Delete (ctProvisioner ct) ?pv w = Some (r, w')) \<and> (r = Ok () \<or> (\<exists>e. r = Err e))" for w
    by blast
  obtain r u' where run: "deleteVolumeOperation k ct (v\<lparr>poPhase := ''Released''\<rparr>) u = Some (r, u')" "r = Ok () \<or> (\<exists>e. r = Err e)"
    by (rule deleteVolume_goes [of k "v\<lparr>poPhase := ''Released''\<rparr>" u, OF _ should]) (simp_all add: assms(8) returns)
  from run obtain x res where "new_events (clWorld u) (clWorld u') = [x]" "evCall x = CallDeleteVolume (Some (pvName ?pv)) res"
  proof (cases rule: deleteVolumeOperation_cases)
    case (kept found)
    then show thesis using assms(8) should by auto
  next
    case (asked new s2 y w2 res')
    from sends [of "clWorld s2"] asked(4) obtain x res where "new_events (clWorld s2) w2 = [x]"
      "evCall x = CallDeleteVolume (Some (pvName ?pv)) res" by auto
    moreover have "new_events (clWorld u) (clWorld u') = new_events (clWorld s2) w2"
      using asked(8) same_world_events [OF asked(2)] by (simp add: new_events_def)
    ultimately show thesis using that by simp
  qed
  then show ?thesis using run(1) made(4) new v by auto
qed

section \<open>Provisioning again\<close>

text \<open>A server that knows its objects by name: it returns only objects that it has, and has only objects that it was given.\<close>

definition named_store :: "'a KubeAPI \<Rightarrow> ('a \<Rightarrow> string set) \<Rightarrow> bool" where
  "named_store k names \<longleftrightarrow>
     (\<forall>n t a x d a'. kaGet k n t a = (x, d, a') \<longrightarrow> names a' = names a \<and> (\<forall>v. x = Inr v \<longrightarrow> n \<in> names a)) \<and>
     (\<forall>v t a x d a'. kaCreate k v t a = (x, d, a') \<longrightarrow> names a' \<subseteq> insert (pvName (poVolume v)) (names a))"

lemma save_volume_names:
  assumes "save_volume k d v n err s = Some (r, s')" and "named_store k names"
  shows "names (clApi s') \<subseteq> insert (pvName (poVolume v)) (names (clApi s))"
  using assms(1)
proof (induction n arbitrary: err s)
  case (Suc n)
  then have "go_bind (kube_call (Created v) (kaCreate k v)) (\<lambda>err'.
      case err' of None \<Rightarrow> ret None | Some e \<Rightarrow> go_bind (sleeps d) (\<lambda>_. save_volume k d v n (Some e))) s = Some (r, s')" by simp
  then obtain x s1 where
    c: "kaCreate k v (clock (clWorld s)) (clApi s) = (x, nat (clock (clWorld s1) - clock (clWorld s)), clApi s1)"
    and run: "(case x of None \<Rightarrow> ret None | Some e \<Rightarrow> go_bind (sleeps d) (\<lambda>_. save_volume k d v n (Some e))) s1 = Some (r, s')"
    by (rule kube_call_bind) blast
  have "names (clApi s1) \<subseteq> insert (pvName (poVolume v)) (names (clApi s))"
    using assms(2) c unfolding named_store_def by blast
  then show ?case using run Suc.IH by (cases x) (fastforce simp: go_simps)+
qed (auto simp: ret_def)

lemma clean_volume_api: "clean_volume ct d pv n err s = Some (r, s') \<Longrightarrow> clApi s' = clApi s"
proof (induction n arbitrary: err s)
  case (Suc n)
  then show ?case
    by (fastforce simp: go_bind_def call_Delete_def attempt_run zoom_def go_simps records_run Let_def sleeps_def modifies_def
        split: option.splits outcome.splits)
qed (simp add: ret_def)

lemma save_or_clean_names:
  assumes "save_or_clean k ct v s = Some (r, s')" and "named_store k names"
  shows "names (clApi s') \<subseteq> insert (pvName (poVolume v)) (names (clApi s))"
proof -
  let ?n = "nat (ctCreateProvisionedPVRetryCount ct)" and ?d = "ctCreateProvisionedPVInterval ct"
  from assms(1) obtain x s1 where saved: "save_volume k ?d v ?n None s = Some (x, s1)" and "clApi s' = clApi s1"
    by (auto simp: save_or_clean_def Let_def go_bind_def records_def modifies_def ret_def dest!: clean_volume_api
        split: option.splits outcome.splits if_splits)
  then show ?thesis using save_volume_names [OF saved assms(2)] by simp
qed

text \<open>
  The identifiers that the services give to the volumes and the file systems. None of them begins like the names that the
  controller gives for its claims: an OCID begins with \<open>ocid1.\<close>, such a name with \<open>pvc-\<close>.
\<close>

definition given_id :: "event \<Rightarrow> string option" where
  "given_id e =
     (case evCall e of
        CallCreateVolume d (Inr vol) \<Rightarrow> volId vol
      | CallGetFileSystem i (Inr fs) \<Rightarrow> fsId fs
      | _ \<Rightarrow> None)"

definition claim_name :: "string \<Rightarrow> bool" where
  "claim_name n \<longleftrightarrow> HasPrefix n ''pvc-''"

definition ids_apart :: "'c world \<Rightarrow> 'c world \<Rightarrow> bool" where
  "ids_apart w w' \<longleftrightarrow> (\<forall>e \<in> set (new_events w w'). \<forall>i. given_id e = Some i \<longrightarrow> \<not> claim_name i)"

lemma claim_name_given: "claim_name (getProvisionedVolumeNameForClaim cobj)"
  by (simp add: claim_name_def getProvisionedVolumeNameForClaim_def HasPrefix_def)

text \<open>Both plugins name the volume after such an identifier, whatever name the options ask for.\<close>

lemma fss_core_made:
  assumes "fss_core p c f" and "core_Provision p opts w = Some (Ok pv, w')"
  shows "\<exists>e \<in> set (new_events w w'). given_id e = Some (pvName pv)"
proof -
  let ?f = "f\<lparr>fspClient := client_of c\<rparr>"
  have ok: "client_ok (opClient p)" "client_ok (fspClient ?f)"
    and pl: "opPlugin p = \<lparr>plProvision = fss_Provision ?f, plDelete = fss_Delete ?f\<rparr>"
    using assms(1) by (simp_all add: fss_core_def)
  obtain ad w1 pv0 w2 where run: "fss_Provision ?f opts ad w1 = Some (Ok pv0, w2)"
    and name: "pvName pv = pvName pv0" and ext: "extends w w1" "extends w2 w'"
    by (rule fim.provisioned [OF assms(2) ok(1) pl])
  from fss_Provision_named [OF run ok(2)] obtain e i fs where
    "e \<in> set (new_events w1 w2)" "evCall e = CallGetFileSystem i (Inr fs)" "fsId fs = Some (pvName pv0)" by blast
  moreover have "extends w1 w2" by (rule keepsD [OF fss_Provision_frame [OF ok(2)] run])
  ultimately show ?thesis
    using ext name by (intro bexI [of _ e]) (auto simp: given_id_def extends_def new_events_def)
qed

lemma core_made_named:
  assumes "block_core p c b \<or> fss_core p c f" and "core_Provision p opts w = Some (Ok pv, w')"
  shows "\<exists>e \<in> set (new_events w w'). given_id e = Some (pvName pv)"
  using assms(1)
proof
  assume "block_core p c b"
  from block_core_made(4) [OF this assms(2)] show ?thesis by (auto simp: given_id_def intro!: bexI)
qed (rule fss_core_made [OF _ assms(2)])

text \<open>What a cluster does to its world only adds requests.\<close>

definition grows :: "('a, 'c) cluster \<Rightarrow> ('a, 'c) cluster \<Rightarrow> bool" where
  "grows s s' \<longleftrightarrow> extends (clWorld s) (clWorld s')"

interpretation grows: frame grows
  by unfold_locales (auto simp: grows_def intro: ext.refl ext.trans)

lemma core_Delete_frame:
  assumes "block_core p c b \<or> fss_core p c f"
  shows "keeps extends (core_Delete p pv)"
proof -
  have "keeps extends (plDelete (opPlugin p) pv)"
    using assms blk.delete_extends fil.delete_extends by (auto simp: block_core_def fss_core_def)
  then show ?thesis unfolding core_Delete_def by (auto intro!: ext.keeps_rules split: option.split)
qed

lemma grows_parts:
  "keeps grows (records a)" "keeps grows (sleeps d)" "keeps grows (kube_call mk f)"
  by (auto simp: keeps_def grows_def records_run sleeps_def modifies_def ret_def kube_call_def extends_def split: prod.splits)

lemma grows_call_Delete:
  assumes "block_core (ctProvisioner ct) c b \<or> fss_core (ctProvisioner ct) c f"
  shows "keeps grows (call_Delete ct pv)"
  using keepsD [OF core_Delete_frame [OF assms]]
  by (fastforce simp: keeps_def grows_def call_Delete_def go_bind_def attempt_run zoom_def go_simps records_run Let_def
      split: option.splits outcome.splits)

lemma grows_save: "keeps grows (save_volume k d v n err)"
  by (induction n arbitrary: err) (auto intro!: grows.keeps_rules grows_parts split: option.split)

lemma grows_clean:
  assumes "block_core (ctProvisioner ct) c b \<or> fss_core (ctProvisioner ct) c f"
  shows "keeps grows (clean_volume ct d pv n err)"
  by (induction n arbitrary: err) (auto intro!: grows.keeps_rules grows_parts grows_call_Delete [OF assms] split: option.split)

lemma grows_save_or_clean:
  assumes "block_core (ctProvisioner ct) c b \<or> fss_core (ctProvisioner ct) c f"
  shows "keeps grows (save_or_clean k ct v)"
  unfolding save_or_clean_def Let_def by (intro grows.keeps_rules grows_parts grows_save grows_clean [OF assms])

text \<open>No operation for a claim, however it ends, puts an object in the store that has the name of a claim.\<close>

lemma claim_operation_names:
  assumes "provisionClaimOperation k ct cobj s = Some (r, s')" and "named_store k names"
    and "block_core (ctProvisioner ct) c b \<or> fss_core (ctProvisioner ct) c f" and "ids_apart (clWorld s) (clWorld s')"
    and "n \<in> names (clApi s')" and "claim_name n"
  shows "n \<in> names (clApi s)"
  using assms(1)
proof (cases rule: provisionClaim_cases)
  case (nothing x as)
  then show ?thesis using assms(2,5) unfolding named_store_def by blast
next
  case (provision e s1 ref sc policy)
  have s1: "names (clApi s1) = names (clApi s)" using provision(3) assms(2) unfolding named_store_def by blast
  from provision(9) show ?thesis
  proof (cases rule: provision_volume_cases)
    case (made pv w s2)
    have "grows s2 s'" by (rule keepsD [OF grows_save_or_clean [OF assms(3)] made(3)])
    moreover obtain e where "e \<in> set (new_events (clWorld s1) w)" "given_id e = Some (pvName pv)"
      using core_made_named [OF assms(3) made(1)] by blast
    moreover have "events (clWorld s1) = events (clWorld s)" using same_world_events [OF provision(1)] by simp
    ultimately have "\<not> claim_name (pvName pv)"
      using assms(4) made(2) by (auto simp: ids_apart_def new_events_def grows_def extends_def)
    with save_or_clean_names [OF made(3) assms(2)] made(2) s1 assms(5,6) show ?thesis by auto
  qed (use s1 assms(5) in simp_all)
qed

text \<open>
  What may happen between two operations for a claim: operations for this and for other claims, however they end, on services that
  keep to their identifiers, and changes by others, who may do anything, except to create an object with the name of a claim.
\<close>

inductive claim_history ::
  "'a KubeAPI \<Rightarrow> ('a \<Rightarrow> string set) \<Rightarrow> 'c ProvisionController \<Rightarrow> ('a, 'c) cluster \<Rightarrow> ('a, 'c) cluster \<Rightarrow> bool"
  for k names ct s where
  start: "claim_history k names ct s s"
| operation: "claim_history k names ct s t \<Longrightarrow> provisionClaimOperation k ct cobj t = Some (r, u) \<Longrightarrow>
    ids_apart (clWorld t) (clWorld u) \<Longrightarrow> claim_history k names ct s u"
| meanwhile: "claim_history k names ct s t \<Longrightarrow> (\<And>n. n \<in> names (clApi u) \<Longrightarrow> claim_name n \<Longrightarrow> n \<in> names (clApi t)) \<Longrightarrow>
    claim_history k names ct s u"

lemma claim_history_names:
  assumes "claim_history k names ct s u" and "named_store k names"
    and "block_core (ctProvisioner ct) c b \<or> fss_core (ctProvisioner ct) c f" and "n \<in> names (clApi u)" and "claim_name n"
  shows "n \<in> names (clApi s)"
  using assms(1,4)
  by (induction rule: claim_history.induct) (auto dest: claim_operation_names [OF _ assms(2,3)] intro: assms(5))

text \<open>
  C34: the controller's guard against provisioning twice does not hold for these provisioners. It asks for an object with the name
  that it gives for the claim; but both plugins ignore that name, and the object is named after the identifier of the service.
  So when an operation for a claim has saved the object of its volume, then whatever operations for this and other claims come
  after it, the next operation for the same claim that returns has not found an object, and has asked the provisioner for a volume again, with
  the same options. This needs services whose identifiers do not begin with \<open>pvc-\<close>, and that the first operation, which
  did not find an object by the name of the claim, was right about that.
\<close>

theorem claim_guard_never_finds:
  assumes "named_store k names" and "block_core (ctProvisioner ct) c b \<or> fss_core (ctProvisioner ct) c f"
    and "0 < ctCreateProvisionedPVRetryCount ct" and "\<And>a. kaClasses k (GetPersistentVolumeClaimClass cobj) a = Inr (Some sc)"
    and "provisionClaimOperation k ct cobj s = Some (Ok (), s')" and "clActs s' = clActs s @ as" and "Created v None \<in> set as"
    and "ids_apart (clWorld s) (clWorld s')"
    and "\<And>t e d a. kaGet k (getProvisionedVolumeNameForClaim cobj) t (clApi s) = (Inl e, d, a) \<Longrightarrow>
      getProvisionedVolumeNameForClaim cobj \<notin> names (clApi s)"
    and "claim_history k names ct s' u"
    and "provisionClaimOperation k ct cobj u = Some (r, u')" and "r = Ok () \<or> (\<exists>e. r = Err e)"
  shows "pvName (poVolume v) \<noteq> getProvisionedVolumeNameForClaim cobj \<and>
    (\<exists>opts pv x e bs. Provisioned opts (Inr pv) \<in> set as \<and>
      v = claim_volume k ct (projr (kaReference k cobj)) (GetPersistentVolumeClaimClass cobj) pv \<and>
      clActs u' = clActs u @ Got (getProvisionedVolumeNameForClaim cobj) (Inl e) # bs \<and> Provisioned opts x \<in> set bs)"
  using assms(5)
proof (cases rule: provisionClaim_cases)
  case (nothing x as')
  then show ?thesis using assms(6,7) by auto
next
  case (provision e s1 ref sc' policy)
  have sc: "sc' = sc" using provision(5) assms(4) by simp
  let ?n = "getProvisionedVolumeNameForClaim cobj" and ?o = "provision_options cobj policy sc"
  from provision(9) show ?thesis
  proof (cases rule: provision_volume_cases)
    case (failed e w)
    then show ?thesis using assms(6,7) provision(2) by (cases e) auto
  next
    case dead
    then show ?thesis by blast
  next
    case (made pv w s2)
    let ?v = "claim_volume k ct ref (GetPersistentVolumeClaimClass cobj) pv"
    from save_or_clean_run [OF made(3) assms(3)] obtain bs where bs: "clActs s' = clActs s2 @ bs"
      "\<forall>v'. Created v' None \<in> set bs \<longrightarrow> v' = ?v \<and> same_world s2 s'" by blast
    have "Created v None \<in> set bs" using assms(6,7) bs(1) made(2) provision(2) by auto
    then have v: "v = ?v" and same: "same_world s2 s'" using bs(2) by blast+
    have prov: "Provisioned ?o (Inr pv) \<in> set as" using assms(6) bs(1) made(2) provision(2) sc by auto
    have "new_events (clWorld s) (clWorld s') = new_events (clWorld s1) w"
      using same_world_events [OF same] same_world_events [OF provision(1)] made(2) by (simp add: new_events_def)
    with core_made_named [OF assms(2) made(1)] assms(8) have "\<not> claim_name (pvName pv)" by (auto simp: ids_apart_def)
    then have name: "pvName (poVolume v) \<noteq> ?n" using claim_name_given [of cobj] by (auto simp: v)
    have "?n \<notin> names (clApi s)" using assms(9) provision(3) by blast
    then have "?n \<notin> names (clApi s')" using claim_operation_names [OF assms(5,1,2,8) _ claim_name_given] by blast
    then have "?n \<notin> names (clApi u)" using claim_history_names [OF assms(10,1,2) _ claim_name_given] by blast
    moreover obtain y d a where got: "kaGet k ?n (clock (clWorld u)) (clApi u) = (y, d, a)" by (metis prod_cases3)
    ultimately obtain e' where e': "fst (kaGet k ?n (clock (clWorld u)) (clApi u)) = Inl e'"
      using assms(1) unfolding named_store_def by (cases y) auto
    obtain u1 where u1: "provisionClaimOperation k ct cobj u = provision_volume k ct ref (GetPersistentVolumeClaimClass cobj) ?o u1"
      "clActs u1 = clActs u @ [Got ?n (Inl e')]"
      by (rule provisionClaim_goes [OF e' provision(4) assms(4) provision(6,7,8) [unfolded sc]])
    from made_acts [OF assms(11) [unfolded u1(1)] assms(3,12)] u1(2)
    obtain x bs' where "clActs u' = clActs u @ Got ?n (Inl e') # bs'" "Provisioned ?o x \<in> set bs'" by fastforce
    with v prov name provision(4) show ?thesis by auto
  qed
qed

section \<open>How often the program tries again\<close>

definition failing_queue ::
  "(time \<Rightarrow> 'b \<Rightarrow> duration \<times> 'b) \<Rightarrow> 'c ProvisionController \<Rightarrow> 'b \<Rightarrow> 'k \<Rightarrow> error \<Rightarrow> time list \<Rightarrow> ('k, 'b) rate_limited" where
  \<comment> \<open>the controller's queue of claims when the operation of \<open>key\<close> has failed at these times\<close>
  "failing_queue reserve ct bucket key e ts =
     fail_at reserve (ctFailedProvisionThreshold ct) key e ts (NewRateLimitingQueue (queue_limiter ct bucket))"

text \<open>
  C35: the program's limit of five attempts for a claim does not limit anything. The controller that \<open>main\<close> constructs, without the
  exponential back-off, has a queue whose limiter does not count failures: after any number of failures of a key, one
  more failure puts it back. With the back-off, the same setting stops after exactly five.
\<close>

theorem main_retries_forever:
  assumes "NewProvisionController parse ty p version controller_options s = Some (Ok ct, s)"
    and "q = failing_queue reserve ct bucket key e ts"
    and "q' = failing_queue reserve (ct\<lparr>ctExponentialBackOffOnError := True\<rparr>) bucket key e ts"
  shows "requeue reserve (ctFailedProvisionThreshold ct) t key q = AddRateLimited reserve t key q \<and>
    requeue reserve (ctFailedProvisionThreshold ct) t key q' = (if length ts < 5 then AddRateLimited reserve t key q' else q')"
proof
  have ct: "ct = controller_of p ty version"
    using assms(1) by (auto simp: NewProvisionController_run split: option.splits)
  have "bucket_limiter (quRateLimiter (NewRateLimitingQueue (queue_limiter ct bucket)))"
    by (simp add: ct queue_limiter_def bucket_limiter_def NewRateLimitingQueue_def)
  from bucket_requeue [OF this, of "ctFailedProvisionThreshold ct"]
  show "requeue reserve (ctFailedProvisionThreshold ct) t key q = AddRateLimited reserve t key q"
    by (simp add: assms(2) failing_queue_def ct)
  let ?ct = "ct\<lparr>ctExponentialBackOffOnError := True\<rparr>"
  have "counting_limiter key 0 (quRateLimiter (NewRateLimitingQueue (queue_limiter ?ct bucket)))"
    by (simp add: queue_limiter_def counting_limiter_def NewRateLimitingQueue_def)
  from counting_requeue [OF this, of "ctFailedProvisionThreshold ct"]
  show "requeue reserve (ctFailedProvisionThreshold ct) t key q' = (if length ts < 5 then AddRateLimited reserve t key q' else q')"
    by (simp add: assms(3) failing_queue_def ct controller_of_def)
qed

section \<open>Concrete operations\<close>

lemma mock_released:
  obtains pv s' where "pvName pv = VolumeBackupID"
    "provisionClaimOperation (list_server block_class) block_controller mock_object (mock_cluster []) = Some (Ok (), s')"
    "clActs s' = clActs (mock_cluster []) @ clActs s'" "Created (mock_saved pv) None \<in> set (clActs s')" "clApi s' = [mock_saved pv]"
    "Provisioned (provision_options mock_object ''Delete'' block_class) (Inr pv) \<in> set (clActs s')"
    "core_Provision mock_block_core (claim [ReadWriteOnce] 20 Map.empty) configured = Some (Ok pv, clWorld s')"
proof (rule mock_claim_run [of "[]"])
  show "listed ''pvc-uid'' [] = None" by (simp add: listed_def)
qed (rule that, auto simp: mock_cluster_def)

lemma mock_saved_name: "pvName (poVolume (mock_saved pv)) = pvName pv"
  by (simp add: mock_saved_def)

theorem claim_to_deletion_witness:
  "\<exists>pv s' r u' x res. provisionClaimOperation (list_server block_class) block_controller mock_object (mock_cluster []) = Some (Ok (), s') \<and>
    Created (mock_saved pv) None \<in> set (clActs s') \<and>
    deleteVolumeOperation (list_server block_class) block_controller (mock_saved pv\<lparr>poPhase := ''Released''\<rparr>)
      (mock_cluster [mock_saved pv\<lparr>poPhase := ''Released''\<rparr>]) = Some (r, u') \<and>
    new_events configured (clWorld u') = [x] \<and> evCall x = CallDeleteVolume (Some VolumeBackupID) res"
proof (rule mock_released)
  fix pv s'
  let ?k = "list_server block_class" and ?u = "mock_cluster [mock_saved pv\<lparr>poPhase := ''Released''\<rparr>]"
  assume run: "pvName pv = VolumeBackupID"
    "provisionClaimOperation ?k block_controller mock_object (mock_cluster []) = Some (Ok (), s')"
    "clActs s' = clActs (mock_cluster []) @ clActs s'" "Created (mock_saved pv) None \<in> set (clActs s')"
  have core: "block_core (ctProvisioner block_controller) mock_services (mock_block VolumeLifecycleStateAvailable (NewMock None) Minute)"
    using mock_cores(2) by simp
  have got: "fst (kaGet ?k (pvName (poVolume (mock_saved pv))) (clock (clWorld ?u)) (clApi ?u)) =
      Inr (mock_saved pv\<lparr>poPhase := ''Released''\<rparr>)" by (simp add: mock_cluster_def listed_def)
  from claim_to_deletion [OF core _ run(2-4) _ _ got, of block_class] run
  show ?thesis by (auto simp: mock_saved_name mock_cluster_def)
qed

definition mock_foreign :: PersistentVolume where
  "mock_foreign = \<lparr>pvName = ''pv'', pvAnnotations = Some [ociProvisionerIdentity \<mapsto> ''other'',
     annDynamicallyProvisioned \<mapsto> ProvisionerNameDefault], pvLabels = None, pvReclaimPolicy = ''Delete'', pvAccessModes = [ReadWriteOnce],
     pvCapacity = Map.empty, pvSource = NFS ''10.0.0.1'' ''/export'' False, pvMountOptions = []\<rparr>"

theorem volume_removed_last_witness:
  "\<exists>pv r u' new w (s1 :: (PVObject list, unit) cluster). deleteVolumeOperation (list_server block_class) block_controller (mock_saved pv\<lparr>poPhase := ''Released''\<rparr>)
      (mock_cluster [mock_saved pv\<lparr>poPhase := ''Released''\<rparr>]) = Some (r, u') \<and>
    clActs u' = [Got VolumeBackupID (Inr new), Deprovisioned (poVolume (mock_saved pv)) None, Removed VolumeBackupID None] \<and>
    core_Delete mock_block_core (poVolume (mock_saved pv)) (clWorld s1) = Some (Ok (), w) \<and> r = Ok ()"
proof (rule mock_released)
  fix pv s'
  let ?k = "list_server block_class" and ?v = "mock_saved pv\<lparr>poPhase := ''Released''\<rparr>"
  let ?u = "mock_cluster [?v]"
  assume run: "pvName pv = VolumeBackupID"
    "core_Provision mock_block_core (claim [ReadWriteOnce] 20 Map.empty) configured = Some (Ok pv, clWorld s')"
  note made = block_core_made [OF mock_cores(2) run(2)]
  have ann: "map_get (pvAnnotations (poVolume (mock_saved pv))) OCIVolumeID = Some VolumeBackupID"
    "map_get (pvAnnotations (poVolume (mock_saved pv))) ociProvisionerIdentity = Some ociProvisionerIdentity"
    using made(2,3) run(1) by (simp_all add: mock_saved_def)
  have del: "\<exists>w'. core_Delete mock_block_core (poVolume (mock_saved pv)) w = Some (Ok (), w')" for w
    by (simp add: core_Delete_def ann mock_core_def block_Delete_def go_simps mock_b_def) 
      (simp add: MockBlockStorageClient_def go_simps)
  have should: "shouldDelete ?k block_controller ?v"
    using made(1) by (simp add: shouldDelete_def mock_saved_def claim_def)
  obtain w where w: "core_Delete mock_block_core (poVolume (mock_saved pv)) configured = Some (Ok (), w)" using del by blast
  let ?as = "[Got VolumeBackupID (Inr ?v), Deprovisioned (poVolume (mock_saved pv)) None, Removed VolumeBackupID None]"
  have "\<exists>u'. deleteVolumeOperation ?k block_controller ?v ?u = Some (Ok (), u') \<and> clActs u' = ?as"
    using w should run(1) by (simp add: deleteVolumeOperation_def Let_def kube_call_def go_bind_def mock_cluster_def listed_def
        mock_saved_name call_Delete_def attempt_run zoom_def go_simps)
  then obtain u' where u': "deleteVolumeOperation ?k block_controller ?v ?u = Some (Ok (), u')" "clActs u' = clActs ?u @ ?as"
    by (auto simp: mock_cluster_def)
  from volume_removed_last [OF u'(1) disjI1 [OF refl] u'(2), of VolumeBackupID None]
  obtain s1 :: "(PVObject list, unit) cluster" and w where
    "core_Delete mock_block_core (poVolume (mock_saved pv)) (clWorld s1) = Some (Ok (), w)" by auto
  with u' show ?thesis by (intro exI [of _ pv] exI [of _ "Ok ()"] exI [of _ u'] exI [of _ ?v] exI [of _ w] exI [of _ s1])
    (simp add: mock_cluster_def)
qed

theorem foreign_volume_kept_witness:
  "\<exists>c' as. processNextVolumeWorkItem free_bucket (list_server block_class) block_controller
      (mock_cluster [\<lparr>poVolume = mock_foreign, poClaimRef = None, poStorageClassName = ''oci'', poPhase = ''Released''\<rparr>],
       (NewRateLimitingQueue (queue_limiter block_controller ()))\<lparr>quQueue := [''pv''], quDirty := {''pv''}\<rparr>) =
    Some (Ok True, (c', NewRateLimitingQueue (queue_limiter block_controller ()))) \<and>
    clActs c' = as \<and> (\<forall>n res. Removed n res \<notin> set as)"
proof -
  let ?q = "NewRateLimitingQueue (queue_limiter block_controller ()) :: (string, unit) rate_limited"
  let ?c = "mock_cluster [\<lparr>poVolume = mock_foreign, poClaimRef = None, poStorageClassName = ''oci'', poPhase = ''Released''\<rparr>]"
  have get: "queue_Get (?q\<lparr>quQueue := [''pv''], quDirty := {''pv''}\<rparr>) = Some (Some ''pv'', ?q\<lparr>quProcessing := {''pv''}\<rparr>)"
    by (simp add: queue_Get_def NewRateLimitingQueue_def)
  have found: "kaVolumes (list_server block_class) ''pv'' (clApi ?c) =
      Inr (Some \<lparr>poVolume = mock_foreign, poClaimRef = None, poStorageClassName = ''oci'', poPhase = ''Released''\<rparr>)"
    by (simp add: mock_cluster_def listed_def mock_foreign_def)
  have "queue_Done ''pv'' (Forget ''pv'' (?q\<lparr>quProcessing := {''pv''}\<rparr>)) = ?q"
    by (simp add: queue_Done_def Forget_def NewRateLimitingQueue_def queue_limiter_def)
  then show ?thesis
    using foreign_volume_kept [OF get found, of "''other''" free_bucket block_controller]
    by (auto simp: mock_foreign_def mock_cluster_def map_get_def)
qed

lemma block_core_ids:
  assumes "block_core p c b" and "core_Provision p opts w = Some (Ok pv, w')" and "e \<in> set (new_events w w')" and "given_id e = Some i"
  shows "i = pvName pv"
proof -
  let ?b = "b\<lparr>bpClient := client_of c\<rparr>"
  have ok: "client_ok (opClient p)" "client_ok (bpClient ?b)" and pl: "plProvision (opPlugin p) = block_Provision ?b"
    using assms(1) by (simp_all add: block_core_def)
  obtain name ad x w1 pv0 w2 where made: "events w1 = events w @ [x]" "zone_lookup name ad x"
    "plProvision (opPlugin p) opts ad w1 = Some (Ok pv0, w2)" "mark p name ad pv0 w2 = Some (Ok pv, w')"
    by (rule core_Provision_Ok [OF assms(2) ok(1)]) (rule that)
  from mark_Ok [OF made(4)] have name: "pvName pv = pvName pv0" by auto
  have last: "events w' = events w2" using keepsD [OF mark_quiet [OF ok(1)] made(4)] by (simp add: quiet_def)
  note run = made(3) [unfolded pl]
  from run ok(2) show ?thesis
  proof (cases rule: block_Provision_cases)
    case (created pvc q a c p w1' ocid w2' md)
    from created(8) [OF refl] have pv0: "pvName pv0 = ocid" by (auto simp: block_pv_def)
    from created(4) obtain cr vol polls g where cr: "evCall cr = CallCreateVolume (volumeDetails pvc ad c p
        (fst (block_sizing ?b (optParameters opts) q))) (Inr vol)" "volId vol = Some ocid"
      "events w2' = events w1' @ [cr] @ polls @ [g]" "\<forall>x \<in> set (polls @ [g]). get_event (Some ocid) x"
      by (rule creates_Ok)
    have "e \<in> {x, cr} \<union> set (polls @ [g]) \<union> set md"
      using assms(3) made(1) last created(3,5) cr(3) by (auto simp: new_events_def)
    then show ?thesis
      using assms(4) made(2) cr(1,2,4) created(7) pv0 name
      by (auto simp: given_id_def zone_lookup_def get_event_def metadata_event_def)
  qed auto
qed

theorem claim_guard_never_finds_witness:
  "\<exists>pv pv' s' u' opts x. provisionClaimOperation (list_server block_class) block_controller mock_object (mock_cluster []) = Some (Ok (), s') \<and>
    clApi s' = [mock_saved pv] \<and>
    provisionClaimOperation (list_server block_class) block_controller mock_object (mock_cluster [mock_saved pv]) = Some (Ok (), u') \<and>
    Provisioned opts (Inr pv') \<in> set (clActs s') \<and> Provisioned opts x \<in> set (clActs u') \<and>
    (\<exists>cr d vol. cr \<in> set (new_events configured (clWorld u')) \<and> evCall cr = CallCreateVolume d (Inr vol))"
proof (rule mock_released)
  fix pv s'
  let ?k = "list_server block_class" and ?names = "\<lambda>vs. (\<lambda>v. pvName (poVolume v)) ` set vs"
  let ?u = "mock_cluster [mock_saved pv]"
  assume run: "pvName pv = VolumeBackupID"
    "provisionClaimOperation ?k block_controller mock_object (mock_cluster []) = Some (Ok (), s')"
    "clActs s' = clActs (mock_cluster []) @ clActs s'" "Created (mock_saved pv) None \<in> set (clActs s')" "clApi s' = [mock_saved pv]"
    "core_Provision mock_block_core (claim [ReadWriteOnce] 20 Map.empty) configured = Some (Ok pv, clWorld s')"
  have store: "named_store ?k ?names"
    by (auto simp: named_store_def listed_def find_Some_iff split: option.splits)
  have core: "block_core (ctProvisioner block_controller) mock_services (mock_block VolumeLifecycleStateAvailable (NewMock None) Minute) \<or>
      fss_core (ctProvisioner block_controller) mock_services (mock_fsp True)" using mock_cores(2) by simp
  have "\<not> claim_name (pvName pv)" by (simp add: claim_name_def HasPrefix_def run(1))
  then have apart: "ids_apart (clWorld (mock_cluster [])) (clWorld s')"
    using block_core_ids [OF mock_cores(2) run(6)] by (simp add: ids_apart_def mock_cluster_def) blast
  have hist: "claim_history ?k ?names block_controller s' ?u"
    by (rule claim_history.meanwhile [OF claim_history.start]) (simp add: mock_cluster_def run(5))
  have "listed ''pvc-uid'' [mock_saved pv] = None" using run(1) by (simp add: listed_def mock_saved_name)
  then obtain pv' w' u' where u': "core_Provision mock_block_core (claim [ReadWriteOnce] 20 Map.empty) configured = Some (Ok pv', w')"
    "provisionClaimOperation ?k block_controller mock_object ?u = Some (Ok (), u')" "clWorld u' = w'"
    by (rule mock_claim_run) (rule that)
  have "pvName (poVolume (mock_saved pv)) \<noteq> getProvisionedVolumeNameForClaim mock_object \<and>
    (\<exists>opts pv' x e bs. Provisioned opts (Inr pv') \<in> set (clActs s') \<and>
      mock_saved pv = claim_volume ?k block_controller (projr (kaReference ?k mock_object)) (GetPersistentVolumeClaimClass mock_object) pv' \<and>
      clActs u' = clActs ?u @ Got (getProvisionedVolumeNameForClaim mock_object) (Inl e) # bs \<and> Provisioned opts x \<in> set bs)"
    by (rule claim_guard_never_finds [OF store core _ _ run(2-4) apart _ hist u'(2) disjI1 [OF refl], of block_class])
      (simp_all add: mock_cluster_def)
  then obtain opts pv' x where "Provisioned opts (Inr pv') \<in> set (clActs s')" "Provisioned opts x \<in> set (clActs u')"
    by (auto simp: mock_cluster_def)
  moreover from block_core_made(4) [OF mock_cores(2) u'(1)] u'(3)
  have "\<exists>cr d vol. cr \<in> set (new_events configured (clWorld u')) \<and> evCall cr = CallCreateVolume d (Inr vol)" by blast
  ultimately show ?thesis using run(2,5) u'(2) by blast
qed

theorem main_retries_forever_witness:
  "requeue free_bucket 5 100 ''default/claim''
      (failing_queue free_bucket block_controller () ''default/claim'' ErrWaitTimeout [1, 2, 3, 4, 5, 6, 7]) =
    AddRateLimited free_bucket 100 ''default/claim''
      (failing_queue free_bucket block_controller () ''default/claim'' ErrWaitTimeout [1, 2, 3, 4, 5, 6, 7])"
proof -
  have "NewProvisionController (\<lambda>_. None) ProvisionerNameDefault mock_block_core ''v1.10.0'' controller_options (0 :: nat) =
      Some (Ok block_controller, 0)" by (simp add: NewProvisionController_run)
  from main_retries_forever [OF this refl refl, of free_bucket 100 "''default/claim''" "()" ErrWaitTimeout "[1, 2, 3, 4, 5, 6, 7]"]
  show ?thesis by (simp add: controller_of_def)
qed

end
