(* ===== verification/Main_Program.thy ===== *)
theory Main_Program
  imports Core_Setup Flags Signals Quantity_Parse Controller
begin

text \<open>
  The program, \<open>cmd/main.go\<close>: the resync period of the informers with its floating-point arithmetic, and
  \<open>main\<close>, from the logger and the flags to the run of the provision controller. The Kubernetes client
  and the controller are parameters; what \<open>main\<close> does is recorded in order.
\<close>

section \<open>The resync period\<close>

text \<open>
  Arithmetic on \<open>float64\<close> as far as it is used: numbers of at least 1 and less than \<open>2 ^ 53\<close>, rounded to
  the nearest number with 53 significant bits, ties to even.
\<close>

fun log2_nat :: "nat \<Rightarrow> nat" where
  "log2_nat n = (if n < 2 then 0 else Suc (log2_nat (n div 2)))"

declare log2_nat.simps [simp del]

definition round_even :: "rat \<Rightarrow> int" where
  "round_even x =
     (let k = \<lfloor>x\<rfloor>; d = x - of_int k in
      if d < 1/2 then k else if 1/2 < d then k + 1 else if even k then k else k + 1)"

definition float64 :: "rat \<Rightarrow> rat" where
  "float64 x = (let scale = 2 ^ (52 - log2_nat (nat \<lfloor>x\<rfloor>)) in of_int (round_even (x * scale)) / scale)"

definition Hour :: duration where "Hour = 60 * Minute"

definition minResyncPeriod :: duration where "minResyncPeriod = 12 * Hour"

definition informerResyncPeriod :: "duration \<Rightarrow> rat \<Rightarrow> duration" where
  \<comment> \<open>the second argument is what \<open>rand.Float64()\<close> returns, a number in \<open>[0, 1)\<close>\<close>
  "informerResyncPeriod minResync f =
     (let factor = float64 (f + 1) in \<lfloor>float64 (float64 (of_int minResync) * factor)\<rfloor>)"

lemma round_even_bounds: "of_int z \<le> x \<Longrightarrow> z \<le> round_even x" "x \<le> of_int z \<Longrightarrow> round_even x \<le> z"
proof -
  have between: "\<lfloor>x\<rfloor> \<le> round_even x" "round_even x \<le> \<lfloor>x\<rfloor> + 1" by (simp_all add: round_even_def Let_def)
  show "z \<le> round_even x" if "of_int z \<le> x"
    using between(1) le_floor_iff [THEN iffD2, OF that] by linarith
  show "round_even x \<le> z" if "x \<le> of_int z"
  proof (cases "x = of_int z")
    case False
    with that have "\<lfloor>x\<rfloor> < z" by (simp add: floor_less_iff)
    with between(2) show ?thesis by linarith
  qed (simp add: round_even_def)
qed

text \<open>Rounding moves no number across an integer.\<close>

lemma float64_bounds:
  "of_int z \<le> x \<Longrightarrow> of_int z \<le> float64 x" "x \<le> of_int z \<Longrightarrow> float64 x \<le> of_int z"
proof -
  let ?n = "52 - log2_nat (nat \<lfloor>x\<rfloor>)"
  have s: "(0 :: rat) < 2 ^ ?n" by simp
  show "of_int z \<le> float64 x" if "of_int z \<le> x"
  proof -
    have "of_int (z * 2 ^ ?n) \<le> x * 2 ^ ?n" using that by simp
    from round_even_bounds(1) [OF this] have "of_int (z * 2 ^ ?n) \<le> (of_int (round_even (x * 2 ^ ?n)) :: rat)"
      by (simp only: of_int_le_iff)
    then show ?thesis using s by (simp add: float64_def Let_def pos_le_divide_eq)
  qed
  show "float64 x \<le> of_int z" if "x \<le> of_int z"
  proof -
    have "x * 2 ^ ?n \<le> of_int (z * 2 ^ ?n)" using that by simp
    from round_even_bounds(2) [OF this] have "(of_int (round_even (x * 2 ^ ?n)) :: rat) \<le> of_int (z * 2 ^ ?n)"
      by (simp only: of_int_le_iff)
    then show ?thesis using s by (simp add: float64_def Let_def pos_divide_le_eq)
  qed
qed

text \<open>
  The informers resync every 12 to 24 hours. Whatever \<open>rand.Float64\<close> returns, and whatever the two
  roundings of the arithmetic do, the period lies between the minimum and twice the minimum.
\<close>

theorem informerResyncPeriod_bounds:
  assumes "0 \<le> f" and "f < 1"
  shows "minResyncPeriod \<le> informerResyncPeriod minResyncPeriod f \<and>
    informerResyncPeriod minResyncPeriod f \<le> 2 * minResyncPeriod"
proof -
  let ?m = "minResyncPeriod"
  have m: "0 \<le> ?m" by (simp add: minResyncPeriod_def Hour_def Minute_def Second_def)
  have "float64 (of_int ?m) = of_int ?m"
    using float64_bounds(1) [of ?m "of_int ?m"] float64_bounds(2) [of "of_int ?m" ?m] by simp
  moreover have "1 \<le> float64 (f + 1)" "float64 (f + 1) \<le> 2"
    using float64_bounds(1) [of 1 "f + 1"] float64_bounds(2) [of "f + 1" 2] assms by simp_all
  then have "of_int ?m * 1 \<le> of_int ?m * float64 (f + 1)" "of_int ?m * float64 (f + 1) \<le> of_int ?m * 2"
    using m by (intro mult_left_mono; simp)+
  then have "of_int ?m \<le> of_int ?m * float64 (f + 1)" "of_int ?m * float64 (f + 1) \<le> of_int (2 * ?m)"
    by (simp_all add: mult.commute)
  then have "of_int ?m \<le> float64 (of_int ?m * float64 (f + 1))" "float64 (of_int ?m * float64 (f + 1)) \<le> of_int (2 * ?m)"
    by (blast intro: float64_bounds)+
  ultimately show ?thesis
    by (simp add: informerResyncPeriod_def Let_def le_floor_iff floor_le_iff)
qed

section \<open>The main function\<close>

text \<open>What \<open>main\<close> is given: the Kubernetes client library, and the machine on which it runs.\<close>

record 'c NodeInformer =
  niLister :: "'c world \<Rightarrow> error + Node list"
  niHasSynced :: "('c world, bool) go" \<comment> \<open>\<open>cache.WaitForCacheSync\<close> on it\<close>

record 'c clientset =
  csServerVersion :: "('c, error + string) api"
  csNodes :: "duration \<Rightarrow> 'c NodeInformer" \<comment> \<open>of the shared informer factory with that resync period\<close>

record ('k, 'c) kubernetes =
  kuBuildConfigFromFlags :: "string \<Rightarrow> string \<Rightarrow> 'c \<Rightarrow> error + 'k"
  kuNewForConfig :: "'k \<Rightarrow> error + 'c clientset"
  kuParseSemantic :: "string \<Rightarrow> error option"

record ('k, 'c) machine =
  maArgs :: "string list" \<comment> \<open>\<open>os.Args[1:]\<close>\<close>
  maEnviron :: "string list" \<comment> \<open>\<open>os.Environ()\<close>\<close>
  maFlags :: "string \<Rightarrow> flag_values flag option" \<comment> \<open>the flags that libraries register\<close>
  maRandom :: rat \<comment> \<open>\<open>rand.Float64()\<close>\<close>
  maSDK :: "'c SDK"
  maPlatform :: "'c platform"
  maHttp :: "'c http_Client"
  maKubernetes :: "('k, 'c) kubernetes"
  maMeanwhile :: "'c ProvisionController \<Rightarrow> handler \<times> 'c world \<Rightarrow> (handler \<times> 'c world) option"
    \<comment> \<open>what the signal handler, and the world under the controller's workers, come to until \<open>Run\<close> returns or the process ends;
      \<open>None\<close> if that never happens\<close>

text \<open>
  What the process has done to the world outside of its clients, in order. The informers and the controller begin to work by
  themselves, so the world in which each of them is started is recorded.
\<close>

datatype 'c deed =
    Umask nat
  | ReplaceGlobals zap_Logger
  | StartInformers duration "'c world"
  | Run "'c ProvisionController" "'c world"

record 'c process =
  prWorld :: "'c world"
  prLog :: log_vars
  prHandler :: handler
  prDid :: "'c deed list"

abbreviation in_world :: "('c world, 'a) go \<Rightarrow> ('c process, 'a) go" where
  "in_world \<equiv> zoom prWorld (\<lambda>w s. s\<lparr>prWorld := w\<rparr>)"

abbreviation in_log :: "(log_vars, 'a) go \<Rightarrow> ('c process, 'a) go" where
  "in_log \<equiv> zoom prLog (\<lambda>v s. s\<lparr>prLog := v\<rparr>)"

abbreviation in_handler :: "(handler, 'a) go \<Rightarrow> ('c process, 'a) go" where
  "in_handler \<equiv> zoom prHandler (\<lambda>h s. s\<lparr>prHandler := h\<rparr>)"

definition does :: "'c deed \<Rightarrow> ('c process, unit) go" where
  "does d = modifies (\<lambda>s. s\<lparr>prDid := prDid s @ [d]\<rparr>)"

definition starts :: "('c world \<Rightarrow> 'c deed) \<Rightarrow> ('c process, unit) go" where
  "starts d = go_bind (gets prWorld) (\<lambda>w. does (d w))"

definition flag_Parse :: "('k, 'c) machine \<Rightarrow> ('c process, flag_values) go" where
  \<comment> \<open>the flags of the logging package set its variables; an error ends the process\<close>
  "flag_Parse m =
     (case parse_flags (formal_flags (maFlags m)) (maArgs m) default_flags of
        None \<Rightarrow> exits 2
      | Some fl \<Rightarrow>
          go_bind (in_log (modifies (\<lambda>v. v\<lparr>lvl := flLogLevel fl, logJSON := flLogJSON fl, logfilePath := flLogfilePath fl\<rparr>))) (\<lambda>_.
          ret fl))"

definition controller_Run :: "('k, 'c) machine \<Rightarrow> 'c ProvisionController \<Rightarrow> ('c process, unit) go" where
  \<comment> \<open>the workers run until the stop channel is closed, then it returns, unless the signal handler ends the process\<close>
  "controller_Run m pc =
     go_bind (starts (Run pc)) (\<lambda>_ s.
       case maMeanwhile m pc (prHandler s, prWorld s) of
         None \<Rightarrow> None
       | Some (h, w) \<Rightarrow>
           (case exit_status h of
              Some n \<Rightarrow> exits n (s\<lparr>prHandler := h, prWorld := w\<rparr>)
            | None \<Rightarrow> if stop_closed h then ret () (s\<lparr>prHandler := h, prWorld := w\<rparr>) else None))"

definition main_connect :: "('k, 'c) machine \<Rightarrow> flag_values \<Rightarrow> ('c process, 'c clientset \<times> string) go" where
  \<comment> \<open>the Kubernetes client and the version of its server\<close>
  "main_connect m fl =
     go_bind (in_world (fatal (go_bind (gets (\<lambda>w. kuBuildConfigFromFlags (maKubernetes m) (flMaster fl) (flKubeconfig fl) (cloud w)))
       of_result))) (\<lambda>config.
     go_bind (in_world (fatal (of_result (kuNewForConfig (maKubernetes m) config)))) (\<lambda>clientset.
     go_bind (in_world (fatal (calls (csServerVersion clientset)))) (\<lambda>serverVersion.
     ret (clientset, serverVersion))))"

definition main_names :: "('c process, string \<times> string) go" where
  \<comment> \<open>the names of the node and of the provisioner\<close>
  "main_names =
     go_bind (in_world (Getenv ''NODE_NAME'')) (\<lambda>nodeName.
     if nodeName = [] then exits 1
     else
       go_bind (in_world (Getenv ''PROVISIONER_TYPE'')) (\<lambda>provisionerType.
       ret (nodeName, if provisionerType = [] then ProvisionerNameDefault else provisionerType)))"

definition main_start ::
  "('k, 'c) machine \<Rightarrow> flag_values \<Rightarrow> 'c clientset \<Rightarrow> string \<Rightarrow> string \<Rightarrow> string \<Rightarrow> ('c process, unit) go" where
  \<comment> \<open>from the informer factory on\<close>
  "main_start m fl clientset serverVersion nodeName provisionerType =
     (let period = informerResyncPeriod minResyncPeriod (maRandom m); nodes = csNodes clientset period in
      go_bind (in_world (fatal (of_result (ParseQuantity (flMinVolumeSize fl))))) (\<lambda>lowerBound.
      go_bind (in_world (fatal (NewOCIProvisioner (maSDK m) (maPlatform m) (maHttp m) (niLister nodes) (niHasSynced nodes)
        provisionerType nodeName (flRoundingEnabled fl) lowerBound))) (\<lambda>ociProvisioner.
      go_bind (NewProvisionController (kuParseSemantic (maKubernetes m)) provisionerType ociProvisioner serverVersion
        controller_options) (\<lambda>pc.
      go_bind (starts (StartInformers period)) (\<lambda>_.
      go_bind (in_world (fatal (Ready ociProvisioner))) (\<lambda>_.
      controller_Run m pc))))))"

definition main :: "('k, 'c) machine \<Rightarrow> ('c process, unit) go" where
  "main m =
     go_bind (does (Umask 0)) (\<lambda>_.
     go_bind (in_log (Logger (maEnviron m))) (\<lambda>log.
     go_bind (does (ReplaceGlobals log)) (\<lambda>_.
     go_bind (flag_Parse m) (\<lambda>fl.
     go_bind (in_handler SetupSignalHandler) (\<lambda>_.
     go_bind (main_connect m fl) (\<lambda>(clientset, serverVersion).
     go_bind main_names (\<lambda>(nodeName, provisionerType).
     main_start m fl clientset serverVersion nodeName provisionerType)))))))"

definition started :: "'c world \<Rightarrow> 'c process" where
  \<comment> \<open>the process before \<open>main\<close>\<close>
  "started w = \<lparr>prWorld = w, prLog = init_log_vars, prHandler = new_process, prDid = []\<rparr>"

section \<open>Steps on parts of the process\<close>

lemma does_run [go_simps]: "go_bind (does d) f s = f () (s\<lparr>prDid := prDid s @ [d]\<rparr>)"
  by (simp add: does_def go_simps)

lemma starts_run [go_simps]: "go_bind (starts d) f s = f () (s\<lparr>prDid := prDid s @ [d (prWorld s)]\<rparr>)"
  by (simp add: starts_def does_def go_simps go_bind_def)

text \<open>After the flags, the variables of the logger stay, and deeds are only added.\<close>

definition onward :: "'c process \<Rightarrow> 'c process \<Rightarrow> bool" where
  "onward s s' \<longleftrightarrow> prLog s' = prLog s \<and> prefix (prDid s) (prDid s')"

interpretation onward: frame onward
  by unfold_locales (auto simp: onward_def)

lemma onward_zoom: "(\<And>t s. onward s (put t s)) \<Longrightarrow> keeps onward (zoom get put m)"
  by (auto simp: keeps_def zoom_eq)

lemma onward_parts: "keeps onward (in_world m)" "keeps onward (in_handler h)" "keeps onward (does d)" "keeps onward (starts d')"
  by (rule onward_zoom, simp add: onward_def)+
    (auto simp: keeps_def does_def starts_def go_simps onward_def)

lemma onward_Run: "keeps onward (controller_Run m pc)"
  by (auto simp: keeps_def controller_Run_def go_simps onward_def split: option.splits if_splits)

lemma onward_NewProvisionController: "keeps onward (NewProvisionController parse name p v options)"
  by (cases "parse v") (simp_all add: NewProvisionController_def onward.keeps_pure)

lemmas onward_rules = onward.keeps_rules onward_parts onward_Run onward_NewProvisionController

lemma onward_start: "keeps onward (main_start m fl clientset v node ty)"
  unfolding main_start_def Let_def by (intro onward_rules)

lemma onward_connect: "keeps onward (main_connect m fl)"
  unfolding main_connect_def by (intro onward_rules)

lemma onward_names: "keeps onward main_names"
  unfolding main_names_def by (intro onward_rules)

text \<open>The logger that is made before the flags are parsed.\<close>

definition first_config :: zap_Config where
  "first_config = NewDevelopmentConfig\<lparr>zcLevel := InfoLevel, zcEncodeTime := ISO8601TimeEncoder\<rparr>"

definition first_logger :: "string list \<Rightarrow> zap_Logger" where
  "first_logger env = \<lparr>lgCore = \<lparr>coEncoding = ''console'', coEncodeTime = ISO8601TimeEncoder, coOutput = Paths [''stderr''],
     coEnabler = ConfigLevel, coSampled = False, coFields = FieldsFromEnv env\<rparr>,
     lgDevelopment = True, lgStacktrace = FatalLevel\<rparr>"

lemma Logger_first:
  "Logger env init_log_vars = Some (Ok (first_logger env), init_log_vars\<lparr>log_config := Some first_config\<rparr>)"
  by (simp add: Logger_def go_simps init_log_vars_def log_options_def Build_def NewDevelopmentConfig_def WrapCore_def
      AddStacktrace_def With_def first_logger_def first_config_def)

text \<open>The process when the flags have been read.\<close>

definition flagged :: "('k, 'c) machine \<Rightarrow> 'c world \<Rightarrow> flag_values \<Rightarrow> 'c process" where
  "flagged m w fl = \<lparr>prWorld = w,
     prLog = \<lparr>lvl = flLogLevel fl, logJSON = flLogJSON fl, logfilePath = flLogfilePath fl, log_config = Some first_config\<rparr>,
     prHandler = new_process, prDid = [Umask 0, ReplaceGlobals (first_logger (maEnviron m))]\<rparr>"

lemma main_flags:
  "main m (started w) = (case parse_flags (formal_flags (maFlags m)) (maArgs m) default_flags of
      None \<Rightarrow> Some (Exit 2, (started w)\<lparr>prLog := init_log_vars\<lparr>log_config := Some first_config\<rparr>,
        prDid := [Umask 0, ReplaceGlobals (first_logger (maEnviron m))]\<rparr>)
    | Some fl \<Rightarrow>
        go_bind (in_handler SetupSignalHandler) (\<lambda>_.
        go_bind (main_connect m fl) (\<lambda>(clientset, serverVersion).
        go_bind main_names (\<lambda>(nodeName, provisionerType).
        main_start m fl clientset serverVersion nodeName provisionerType))) (flagged m w fl))"
proof -
  let ?rest = "\<lambda>fl. go_bind (in_handler SetupSignalHandler) (\<lambda>_.
        go_bind (main_connect m fl) (\<lambda>(clientset, serverVersion).
        go_bind main_names (\<lambda>(nodeName, provisionerType).
        main_start m fl clientset serverVersion nodeName provisionerType)))"
  let ?s = "(started w)\<lparr>prLog := init_log_vars\<lparr>log_config := Some first_config\<rparr>,
        prDid := [Umask 0, ReplaceGlobals (first_logger (maEnviron m))]\<rparr>"
  have run: "main m (started w) = go_bind (flag_Parse m) ?rest ?s"
    by (simp add: main_def go_simps go_bind_zoom started_def Logger_first)
  show ?thesis
  proof (cases "parse_flags (formal_flags (maFlags m)) (maArgs m) default_flags")
    case None
    then have "flag_Parse m ?s = Some (Exit 2, ?s)" by (simp add: flag_Parse_def go_simps)
    then show ?thesis using None by (simp add: run go_bind_def [of "flag_Parse m"])
  next
    case (Some fl)
    then have "flag_Parse m ?s = Some (Ok fl, flagged m w fl)"
      by (simp add: flag_Parse_def go_bind_zoom go_simps flagged_def started_def init_log_vars_def)
    then show ?thesis unfolding run by (simp only: go_bind_Ok Some option.case)
  qed
qed

text \<open>
  C28: the logging flags come too late. The program makes its logger, and the configuration that is kept for all
  later loggers, before it parses the command line: whatever the flags say about level, format and log
  file, and however \<open>main\<close> ends, the logger writes text at the info level to the standard error.
\<close>

theorem main_ignores_logging_flags:
  assumes "maArgs m = command_line v" and "main m (started w) = Some (r, s)"
  shows "\<exists>l c rest. prDid s = Umask 0 # ReplaceGlobals l # rest \<and> coOutput (lgCore l) = Paths [''stderr''] \<and>
    coEncoding (lgCore l) = ''console'' \<and> coEnabler (lgCore l) = ConfigLevel \<and>
    prLog s = \<lparr>lvl = flLogLevel v, logJSON = flLogJSON v, logfilePath = flLogfilePath v, log_config = Some c\<rparr> \<and>
    zcLevel c = InfoLevel"
proof -
  have "parse_flags (formal_flags (maFlags m)) (maArgs m) default_flags = Some v"
    by (simp add: assms(1) command_line_parses)
  with assms(2) have "onward (flagged m w v) s"
    by (subst (asm) main_flags)
      (erule keepsD [rotated], intro onward_rules onward_connect onward_names onward_start | simp add: case_prod_beta)+
  then show ?thesis
    by (auto simp: onward_def flagged_def prefix_def first_logger_def first_config_def NewDevelopmentConfig_def)
qed

section \<open>Starting up\<close>

lemma calls_keeps: "calls f w = Some (r, w') \<Longrightarrow> environ w' = environ w \<and> events w' = events w"
  by (auto simp: calls_def of_result_def go_simps split: prod.splits sum.splits)

lemma fatal_of_result: "fatal (of_result r) w = Some (case r of Inl _ \<Rightarrow> Exit 1 | Inr x \<Rightarrow> Ok x, w)"
  by (cases r) (simp_all add: fatal_def go_try_def go_simps)

lemma fatal_pure [go_simps]: "fatal (ret x) = ret x" "fatal (fail e) = exits 1"
  by (rule ext, simp add: fatal_def go_try_def go_simps)+

lemma fatal_calls: "\<exists>w'. (fatal (calls f) w = Some (Exit 1, w') \<or> (\<exists>x. fatal (calls f) w = Some (Ok x, w'))) \<and>
    environ w' = environ w \<and> events w' = events w"
  by (cases "f (clock w) (cloud w)") (auto simp: fatal_def go_try_def calls_def of_result_def go_simps split: sum.split)

text \<open>Connecting to the Kubernetes server works or ends the process; nothing is done meanwhile.\<close>

lemma main_connect_cases:
  obtains (ok) cs v w' config where "main_connect m fl s = Some (Ok (cs, v), s\<lparr>prWorld := w'\<rparr>)"
      and "environ w' = environ (prWorld s)" and "events w' = events (prWorld s)"
      and "kuBuildConfigFromFlags (maKubernetes m) (flMaster fl) (flKubeconfig fl) (cloud (prWorld s)) = Inr config"
      and "kuNewForConfig (maKubernetes m) config = Inr cs" and "calls (csServerVersion cs) (prWorld s) = Some (Ok v, w')"
    | (exit) w' where "main_connect m fl s = Some (Exit 1, s\<lparr>prWorld := w'\<rparr>)" and "events w' = events (prWorld s)"
proof -
  let ?w = "prWorld s"
  let ?b = "kuBuildConfigFromFlags (maKubernetes m) (flMaster fl) (flKubeconfig fl) (cloud ?w)"
  have b: "go_bind (gets (\<lambda>w. kuBuildConfigFromFlags (maKubernetes m) (flMaster fl) (flKubeconfig fl) (cloud w))) of_result ?w =
      of_result ?b ?w" by (simp add: go_simps)
  have b': "fatal (go_bind (gets (\<lambda>w. kuBuildConfigFromFlags (maKubernetes m) (flMaster fl) (flKubeconfig fl) (cloud w))) of_result) ?w =
      Some (case ?b of Inl _ \<Rightarrow> Exit 1 | Inr x \<Rightarrow> Ok x, ?w)"
    using b fatal_of_result [of ?b ?w] by (simp add: fatal_def go_try_def)
  note step = main_connect_def go_bind_zoom b' fatal_of_result go_simps
  show thesis
  proof (cases ?b)
    case (Inl e)
    then show thesis by (intro exit [of ?w]) (simp_all add: step)
  next
    case (Inr c)
    note c = this
    show thesis
    proof (cases "kuNewForConfig (maKubernetes m) c")
      case (Inl e)
      then show thesis using c by (intro exit [of ?w]) (simp_all add: step)
    next
      case (Inr cs)
      obtain w' where w': "environ w' = environ ?w" "events w' = events ?w"
        and ends: "fatal (calls (csServerVersion cs)) ?w = Some (Exit 1, w') \<or>
          (\<exists>x. fatal (calls (csServerVersion cs)) ?w = Some (Ok x, w'))"
        using fatal_calls [of "csServerVersion cs" ?w] by blast
      from ends show thesis
      proof
        assume "fatal (calls (csServerVersion cs)) ?w = Some (Exit 1, w')"
        then show thesis using c Inr w' by (intro exit [of w']) (simp_all add: step)
      next
        assume "\<exists>x. fatal (calls (csServerVersion cs)) ?w = Some (Ok x, w')"
        then obtain x where x: "fatal (calls (csServerVersion cs)) ?w = Some (Ok x, w')" ..
        then have "calls (csServerVersion cs) ?w = Some (Ok x, w')" by (simp add: fatal_Ok)
        with c Inr w' x show thesis by (intro ok [of cs x w' c]) (simp_all add: step)
      qed
    qed
  qed
qed

definition env_value :: "'c world \<Rightarrow> string \<Rightarrow> string" where
  \<comment> \<open>what \<open>os.Getenv\<close> returns\<close>
  "env_value w k = (case environ w k of None \<Rightarrow> [] | Some v \<Rightarrow> v)"

definition provisioner_type :: "'c world \<Rightarrow> string" where
  "provisioner_type w =
     (if env_value w ''PROVISIONER_TYPE'' = [] then ProvisionerNameDefault else env_value w ''PROVISIONER_TYPE'')"

lemma Getenv_run: "Getenv k w = Some (Ok (env_value w k), w)"
  by (simp add: Getenv_def env_value_def go_simps)

lemma main_names_run:
  "main_names s = Some (if env_value (prWorld s) ''NODE_NAME'' = [] then Exit 1
     else Ok (env_value (prWorld s) ''NODE_NAME'', provisioner_type (prWorld s)), s)"
  by (simp add: main_names_def provisioner_type_def go_bind_zoom Getenv_run go_simps)

lemma SetupSignalHandler_first:
  "SetupSignalHandler new_process = Some (Ok (), new_process\<lparr>onlyOne_closed := True, goroutine_at := AwaitFirst\<rparr>)"
  by (simp add: SetupSignalHandler_def new_process_def go_simps)

text \<open>The process when the signal handler is installed.\<close>

definition handled :: "('k, 'c) machine \<Rightarrow> 'c world \<Rightarrow> flag_values \<Rightarrow> 'c process" where
  "handled m w fl = (flagged m w fl)\<lparr>prHandler := new_process\<lparr>onlyOne_closed := True, goroutine_at := AwaitFirst\<rparr>\<rparr>"

lemma main_handled:
  assumes "parse_flags (formal_flags (maFlags m)) (maArgs m) default_flags = Some fl"
  shows "main m (started w) =
    go_bind (main_connect m fl) (\<lambda>(clientset, serverVersion).
    go_bind main_names (\<lambda>(nodeName, provisionerType).
    main_start m fl clientset serverVersion nodeName provisionerType)) (handled m w fl)"
  using assms by (simp add: main_flags go_bind_zoom flagged_def SetupSignalHandler_first handled_def)

lemma main_without_node_name:
  assumes "environ w ''NODE_NAME'' \<in> {None, Some []}"
  shows "\<exists>n s. main m (started w) = Some (Exit n, s) \<and> n \<in> {1, 2} \<and> events (prWorld s) = events w \<and>
    (\<exists>l. prDid s = [Umask 0, ReplaceGlobals l])"
proof (cases "parse_flags (formal_flags (maFlags m)) (maArgs m) default_flags")
  case None
  then show ?thesis by (simp add: main_flags) (simp add: started_def)
next
  case (Some fl)
  note run = main_handled [OF Some, of w]
  show ?thesis
  proof (cases rule: main_connect_cases [of m fl "handled m w fl"])
    case (ok cs v w' config)
    then have "env_value w' ''NODE_NAME'' = []" using assms by (auto simp: env_value_def handled_def flagged_def)
    then have "main_names ((handled m w fl)\<lparr>prWorld := w'\<rparr>) = Some (Exit 1, (handled m w fl)\<lparr>prWorld := w'\<rparr>)"
      by (simp add: main_names_run)
    then show ?thesis using ok by (simp add: run go_bind_def handled_def flagged_def)
  next
    case (exit w')
    then show ?thesis by (simp add: run go_bind_def handled_def flagged_def)
  qed
qed

text \<open>
  The program does not start without a name for its node. If the environment variable \<open>NODE_NAME\<close> is unset or empty,
  whatever the flags and the servers say, the process ends with a status that reports the failure;
  no informer and no controller was started, and no request was sent to the cloud.
\<close>

theorem main_needs_node_name:
  assumes "environ w ''NODE_NAME'' \<in> {None, Some []}"
  shows "\<exists>n s. main m (started w) = Some (Exit n, s) \<and> n \<in> {1, 2} \<and> events (prWorld s) = events w \<and>
    (\<exists>l. prDid s = [Umask 0, ReplaceGlobals l])"
  using assms by (rule main_without_node_name)

lemma sig_steps_reachable: "sig_step\<^sup>*\<^sup>* h h' \<Longrightarrow> reachable h \<Longrightarrow> reachable h'"
  by (induction rule: rtranclp_induct) (auto intro: reachable.step)

lemma controller_Run_Ok:
  assumes "controller_Run m pc s = Some (Ok (), s')"
  obtains h w where "maMeanwhile m pc (prHandler s, prWorld s) = Some (h, w)" "stop_closed h" "exit_status h = None"
    "s' = s\<lparr>prDid := prDid s @ [Run pc (prWorld s)], prHandler := h, prWorld := w\<rparr>"
  using assms by (auto simp: controller_Run_def go_simps split: option.splits if_splits)

lemma in_world_fatal_Ok:
  "in_world (fatal f) s = Some (Ok x, s') \<longleftrightarrow> (\<exists>w'. f (prWorld s) = Some (Ok x, w') \<and> s' = s\<lparr>prWorld := w'\<rparr>)"
  by (auto simp: zoom_eq fatal_Ok)

lemma Ready_Ok: "Ready p w = Some (Ok (), w') \<longleftrightarrow> opCachesSynced p w = Some (Ok True, w')"
  by (auto simp: Ready_def go_bind_eq_Ok go_simps split: if_splits)

lemma reachable_stop_closed: "reachable h \<Longrightarrow> stop_closed h \<Longrightarrow> delivered h \<noteq> []"
  using reachable_ok by (cases "goroutine_at h") (fastforce simp: handler_ok_def)+

lemma main_start_Ok:
  assumes "main_start m fl cs v node ty s = Some (Ok (), s')"
  defines "period \<equiv> informerResyncPeriod minResyncPeriod (maRandom m)"
  obtains q p u u' pc h w where "ParseQuantity (flMinVolumeSize fl) = Inr q"
    "NewOCIProvisioner (maSDK m) (maPlatform m) (maHttp m) (niLister (csNodes cs period)) (niHasSynced (csNodes cs period))
       ty node (flRoundingEnabled fl) q (prWorld s) = Some (Ok p, u)"
    "opCachesSynced p u = Some (Ok True, u')" "pc = controller_of p ty v" "stop_closed h" "exit_status h = None"
    "maMeanwhile m pc (prHandler s, u') = Some (h, w)"
    "s' = s\<lparr>prWorld := w, prDid := prDid s @ [StartInformers period u, Run pc u'], prHandler := h\<rparr>"
proof -
  from assms(1) obtain q s1 p s2 pc s3 s4 where
    q: "in_world (fatal (of_result (ParseQuantity (flMinVolumeSize fl)))) s = Some (Ok q, s1)" and
    p: "in_world (fatal (NewOCIProvisioner (maSDK m) (maPlatform m) (maHttp m) (niLister (csNodes cs period))
       (niHasSynced (csNodes cs period)) ty node (flRoundingEnabled fl) q)) s1 = Some (Ok p, s2)" and
    pc: "NewProvisionController (kuParseSemantic (maKubernetes m)) ty p v controller_options s2 = Some (Ok pc, s3)" and
    ready: "in_world (fatal (Ready p)) (s3\<lparr>prDid := prDid s3 @ [StartInformers period (prWorld s3)]\<rparr>) = Some (Ok (), s4)" and
    ran: "controller_Run m pc s4 = Some (Ok (), s')"
    by (auto simp: main_start_def Let_def period_def starts_run go_bind_eq_Ok)
  from q have q: "ParseQuantity (flMinVolumeSize fl) = Inr q" "s1 = s"
    by (auto simp: in_world_fatal_Ok of_result_def go_simps split: sum.splits)
  from p obtain u where p: "NewOCIProvisioner (maSDK m) (maPlatform m) (maHttp m) (niLister (csNodes cs period))
       (niHasSynced (csNodes cs period)) ty node (flRoundingEnabled fl) q (prWorld s) = Some (Ok p, u)" "s2 = s\<lparr>prWorld := u\<rparr>"
    by (auto simp: in_world_fatal_Ok q)
  from pc have pc: "pc = controller_of p ty v" "s3 = s2" by (auto simp: NewProvisionController_run split: option.splits)
  from ready obtain u' where u': "opCachesSynced p u = Some (Ok True, u')"
    "s4 = s\<lparr>prWorld := u', prDid := prDid s @ [StartInformers period u]\<rparr>"
    by (auto simp: in_world_fatal_Ok Ready_Ok pc p)
  from ran obtain h w where "maMeanwhile m pc (prHandler s4, prWorld s4) = Some (h, w)" "stop_closed h" "exit_status h = None"
    "s' = s4\<lparr>prDid := prDid s4 @ [Run pc (prWorld s4)], prHandler := h, prWorld := w\<rparr>" by (rule controller_Run_Ok)
  with q p pc u' show thesis by (intro that [of q p u u' pc h w]) simp_all
qed

text \<open>
  C14: how \<open>main\<close> returns. It returns only after a shutdown signal, and only if before that every step of the start
  succeeded, each in the world that the one before it left: the client is made of the flags and has asked the
  server for its version; then, with the name of the node, the requested type or the default one, and the
  smallest volume of the flags, the provisioner is made; then the informers are started; then the caches have
  synced; and only in the world after that is the controller started, on that provisioner. Nothing else was started.
\<close>

theorem main_returns:
  fixes m :: "('k, 'c) machine"
  assumes "main m (started w) = Some (Ok (), s)"
    and "\<And>pc h u h' u'. maMeanwhile m pc (h, u) = Some (h', u') \<Longrightarrow> sig_step\<^sup>*\<^sup>* h h'"
  shows "\<exists>fl config (cs :: 'c clientset) v u q p u' u'' pc h l.
    parse_flags (formal_flags (maFlags m)) (maArgs m) default_flags = Some fl \<and>
    kuBuildConfigFromFlags (maKubernetes m) (flMaster fl) (flKubeconfig fl) (cloud w) = Inr config \<and>
    kuNewForConfig (maKubernetes m) config = Inr cs \<and> calls (csServerVersion cs) w = Some (Ok v, u) \<and>
    env_value w ''NODE_NAME'' \<noteq> [] \<and> environ u = environ w \<and> events u = events w \<and>
    ParseQuantity (flMinVolumeSize fl) = Inr q \<and>
    (let ty = provisioner_type w; period = informerResyncPeriod minResyncPeriod (maRandom m) in
     NewOCIProvisioner (maSDK m) (maPlatform m) (maHttp m) (niLister (csNodes cs period)) (niHasSynced (csNodes cs period))
       ty (env_value w ''NODE_NAME'') (flRoundingEnabled fl) q u = Some (Ok p, u') \<and>
     opCachesSynced p u' = Some (Ok True, u'') \<and>
     prDid s = [Umask 0, ReplaceGlobals l, StartInformers period u', Run pc u''] \<and>
     maMeanwhile m pc (h, u'') = Some (prHandler s, prWorld s) \<and>
     ctProvisioner pc = p \<and> ctProvisionerName pc = ty \<and> ctKubeVersion pc = v \<and>
     ctResyncPeriod pc = 15 * Second \<and> \<not> ctExponentialBackOffOnError pc \<and> ctFailedProvisionThreshold pc = 5) \<and>
    delivered (prHandler s) \<noteq> [] \<and> exit_status (prHandler s) = None"
proof (cases "parse_flags (formal_flags (maFlags m)) (maArgs m) default_flags")
  case None
  then show ?thesis using assms(1) by (simp add: main_flags)
next
  case (Some fl)
  note run = assms(1) [unfolded main_handled [OF Some]]
  show ?thesis
  proof (cases rule: main_connect_cases [of m fl "handled m w fl"])
    case (ok cs v u config)
    let ?ty = "provisioner_type w"
    let ?period = "informerResyncPeriod minResyncPeriod (maRandom m)"
    let ?s = "(handled m w fl)\<lparr>prWorld := u\<rparr>"
    have w: "prWorld (handled m w fl) = w" by (simp add: handled_def flagged_def)
    have u: "environ u = environ w" "events u = events w" using ok(2,3) by (simp_all add: w)
    note connected = ok(4-6) [unfolded w]
    from u have env: "env_value u k = env_value w k" "provisioner_type u = provisioner_type w" for k
      by (simp_all add: env_value_def provisioner_type_def)
    from run have "go_bind main_names (\<lambda>(node, ty). main_start m fl cs v node ty) ?s = Some (Ok (), s)"
      by (simp add: go_bind_Ok [of "main_connect m fl", OF ok(1)])
    then have node: "env_value w ''NODE_NAME'' \<noteq> []"
      and start: "main_start m fl cs v (env_value w ''NODE_NAME'') ?ty ?s = Some (Ok (), s)"
      by (auto simp: go_bind_def main_names_run env split: if_splits)
    from main_start_Ok [OF start] obtain q p u' u'' pc h w' where
      "ParseQuantity (flMinVolumeSize fl) = Inr q"
      "NewOCIProvisioner (maSDK m) (maPlatform m) (maHttp m) (niLister (csNodes cs ?period))
         (niHasSynced (csNodes cs ?period)) ?ty (env_value w ''NODE_NAME'') (flRoundingEnabled fl) q (prWorld ?s) = Some (Ok p, u')"
      "opCachesSynced p u' = Some (Ok True, u'')" "pc = controller_of p ?ty v" "stop_closed h" "exit_status h = None"
      "maMeanwhile m pc (prHandler ?s, u'') = Some (h, w')"
      "s = ?s\<lparr>prWorld := w', prDid := prDid ?s @ [StartInformers ?period u', Run pc u''], prHandler := h\<rparr>" .
    note r = this
    have "reachable (prHandler ?s)"
      by (rule reachable.installed) (simp add: handled_def SetupSignalHandler_first)
    then have "reachable h" using sig_steps_reachable [OF assms(2) [OF r(7)]] by blast
    then have d: "delivered h \<noteq> []" using r(5) reachable_stop_closed by blast
    have s: "prDid s = [Umask 0, ReplaceGlobals (first_logger (maEnviron m)), StartInformers ?period u', Run pc u'']"
      "maMeanwhile m pc (prHandler ?s, u'') = Some (prHandler s, prWorld s)"
      "delivered (prHandler s) \<noteq> []" "exit_status (prHandler s) = None"
      using r(8) r(6,7) d by (simp_all add: handled_def flagged_def)
    have pc: "ctProvisioner pc = p" "ctProvisionerName pc = ?ty" "ctKubeVersion pc = v"
      "ctResyncPeriod pc = 15 * Second" "\<not> ctExponentialBackOffOnError pc" "ctFailedProvisionThreshold pc = 5"
      using r(4) by (simp_all add: controller_of_def)
    have p: "NewOCIProvisioner (maSDK m) (maPlatform m) (maHttp m) (niLister (csNodes cs ?period)) (niHasSynced (csNodes cs ?period))
       ?ty (env_value w ''NODE_NAME'') (flRoundingEnabled fl) q u = Some (Ok p, u')"
      using r(2) by simp
    show ?thesis
      unfolding Let_def by (intro exI conjI) (rule Some connected node u r(1) p r(3) s pc)+
  qed (use run in \<open>simp add: go_bind_def\<close>)
qed

section \<open>A concrete start\<close>

theorem informerResyncPeriod_bounds_witness: "minResyncPeriod \<le> informerResyncPeriod minResyncPeriod (1/3)"
  using informerResyncPeriod_bounds [of "1/3"] by simp

text \<open>A server that is there, and a process that is asked to stop once.\<close>

definition mock_kubernetes :: "(unit, unit) kubernetes" where
  "mock_kubernetes = \<lparr>kuBuildConfigFromFlags = (\<lambda>_ _ _. Inr ()),
     kuNewForConfig = (\<lambda>_. Inr \<lparr>csServerVersion = answers (Inr ''v1.12.0''),
       csNodes = (\<lambda>_. \<lparr>niLister = (\<lambda>_. Inr []), niHasSynced = ret True\<rparr>)\<rparr>),
     kuParseSemantic = (\<lambda>_. None)\<rparr>"

definition one_signal :: "'c ProvisionController \<Rightarrow> handler \<times> 'c world \<Rightarrow> (handler \<times> 'c world) option" where
  "one_signal pc hw = (if goroutine_at (fst hw) \<noteq> NotStarted \<and> exit_status (fst hw) = None
     then Some (run_goroutine 2 (deliver SIGTERM (fst hw)), snd hw) else None)"

definition mock_machine :: "string list \<Rightarrow> (unit, unit) machine" where
  "mock_machine args = \<lparr>maArgs = args, maEnviron = [], maFlags = (\<lambda>_. None), maRandom = 0,
     maSDK = mock_SDK MockFileStorageClient MockIdentityClient, maPlatform = mock_platform, maHttp = mock_http,
     maKubernetes = mock_kubernetes, maMeanwhile = one_signal\<rparr>"

definition node_env :: strmap where
  "node_env = [''OCI_SHORT_REGION'' \<mapsto> ''phx'', ''NODE_NAME'' \<mapsto> ''node'']"

lemma run_goroutine_steps: "sig_step\<^sup>*\<^sup>* h (run_goroutine n h)"
  by (induction n arbitrary: h) (auto split: option.split intro: converse_rtranclp_into_rtranclp sig_step.stepped)

lemma one_signal_steps: "one_signal pc (h, w) = Some (h', w') \<Longrightarrow> sig_step\<^sup>*\<^sup>* h h'"
  by (rule converse_rtranclp_into_rtranclp [of sig_step h "deliver SIGTERM h"])
    (auto simp: one_signal_def shutdownSignals_def split: if_splits intro: sig_step.signalled run_goroutine_steps)

lemma ParseQuantity_50Gi: "ParseQuantity ''50Gi'' = Inr (GiB 50)"
  by code_simp

lemma mock_main_Ok: "\<exists>s. main (mock_machine []) (started (initial node_env)) = Some (Ok (), s)"
proof -
  let ?m = "mock_machine []" and ?w = "initial node_env"
  let ?period = "informerResyncPeriod minResyncPeriod 0"
  let ?s = "handled ?m ?w default_flags"
  have fl: "parse_flags (formal_flags (maFlags ?m)) (maArgs ?m) default_flags = Some default_flags"
    by (simp add: mock_machine_def)
  obtain p u where p: "NewOCIProvisioner (mock_SDK MockFileStorageClient MockIdentityClient) mock_platform mock_http
      (\<lambda>_. Inr []) (ret True) ProvisionerNameDefault ''node'' True (GiB 50) ?w = Some (Ok p, u)" "opCachesSynced p = ret True"
    using mock_NewOCIProvisioner [of ?w "''phx''" ProvisionerNameDefault] by (fastforce simp: env_set_def node_env_def)
  have exit: "exit_status new_process = None" by (simp add: new_process_def)
  let ?h = "new_process\<lparr>onlyOne_closed := True, goroutine_at := AwaitFirst\<rparr>"
  have h: "one_signal pc (?h, w) = Some (?h\<lparr>stop_closed := True, goroutine_at := AwaitSecond, delivered := [SIGTERM]\<rparr>, w)"
    for pc :: "unit ProvisionController" and w
    by (simp add: one_signal_def new_process_def deliver_def eval_nat_numeral goroutine_step.simps)
  let ?cs = "\<lparr>csServerVersion = answers (Inr ''v1.12.0''),
       csNodes = (\<lambda>_. \<lparr>niLister = (\<lambda>_. Inr []), niHasSynced = ret True\<rparr>)\<rparr>"
  have connect: "main_connect ?m default_flags ?s = Some (Ok (?cs, ''v1.12.0''), ?s)"
    by (simp add: main_connect_def go_bind_zoom go_simps mock_machine_def mock_kubernetes_def fatal_def go_try_def calls_def answers_def
        handled_def flagged_def initial_def)
  have names: "main_names ?s = Some (Ok (''node'', ProvisionerNameDefault), ?s)"
    by (simp add: main_names_run handled_def flagged_def env_value_def provisioner_type_def node_env_def)
  have p': "fatal (NewOCIProvisioner (mock_SDK MockFileStorageClient MockIdentityClient) mock_platform mock_http
      (\<lambda>_. Inr []) (ret True) ProvisionerNameDefault ''node'' True (GiB 50)) ?w = Some (Ok p, u)"
    using p(1) by (simp add: fatal_Ok)
  have synced: "Ready p = ret ()"
    by (rule ext) (simp add: Ready_def p(2) go_simps)
  have start: "\<exists>s. main_start ?m default_flags ?cs ''v1.12.0'' ''node'' ProvisionerNameDefault ?s = Some (Ok (), s)"
    by (simp add: main_start_def Let_def go_bind_zoom mock_machine_def mock_kubernetes_def go_simps
        default_flags_def ParseQuantity_50Gi p' synced NewProvisionController_run go_bind_def [of "NewProvisionController _ _ _ _ _"]
        controller_Run_def h handled_def flagged_def exit)
  have "main ?m (started ?w) = main_start ?m default_flags ?cs ''v1.12.0'' ''node'' ProvisionerNameDefault ?s"
    unfolding main_handled [OF fl] go_bind_Ok [of "main_connect _ _", OF connect] prod.case
      go_bind_Ok [of main_names, OF names] by (rule refl)
  with start show ?thesis by simp
qed

theorem main_returns_witness:
  "\<exists>s. main (mock_machine []) (started (initial node_env)) = Some (Ok (), s) \<and> delivered (prHandler s) \<noteq> []"
proof -
  obtain s where run: "main (mock_machine []) (started (initial node_env)) = Some (Ok (), s)" using mock_main_Ok by blast
  have "delivered (prHandler s) \<noteq> []"
  proof (rule exE [OF main_returns [OF run]])
    fix pc h u h' u' assume "maMeanwhile (mock_machine []) pc (h, u) = Some (h', u')"
    then show "sig_step\<^sup>*\<^sup>* h h'" by (simp add: mock_machine_def one_signal_steps)
  qed blast
  with run show ?thesis by blast
qed

theorem main_needs_node_name_witness:
  "\<exists>n s. main (mock_machine []) (started (initial [''NODE_NAME'' \<mapsto> []])) = Some (Exit n, s) \<and> events (prWorld s) = []"
  using main_needs_node_name [of "initial [''NODE_NAME'' \<mapsto> []]" "mock_machine []"] by auto

text \<open>A command line that asks for debug messages in a file.\<close>

definition debug_flags :: flag_values where
  "debug_flags = default_flags\<lparr>flLogLevel := DebugLevel, flLogfilePath := ''ovp.log''\<rparr>"

theorem main_ignores_logging_flags_witness:
  "\<exists>n s l. main (mock_machine (command_line debug_flags)) (started (initial Map.empty)) = Some (Exit n, s) \<and>
    prDid s = [Umask 0, ReplaceGlobals l] \<and> coOutput (lgCore l) = Paths [''stderr''] \<and> logfilePath (prLog s) = ''ovp.log''"
proof -
  let ?m = "mock_machine (command_line debug_flags)"
  obtain n s where run: "main ?m (started (initial Map.empty)) = Some (Exit n, s)" "\<exists>l. prDid s = [Umask 0, ReplaceGlobals l]"
    using main_without_node_name [of "initial Map.empty" ?m] by auto
  have "maArgs ?m = command_line debug_flags" by (simp add: mock_machine_def)
  from main_ignores_logging_flags [OF this run(1)] run show ?thesis by (auto simp: debug_flags_def)
qed

end
