(* ===== verification/Leader_Election.thy ===== *)
theory Leader_Election
  imports Controller
begin

text \<open>
  The election of a leader for a claim (\<open>external-storage/lib/leaderelection\<close>, vendored), by which several
  controllers, each a process with an identity, agree who provisions for a claim: the record on the claim that is the lock,
  \<open>tryAcquireOrRenew\<close>, and \<open>Run\<close> with the goroutine that carries out the operation, as \<open>lockProvisionClaimOperation\<close> uses it. The
  requests of the candidates interleave in a step relation; there is one clock. A candidate may act at any time, which
  covers the waits between its attempts, with their jitter, and a process that is slow.
\<close>

section \<open>The lock\<close>

record LeaderElectionRecord =
  HolderIdentity :: string
  LeaseDurationSeconds :: int
  AcquireTime :: time
  RenewTime :: time
  LeaderTransitions :: int

record election_config =
  ecLeaseDuration :: duration
  ecRenewDeadline :: duration
  ecRetryPeriod :: duration
  ecTermLimit :: duration

definition election_of :: "'c ProvisionController \<Rightarrow> election_config" where
  "election_of ct = \<lparr>ecLeaseDuration = ctLeaseDuration ct, ecRenewDeadline = ctRenewDeadline ct,
     ecRetryPeriod = ctRetryPeriod ct, ecTermLimit = ctTermLimit ct\<rparr>"

text \<open>The product with the jitter factor 1.2 is a \<open>float64\<close> in the code; for the periods in use it is exact. The lock is never \<open>nil\<close>.\<close>

definition NewLeaderElector :: "election_config \<Rightarrow> error option" where
  "NewLeaderElector ec =
     (if ecLeaseDuration ec \<le> ecRenewDeadline ec then Some (Errorf ''leaseDuration must be greater than renewDeadline'' [])
      else if ecRenewDeadline ec \<le> 12 * ecRetryPeriod ec div 10
        then Some (Errorf ''renewDeadline must be greater than retryPeriod*JitterFactor'' [])
      else None)"

text \<open>A claim without a record reads as the zero record. The text of a record keeps whole seconds of its times.\<close>

definition zero_record :: LeaderElectionRecord where
  "zero_record = \<lparr>HolderIdentity = [], LeaseDurationSeconds = 0, AcquireTime = 0, RenewTime = 0, LeaderTransitions = 0\<rparr>"

definition stored :: "LeaderElectionRecord \<Rightarrow> LeaderElectionRecord" where
  "stored r = r\<lparr>AcquireTime := AcquireTime r div Second * Second, RenewTime := RenewTime r div Second * Second\<rparr>"

section \<open>A candidate\<close>

text \<open>
  Where a candidate is in \<open>tryAcquireOrRenew\<close>: between two attempts, before \<open>Get\<close>, with the time at which it started, or
  before \<open>Update\<close>, with the record and the version of the claim that it read. \<open>Off\<close>: it does not run.
\<close>

datatype phase = Off | Waiting | Reading time | Writing time LeaderElectionRecord nat

record elector =
  observedRecord :: LeaderElectionRecord
  observedTime :: "time option" \<comment> \<open>\<open>None\<close>: the zero time\<close>
  elPhase :: phase
  elLeading :: "time option" \<comment> \<open>since when it leads\<close>

definition new_elector :: elector where
  "new_elector = \<lparr>observedRecord = zero_record, observedTime = None, elPhase = Waiting, elLeading = None\<rparr>"

text \<open>
  The code compares the record that it read with the one that it remembers. For a record of its own writing the times also differ
  in their clock readings, so that it counts as new even if it was written on a whole second; that matters only to the holder, which
  may write whenever it saw the record.
\<close>

definition observe :: "time \<Rightarrow> LeaderElectionRecord \<Rightarrow> elector \<Rightarrow> elector" where
  "observe now old e = (if observedRecord e \<noteq> old then e\<lparr>observedRecord := old, observedTime := Some now\<rparr> else e)"

definition held_by_other :: "election_config \<Rightarrow> string \<Rightarrow> time \<Rightarrow> LeaderElectionRecord \<Rightarrow> elector \<Rightarrow> bool" where
  "held_by_other ec c now old e \<longleftrightarrow>
     (case observedTime e of None \<Rightarrow> False | Some t \<Rightarrow> now < t + ecLeaseDuration ec) \<and> HolderIdentity old \<noteq> c"

definition next_record :: "election_config \<Rightarrow> string \<Rightarrow> time \<Rightarrow> LeaderElectionRecord \<Rightarrow> LeaderElectionRecord" where
  "next_record ec c now old =
     \<lparr>HolderIdentity = c, LeaseDurationSeconds = ecLeaseDuration ec div Second,
      AcquireTime = (if HolderIdentity old = c then AcquireTime old else now), RenewTime = now,
      LeaderTransitions = (if HolderIdentity old = c then 0 else LeaderTransitions old + 1)\<rparr>"

section \<open>The election\<close>

text \<open>
  The operations of a candidate are the goroutines that \<open>Run\<close> has started and that have not returned, by the time of their
  start. \<open>exNews\<close>: an operation for the claim has ended, or the claim was changed, since the candidate watches; the event that
  \<open>watchProvisioning\<close> waits for, of a claim that succeeded or failed, is one of these.
\<close>

record election =
  exNow :: time
  exRecord :: LeaderElectionRecord
  exVersion :: nat
  exElectors :: "string \<Rightarrow> elector"
  exOps :: "string \<Rightarrow> time list"
  exNews :: "string \<Rightarrow> bool"

definition put_elector :: "string \<Rightarrow> elector \<Rightarrow> election \<Rightarrow> election" where
  "put_elector c e s = s\<lparr>exElectors := (exElectors s)(c := e)\<rparr>"

definition write_record :: "LeaderElectionRecord \<Rightarrow> election \<Rightarrow> election" where
  "write_record r s = s\<lparr>exRecord := stored r, exVersion := Suc (exVersion s)\<rparr>"

definition acquired :: "election_config \<Rightarrow> string \<Rightarrow> time \<Rightarrow> LeaderElectionRecord \<Rightarrow> election \<Rightarrow> election" where
  \<comment> \<open>a successful \<open>Update\<close>; a candidate that did not lead starts its operation\<close>
  "acquired ec c t old s =
     (let e = exElectors s c; r = next_record ec c t old;
          s' = put_elector c (e\<lparr>observedRecord := r, observedTime := Some (exNow s), elPhase := Waiting,
            elLeading := Some (case elLeading e of None \<Rightarrow> exNow s | Some since \<Rightarrow> since)\<rparr>) (write_record r s) in
      if elLeading e = None then s'\<lparr>exOps := (exOps s)(c := exOps s c @ [exNow s])\<rparr> else s')"

definition gives_up :: "string \<Rightarrow> election \<Rightarrow> election" where
  "gives_up c s = put_elector c ((exElectors s c)\<lparr>elPhase := Off, elLeading := None\<rparr>) s"

definition election_init :: election where
  "election_init = \<lparr>exNow = 0, exRecord = zero_record, exVersion = 0,
     exElectors = (\<lambda>_. new_elector\<lparr>elPhase := Off\<rparr>), exOps = (\<lambda>_. []), exNews = (\<lambda>_. False)\<rparr>"

text \<open>
  The rules, in the order of the code: \<open>lockProvisionClaimOperation\<close> makes a candidate; an attempt begins, reads the record, and
  writes it, with an answer or without one, or fails; the candidate gives up because its term is over, because it could not
  renew the lock in time, or because the watch told it. The operation returns by itself, others change the claim, and time passes.
  \<open>may_stop\<close> says in which states a candidate may give up; with \<open>\<lambda>c s. True\<close> nothing keeps it from it, as in the code.
\<close>

inductive election_step :: "election_config \<Rightarrow> (string \<Rightarrow> election \<Rightarrow> bool) \<Rightarrow> election \<Rightarrow> election \<Rightarrow> bool"
  for ec may_stop
where
  started: "elPhase (exElectors s c) = Off \<Longrightarrow>
    election_step ec may_stop s ((put_elector c new_elector s)\<lparr>exNews := (exNews s)(c := False)\<rparr>)"
| begun: "exElectors s c = e \<Longrightarrow> elPhase e = Waiting \<Longrightarrow>
    election_step ec may_stop s (put_elector c (e\<lparr>elPhase := Reading (exNow s)\<rparr>) s)"
| got: "exElectors s c = e \<Longrightarrow> elPhase e = Reading t \<Longrightarrow> e' = observe (exNow s) (exRecord s) e \<Longrightarrow>
    election_step ec may_stop s (put_elector c (e'\<lparr>elPhase :=
      (if held_by_other ec c t (exRecord s) e' then Waiting else Writing t (exRecord s) (exVersion s))\<rparr>) s)"
| updated: "elPhase (exElectors s c) = Writing t old (exVersion s) \<Longrightarrow> election_step ec may_stop s (acquired ec c t old s)"
| unanswered: "exElectors s c = e \<Longrightarrow> elPhase e = Writing t old (exVersion s) \<Longrightarrow>
    election_step ec may_stop s (put_elector c (e\<lparr>elPhase := Waiting\<rparr>) (write_record (next_record ec c t old) s))"
| failed: "exElectors s c = e \<Longrightarrow> elPhase e \<noteq> Off \<Longrightarrow>
    election_step ec may_stop s (put_elector c (e\<lparr>elPhase := Waiting\<rparr>) s)"
| term_over: "elPhase (exElectors s c) = Waiting \<Longrightarrow> elLeading (exElectors s c) = Some since \<Longrightarrow>
    since + ecTermLimit ec \<le> exNow s \<Longrightarrow> may_stop c s \<Longrightarrow> election_step ec may_stop s (gives_up c s)"
| not_renewed: "elPhase (exElectors s c) = Waiting \<Longrightarrow> elLeading (exElectors s c) = Some since \<Longrightarrow>
    observedTime (exElectors s c) = Some u \<Longrightarrow> u + ecRenewDeadline ec \<le> exNow s \<Longrightarrow> may_stop c s \<Longrightarrow>
    election_step ec may_stop s (gives_up c s)"
| told: "elPhase (exElectors s c) = Waiting \<Longrightarrow> exNews s c \<Longrightarrow> may_stop c s \<Longrightarrow> election_step ec may_stop s (gives_up c s)"
| returned: "exOps s c = before @ x # after \<Longrightarrow>
    election_step ec may_stop s (s\<lparr>exOps := (exOps s)(c := before @ after), exNews := (\<lambda>_. True)\<rparr>)"
| changed: "election_step ec may_stop s (s\<lparr>exVersion := Suc (exVersion s), exNews := (\<lambda>_. True)\<rparr>)"
| passed: "0 \<le> d \<Longrightarrow> election_step ec may_stop s (s\<lparr>exNow := exNow s + d\<rparr>)"

inductive election_reach :: "election_config \<Rightarrow> (string \<Rightarrow> election \<Rightarrow> bool) \<Rightarrow> election \<Rightarrow> bool"
  for ec may_stop
where
  init: "election_reach ec may_stop election_init"
| step: "election_reach ec may_stop s \<Longrightarrow> election_step ec may_stop s s' \<Longrightarrow> election_reach ec may_stop s'"

lemma record_simps [simp]:
  "exRecord (put_elector c e s) = exRecord s" "exRecord (write_record r s) = stored r"
  "exRecord (acquired ec c t old s) = stored (next_record ec c t old)" "exRecord (gives_up c s) = exRecord s"
  by (simp_all add: put_elector_def write_record_def acquired_def gives_up_def Let_def)

section \<open>The lease\<close>

text \<open>
  What a candidate has seen of the record it saw after the record was renewed; and a candidate that writes over the
  record it read is its holder, or saw it for the length of a lease.
\<close>

definition elector_ok :: "election_config \<Rightarrow> time \<Rightarrow> LeaderElectionRecord \<Rightarrow> nat \<Rightarrow> string \<Rightarrow> elector \<Rightarrow> bool" where
  "elector_ok ec now r version c e \<longleftrightarrow>
     (case observedTime e of
        None \<Rightarrow> observedRecord e = zero_record
      | Some u \<Rightarrow> u \<le> now \<and> RenewTime (observedRecord e) \<le> u) \<and>
     (case elPhase e of
        Reading t \<Rightarrow> t \<le> now
      | Writing t old v \<Rightarrow> t \<le> now \<and> v \<le> version \<and> (v = version \<longrightarrow> r = old) \<and>
          (HolderIdentity old \<in> {[], c} \<or> RenewTime old + ecLeaseDuration ec \<le> t)
      | _ \<Rightarrow> True)"

definition election_ok :: "election_config \<Rightarrow> election \<Rightarrow> bool" where
  "election_ok ec s \<longleftrightarrow> RenewTime (exRecord s) \<le> exNow s \<and>
     (\<forall>c. elector_ok ec (exNow s) (exRecord s) (exVersion s) c (exElectors s c))"

lemma election_okD:
  assumes "election_ok ec s"
  shows "\<And>c. elector_ok ec (exNow s) (exRecord s) (exVersion s) c (exElectors s c)" "RenewTime (exRecord s) \<le> exNow s"
  using assms by (simp_all add: election_ok_def)

lemma stored_simps [simp]: "HolderIdentity (stored r) = HolderIdentity r" "RenewTime (stored r) \<le> RenewTime r"
proof -
  have "(0 :: int) < Second" by (simp add: Second_def)
  then have "RenewTime r div Second * Second \<le> RenewTime r" by (simp add: minus_mod_eq_div_mult [symmetric])
  then show "RenewTime (stored r) \<le> RenewTime r" by (simp add: stored_def)
qed (simp add: stored_def)

lemma next_record_simps [simp]: "HolderIdentity (next_record ec c t old) = c" "RenewTime (next_record ec c t old) = t"
  by (simp_all add: next_record_def)

lemma elector_ok_later: "elector_ok ec now r v c e \<Longrightarrow> now \<le> now' \<Longrightarrow> elector_ok ec now' r v c e"
  by (auto simp: elector_ok_def split: option.splits phase.splits)

lemma elector_ok_version: "elector_ok ec now r v c e \<Longrightarrow> elector_ok ec now r' (Suc v) c e"
  by (auto simp: elector_ok_def split: option.splits phase.splits)

lemma elector_ok_phase:
  "elector_ok ec now r v c e \<Longrightarrow> elector_ok ec now r v c (e\<lparr>elPhase := Waiting\<rparr>)"
  "elector_ok ec now r v c e \<Longrightarrow> elector_ok ec now r v c (e\<lparr>elPhase := Reading now\<rparr>)"
  "elector_ok ec now r v c e \<Longrightarrow> elector_ok ec now r v c (e\<lparr>elPhase := Off, elLeading := None\<rparr>)"
  "elector_ok ec now r v c new_elector"
  by (auto simp: elector_ok_def new_elector_def split: option.splits)

lemma put_elector_ok:
  "election_ok ec s \<Longrightarrow> elector_ok ec (exNow s) (exRecord s) (exVersion s) c e \<Longrightarrow> election_ok ec (put_elector c e s)"
  by (simp add: election_ok_def put_elector_def)

lemma write_record_ok:
  "election_ok ec s \<Longrightarrow> RenewTime r \<le> exNow s \<Longrightarrow> election_ok ec (write_record r s)"
  by (auto simp: election_ok_def write_record_def intro: elector_ok_version order_trans [OF stored_simps(2)])

lemma got_ok:
  assumes "election_ok ec s" and "elPhase (exElectors s c) = Reading t" and "e' = observe (exNow s) (exRecord s) (exElectors s c)"
  shows "elector_ok ec (exNow s) (exRecord s) (exVersion s) c (e'\<lparr>elPhase :=
    (if held_by_other ec c t (exRecord s) e' then Waiting else Writing t (exRecord s) (exVersion s))\<rparr>)"
proof -
  note ok = election_okD(1) [OF assms(1), of c] election_okD(2) [OF assms(1)]
  have "observedRecord e' = exRecord s" by (simp add: assms(3) observe_def)
  moreover have "case observedTime e' of None \<Rightarrow> observedRecord e' = zero_record
      | Some u \<Rightarrow> u \<le> exNow s \<and> RenewTime (observedRecord e') \<le> u"
    using ok by (auto simp: assms(3) observe_def elector_ok_def split: option.splits)
  moreover have "t \<le> exNow s" using ok(1) assms(2) by (simp add: elector_ok_def)
  moreover have "HolderIdentity zero_record = []" by (simp add: zero_record_def)
  ultimately show ?thesis
    by (auto simp: elector_ok_def held_by_other_def split: option.splits)
qed

lemma election_step_ok:
  assumes "election_step ec may_stop s s'" and "election_ok ec s"
  shows "election_ok ec s'"
  using assms(1)
proof (cases rule: election_step.cases)
  case (started c)
  have "election_ok ec (put_elector c new_elector s)" by (rule put_elector_ok [OF assms(2) elector_ok_phase(4)])
  then show ?thesis by (simp add: started(1) election_ok_def)
next
  case (begun c e)
  then show ?thesis using put_elector_ok [OF assms(2) elector_ok_phase(2)] election_okD(1) [OF assms(2), of c] by simp
next
  case (got c e t e')
  show ?thesis unfolding got(1) by (rule put_elector_ok [OF assms(2) got_ok [OF assms(2)]]) (use got in simp_all)
next
  case (updated c t old)
  have t: "t \<le> exNow s" using election_okD(1) [OF assms(2), of c] updated(2) by (simp add: elector_ok_def)
  let ?r = "next_record ec c t old"
  have w: "election_ok ec (write_record ?r s)" using write_record_ok [OF assms(2), of ?r] t by simp
  have "elector_ok ec (exNow s) x v c (e\<lparr>observedRecord := ?r, observedTime := Some (exNow s), elPhase := Waiting, elLeading := l\<rparr>)"
    for x v l and e using t by (simp add: elector_ok_def)
  then have "election_ok ec (put_elector c ((exElectors s c)\<lparr>observedRecord := ?r, observedTime := Some (exNow s), elPhase := Waiting,
      elLeading := l\<rparr>) (write_record ?r s))" for l
    by (intro put_elector_ok [OF w]) (simp add: write_record_def)
  then show ?thesis by (simp add: updated(1) acquired_def Let_def) (simp add: election_ok_def)
next
  case (unanswered c e t old)
  have t: "t \<le> exNow s" using election_okD(1) [OF assms(2), of c] unanswered(2,3) by (simp add: elector_ok_def)
  have w: "election_ok ec (write_record (next_record ec c t old) s)" using write_record_ok [OF assms(2)] t by simp
  show ?thesis unfolding unanswered(1)
    by (rule put_elector_ok [OF w]) (use election_okD(1) [OF w, of c] unanswered(2) in \<open>auto simp: write_record_def intro: elector_ok_phase\<close>)
next
  case (failed c e)
  then show ?thesis using put_elector_ok [OF assms(2) elector_ok_phase(1)] election_okD(1) [OF assms(2), of c] by simp
next
  case (term_over c since)
  then show ?thesis using put_elector_ok [OF assms(2) elector_ok_phase(3)] election_okD(1) [OF assms(2), of c] by (simp add: gives_up_def)
next
  case (not_renewed c since u)
  then show ?thesis using put_elector_ok [OF assms(2) elector_ok_phase(3)] election_okD(1) [OF assms(2), of c] by (simp add: gives_up_def)
next
  case (told c)
  then show ?thesis using put_elector_ok [OF assms(2) elector_ok_phase(3)] election_okD(1) [OF assms(2), of c] by (simp add: gives_up_def)
next
  case (returned c before x after)
  then show ?thesis using assms(2) by (simp add: election_ok_def)
next
  case changed
  then show ?thesis using assms(2) by (auto simp: election_ok_def intro: elector_ok_version)
next
  case (passed d)
  then show ?thesis using assms(2) by (fastforce simp: election_ok_def intro: elector_ok_later)
qed

lemma election_reach_ok: "election_reach ec may_stop s \<Longrightarrow> election_ok ec s"
proof (induction rule: election_reach.induct)
  case init
  show ?case by (simp add: election_ok_def election_init_def elector_ok_def new_elector_def zero_record_def)
qed (rule election_step_ok)

text \<open>
  C38: a lease is respected. In every interleaving of the candidates' requests, with conflicts, lost answers and changes of the
  claim by others, the lock passes from one controller to another only when the lease has run out since the holder
  renewed it.
\<close>

theorem lease_respected:
  assumes "election_reach ec may_stop s" and "election_step ec may_stop s s'"
    and "HolderIdentity (exRecord s) = c" and "c \<noteq> []" and "HolderIdentity (exRecord s') \<noteq> c"
  shows "RenewTime (exRecord s) + ecLeaseDuration ec \<le> exNow s"
proof -
  have lease: "RenewTime (exRecord s) + ecLeaseDuration ec \<le> exNow s"
    if "elPhase (exElectors s d) = Writing t old (exVersion s)" and "d \<noteq> c" for d t old
  proof -
    have "elector_ok ec (exNow s) (exRecord s) (exVersion s) d (exElectors s d)"
      by (rule election_okD(1) [OF election_reach_ok [OF assms(1)]])
    then show ?thesis using that assms(3,4) by (auto simp: elector_ok_def)
  qed
  from assms(2) show ?thesis
  proof (cases rule: election_step.cases)
    case (updated d t old)
    then show ?thesis using lease [OF updated(2)] assms(5) by auto
  next
    case (unanswered d e t old)
    then show ?thesis using lease [of d t old] assms(5) by auto
  qed (use assms(3,5) in auto)
qed

section \<open>The operations\<close>

text \<open>If a candidate gave up only when its operation has returned, it would never run two operations.\<close>

definition ops_ok :: "election \<Rightarrow> bool" where
  "ops_ok s \<longleftrightarrow> (\<forall>c. length (exOps s c) \<le> 1 \<and> (elLeading (exElectors s c) = None \<longrightarrow> exOps s c = []) \<and>
     (elPhase (exElectors s c) = Off \<longrightarrow> elLeading (exElectors s c) = None))"

lemma election_step_ops:
  assumes "election_step ec (\<lambda>c s. exOps s c = []) s s'" and "ops_ok s"
  shows "ops_ok s'"
  using assms(1)
proof (cases rule: election_step.cases)
  case (got c e t e')
  have "elLeading e' = elLeading e" by (simp add: got(4) observe_def)
  moreover have "elLeading e = None \<longrightarrow> exOps s c = []" using assms(2) got(2) by (auto simp: ops_ok_def)
  ultimately show ?thesis using assms(2) by (auto simp: ops_ok_def put_elector_def got(1))
next
  case (updated c t old)
  then show ?thesis using assms(2)
    by (cases "elLeading (exElectors s c)") (auto simp: ops_ok_def put_elector_def write_record_def acquired_def Let_def)
next
  case (returned c before x after)
  have "length (exOps s c) \<le> 1" using assms(2) by (simp add: ops_ok_def)
  then have "before @ after = []" by (simp add: returned(2))
  then show ?thesis using assms(2) by (auto simp: ops_ok_def returned(1))
qed (use assms(2) in \<open>auto simp: ops_ok_def put_elector_def write_record_def gives_up_def new_elector_def\<close>)

lemma operations_apart:
  assumes "election_reach ec (\<lambda>c s. exOps s c = []) s"
  shows "length (exOps s c) \<le> 1"
proof -
  have "ops_ok s"
    using assms
  proof induction
    case init
    show ?case by (simp add: ops_ok_def election_init_def new_elector_def)
  qed (rule election_step_ops)
  then show ?thesis by (simp add: ops_ok_def)
qed

lemma constant_upd [simp]: "(\<lambda>_. y)(c := y) = (\<lambda>_. y)"
  by (rule ext) simp

text \<open>A candidate alone becomes the leader.\<close>

definition alone :: "string \<Rightarrow> time \<Rightarrow> LeaderElectionRecord \<Rightarrow> nat \<Rightarrow> elector \<Rightarrow> time list \<Rightarrow> election" where
  "alone c n r v e os = election_init\<lparr>exNow := n, exRecord := r, exVersion := v,
     exElectors := (exElectors election_init)(c := e), exOps := (\<lambda>_. [])(c := os)\<rparr>"

definition leads :: "election_config \<Rightarrow> string \<Rightarrow> elector" where
  "leads ec c = \<lparr>observedRecord = next_record ec c 0 zero_record, observedTime = Some 0, elPhase = Waiting, elLeading = Some 0\<rparr>"

lemmas alone_defs = alone_def election_init_def new_elector_def put_elector_def write_record_def acquired_def gives_up_def Let_def leads_def

lemma alone_leads:
  "election_reach ec ms (alone c 0 (stored (next_record ec c 0 zero_record)) 1 (leads ec c) [0])"
proof -
  let ?z = zero_record and ?r = "stored (next_record ec c 0 zero_record)"
  have 1: "election_step ec ms election_init (alone c 0 ?z 0 new_elector [])"
    using election_step.started [of election_init c ec ms] by (simp add: alone_defs)
  have 2: "election_step ec ms (alone c 0 ?z 0 new_elector []) (alone c 0 ?z 0 (new_elector\<lparr>elPhase := Reading 0\<rparr>) [])"
    using election_step.begun [of "alone c 0 ?z 0 new_elector []" c new_elector ec ms] by (simp add: alone_defs)
  have 3: "election_step ec ms (alone c 0 ?z 0 (new_elector\<lparr>elPhase := Reading 0\<rparr>) []) (alone c 0 ?z 0 (new_elector\<lparr>elPhase := Writing 0 ?z 0\<rparr>) [])"
    using election_step.got [OF refl _ refl, of "alone c 0 ?z 0 (new_elector\<lparr>elPhase := Reading 0\<rparr>) []" c 0 ec ms]
    by (simp add: alone_defs observe_def held_by_other_def)
  have 4: "election_step ec ms (alone c 0 ?z 0 (new_elector\<lparr>elPhase := Writing 0 ?z 0\<rparr>) []) (alone c 0 ?r 1 (leads ec c) [0])"
    using election_step.updated [of "alone c 0 ?z 0 (new_elector\<lparr>elPhase := Writing 0 ?z 0\<rparr>) []" c 0 ?z ec ms] by (simp add: alone_defs)
  show ?thesis
    by (rule election_reach.step [OF election_reach.step [OF election_reach.step [OF election_reach.step [OF election_reach.init 1] 2] 3] 4])
qed

lemma leader_at:
  assumes "c \<noteq> d"
  shows "\<exists>s. election_reach ec ms s \<and> exNow s = 0 \<and> HolderIdentity (exRecord s) = c \<and> exElectors s d = new_elector\<lparr>elPhase := Off\<rparr>"
  using alone_leads [of ec ms c] assms by (intro exI conjI) (assumption, simp_all add: alone_def election_init_def)

text \<open>Its term ends while its operation runs, and it stands again.\<close>

lemma operations_overlap_at:
  assumes "0 \<le> ecTermLimit ec" and "c \<noteq> []"
  shows "\<exists>s. election_reach ec (\<lambda>c s. True) s \<and> exNow s = ecTermLimit ec \<and> exOps s c = [0, ecTermLimit ec]"
proof -
  let ?step = "election_step ec (\<lambda>c s. True)" and ?T = "ecTermLimit ec" and ?st = "alone c"
  define r where "r = stored (next_record ec c 0 zero_record)"
  have r: "HolderIdentity r = c" by (simp add: r_def)
  have ne: "zero_record \<noteq> r" using r assms(2) by (auto simp: zero_record_def)
  define led where "led = leads ec c"
  define saw where "saw = new_elector\<lparr>observedRecord := r, observedTime := Some ?T, elPhase := Writing ?T r 1\<rparr>"
  have led: "elPhase led = Waiting" "elLeading led = Some 0" by (simp_all add: led_def leads_def)
  have 1: "?step (?st 0 r 1 led [0]) (?st ?T r 1 led [0])"
    using election_step.passed [OF assms(1), of ec _ "?st 0 r 1 led [0]"] by (simp add: alone_def election_init_def)
  have 2: "?step (?st ?T r 1 led [0]) (?st ?T r 1 (led\<lparr>elPhase := Off, elLeading := None\<rparr>) [0])"
    using election_step.term_over [of "?st ?T r 1 led [0]" c 0 ec] led by (simp add: alone_def election_init_def gives_up_def put_elector_def)
  have 3: "?step (?st ?T r 1 (led\<lparr>elPhase := Off, elLeading := None\<rparr>) [0]) (?st ?T r 1 new_elector [0])"
    using election_step.started [of "?st ?T r 1 (led\<lparr>elPhase := Off, elLeading := None\<rparr>) [0]" c ec]
    by (simp add: alone_def election_init_def put_elector_def)
  have 4: "?step (?st ?T r 1 new_elector [0]) (?st ?T r 1 (new_elector\<lparr>elPhase := Reading ?T\<rparr>) [0])"
    using election_step.begun [of "?st ?T r 1 new_elector [0]" c new_elector ec] by (simp add: alone_defs)
  have 5: "?step (?st ?T r 1 (new_elector\<lparr>elPhase := Reading ?T\<rparr>) [0]) (?st ?T r 1 saw [0])"
    using election_step.got [OF refl _ refl, of "?st ?T r 1 (new_elector\<lparr>elPhase := Reading ?T\<rparr>) [0]" c ?T ec] r ne
    by (simp add: alone_def put_elector_def saw_def observe_def held_by_other_def new_elector_def election_init_def)
  have 6: "?step (?st ?T r 1 saw [0]) (acquired ec c ?T r (?st ?T r 1 saw [0]))"
    by (rule election_step.updated) (simp add: alone_def saw_def)
  note reach = election_reach.step [OF election_reach.step [OF election_reach.step [OF election_reach.step [OF election_reach.step
    [OF election_reach.step [OF alone_leads 1 [unfolded r_def led_def]] 2 [unfolded r_def led_def]] 3 [unfolded r_def led_def]] 4 [unfolded r_def]] 5 [unfolded r_def]] 6 [unfolded r_def]]
  have "exNow (acquired ec c ?T r (?st ?T r 1 saw [0])) = ?T" "exOps (acquired ec c ?T r (?st ?T r 1 saw [0])) c = [0, ?T]"
    by (simp_all add: acquired_def alone_def saw_def new_elector_def put_elector_def write_record_def Let_def)
  with reach [folded r_def] show ?thesis by blast
qed

section \<open>The settings of the program\<close>

text \<open>
  C39: the election does not keep the operations of one controller apart. With the settings of \<open>main\<close>, which the election accepts, a
  controller gives up the leadership for a claim 30 seconds after it got it, while its operation goes on; it may stand again at
  once, as the holder of the record it wins, and starts a second operation for the same claim. At that time the first one
  is far from the three minutes for which the block provisioner waits.
\<close>

theorem operations_overlap:
  assumes "NewProvisionController parse ty p version controller_options s0 = Some (Ok ct, s0)" and "c \<noteq> []"
  shows "NewLeaderElector (election_of ct) = None \<and>
    (\<exists>s first second. election_reach (election_of ct) (\<lambda>c s. True) s \<and> exOps s c = [first, second] \<and>
      exNow s = first + 30 * Second \<and> exNow s < first + 3 * Minute)"
proof -
  have ct: "election_of ct = \<lparr>ecLeaseDuration = 15 * Second, ecRenewDeadline = 10 * Second, ecRetryPeriod = 2 * Second,
      ecTermLimit = 30 * Second\<rparr>"
    using assms(1) by (auto simp: NewProvisionController_run election_of_def controller_of_def split: option.splits)
  have time: "(0 :: int) \<le> 30 * Second" "(30 :: int) * Second < 3 * Minute" by (simp_all add: Second_def Minute_def)
  then obtain s where "election_reach (election_of ct) (\<lambda>c s. True) s" "exNow s = 30 * Second" "exOps s c = [0, 30 * Second]"
    using operations_overlap_at [of "election_of ct" c] assms(2) by (auto simp: ct)
  with time show ?thesis by (auto simp: ct NewLeaderElector_def Second_def Minute_def)
qed

theorem operations_overlap_witness:
  "\<exists>s first second. election_reach (election_of block_controller) (\<lambda>c s. True) s \<and> exOps s ''node-1'' = [first, second] \<and>
    exNow s = first + 30 * Second"
proof -
  have run: "NewProvisionController (\<lambda>_. None) ProvisionerNameDefault mock_block_core ''v1.10.0'' controller_options (0 :: nat) =
      Some (Ok block_controller, 0)" by (simp add: NewProvisionController_run)
  from operations_overlap [OF run, of "''node-1''"] show ?thesis by auto
qed

text \<open>A second candidate takes the lock over when the lease of the first one has run out.\<close>

lemma lock_passes:
  assumes "election_reach ec ms s" and "exElectors s d = new_elector\<lparr>elPhase := Off\<rparr>" and "exRecord s = r"
    and "HolderIdentity r \<notin> {[], d}" and "exNow s = 0" and "0 < ecLeaseDuration ec"
  shows "\<exists>s1 s2. election_reach ec ms s1 \<and> election_step ec ms s1 s2 \<and> exRecord s1 = r \<and> exNow s1 = ecLeaseDuration ec \<and>
    HolderIdentity (exRecord s2) = d"
proof -
  let ?L = "ecLeaseDuration ec" and ?v = "exVersion s"
  have ne: "zero_record \<noteq> r" using assms(4) by (auto simp: zero_record_def)
  define saw where "saw = new_elector\<lparr>observedRecord := r, observedTime := Some 0\<rparr>"
  define st where "st = (\<lambda>n e. s\<lparr>exNow := n, exElectors := (exElectors s)(d := e), exNews := (exNews s)(d := False)\<rparr>)"
  note defs = st_def put_elector_def
  have st0: "st 0 e = s\<lparr>exElectors := (exElectors s)(d := e), exNews := (exNews s)(d := False)\<rparr>" for e
    using assms(5) by (cases s) (simp add: st_def)
  have rec: "exRecord (st n e) = r" "exVersion (st n e) = ?v" "exNow (st n e) = n" "exElectors (st n e) d = e" for n e
    using assms(3) by (simp_all add: st_def)
  have put: "put_elector d e' (st n e) = st n e'" for n e e' by (simp add: defs)
  have saw': "observe 0 r (new_elector\<lparr>elPhase := Reading 0\<rparr>) = saw\<lparr>elPhase := Reading 0\<rparr>"
    "observe ?L r (saw\<lparr>elPhase := Reading ?L\<rparr>) = saw\<lparr>elPhase := Reading ?L\<rparr>"
    using ne by (simp_all add: observe_def saw_def new_elector_def)
  have 1: "election_step ec ms s (st 0 new_elector)"
    using election_step.started [of s d ec ms] assms(2) by (simp add: st0 put_elector_def)
  have 2: "election_step ec ms (st 0 new_elector) (st 0 (new_elector\<lparr>elPhase := Reading 0\<rparr>))"
    using election_step.begun [of "st 0 new_elector" d new_elector ec ms] by (simp add: rec put new_elector_def)
  have 3: "election_step ec ms (st 0 (new_elector\<lparr>elPhase := Reading 0\<rparr>)) (st 0 (saw\<lparr>elPhase := Waiting\<rparr>))"
    using election_step.got [OF refl _ refl, of "st 0 (new_elector\<lparr>elPhase := Reading 0\<rparr>)" d 0 ec ms] assms(4)
    by (simp add: rec put saw') (simp add: rec assms(6) held_by_other_def saw_def new_elector_def)
  have 4: "election_step ec ms (st 0 (saw\<lparr>elPhase := Waiting\<rparr>)) (st 0 saw)"
    using election_step.failed [OF refl, of "st 0 (saw\<lparr>elPhase := Waiting\<rparr>)" d ec ms]
    by (simp add: rec put) (simp add: saw_def new_elector_def)
  have 5: "election_step ec ms (st 0 saw) (st ?L saw)"
    using election_step.passed [of ?L ec ms "st 0 saw"] assms(6) by (cases s) (simp add: st_def)
  have 6: "election_step ec ms (st ?L saw) (st ?L (saw\<lparr>elPhase := Reading ?L\<rparr>))"
    using election_step.begun [of "st ?L saw" d saw ec ms] by (simp add: rec put) (simp add: saw_def new_elector_def)
  have 7: "election_step ec ms (st ?L (saw\<lparr>elPhase := Reading ?L\<rparr>)) (st ?L (saw\<lparr>elPhase := Writing ?L r ?v\<rparr>))"
    using election_step.got [OF refl _ refl, of "st ?L (saw\<lparr>elPhase := Reading ?L\<rparr>)" d ?L ec ms]
    by (simp add: rec put saw') (simp add: rec held_by_other_def saw_def)
  have 8: "election_step ec ms (st ?L (saw\<lparr>elPhase := Writing ?L r ?v\<rparr>)) (acquired ec d ?L r (st ?L (saw\<lparr>elPhase := Writing ?L r ?v\<rparr>)))"
    by (rule election_step.updated) (simp add: rec)
  have "election_reach ec ms (st ?L (saw\<lparr>elPhase := Writing ?L r ?v\<rparr>))"
    by (rule election_reach.step [OF election_reach.step [OF election_reach.step [OF election_reach.step [OF election_reach.step
      [OF election_reach.step [OF election_reach.step [OF assms(1) 1] 2] 3] 4] 5] 6] 7])
  with 8 show ?thesis by (intro exI conjI) (assumption+, simp_all add: rec)
qed

theorem lease_respected_witness:
  "\<exists>s s'. election_reach (election_of block_controller) (\<lambda>c s. True) s \<and>
    election_step (election_of block_controller) (\<lambda>c s. True) s s' \<and>
    HolderIdentity (exRecord s) = ''node-1'' \<and> HolderIdentity (exRecord s') = ''node-2'' \<and>
    RenewTime (exRecord s) + 15 * Second \<le> exNow s"
proof -
  let ?ec = "election_of block_controller"
  have ec: "0 \<le> ecTermLimit ?ec" "ecLeaseDuration ?ec = 15 * Second" "0 < ecLeaseDuration ?ec"
    by (simp_all add: election_of_def controller_of_def Second_def)
  obtain s where s: "election_reach ?ec (\<lambda>c s. True) s" "exNow s = 0" "HolderIdentity (exRecord s) = ''node-1''"
    "exElectors s ''node-2'' = new_elector\<lparr>elPhase := Off\<rparr>"
    using leader_at [of "''node-1''" "''node-2''" ?ec "\<lambda>c s. True"] by auto
  from lock_passes [OF s(1,4) refl _ s(2) ec(3)] s(3) obtain s1 s2 where
    s12: "election_reach ?ec (\<lambda>c s. True) s1" "election_step ?ec (\<lambda>c s. True) s1 s2" "exRecord s1 = exRecord s"
    "HolderIdentity (exRecord s2) = ''node-2''" by auto
  have "RenewTime (exRecord s1) + ecLeaseDuration ?ec \<le> exNow s1"
    by (rule lease_respected [OF s12(1,2), of "''node-1''"]) (simp_all add: s12 s)
  then have "RenewTime (exRecord s1) + 15 * Second \<le> exNow s1" unfolding ec(2) .
  with s12 s(3) show ?thesis by (intro exI [of _ s1] exI [of _ s2]) simp
qed

end
