(* ===== verification/Watch.thy ===== *)
theory Watch
  imports Controller
begin

text \<open>
  The watch for the end of a provisioning, \<open>watchProvisioning\<close> and \<open>watchPVC\<close> of the vendored controller: one goroutine
  passes on what the three watches of a claim deliver, another one judges it and tells \<open>Run\<close> of the leader election, over channels
  without a buffer. The three interleave; the requests that open the watches are not modelled.
\<close>

section \<open>Definitions\<close>

datatype watch_object = ClaimSeen ClaimObject | EventSeen string \<comment> \<open>with its reason\<close> | OtherSeen

record watch_event =
  weType :: string
  weObject :: watch_object

definition watch_verdict :: "'a KubeAPI \<Rightarrow> 'c ProvisionController \<Rightarrow> watch_event \<Rightarrow> (('a, 'c) cluster, bool option) go" where
  \<comment> \<open>what is sent for an event, if anything\<close>
  "watch_verdict k ct e =
     (case weObject e of
        ClaimSeen cobj \<Rightarrow>
          if weType e = ''ADDED'' \<or> weType e = ''MODIFIED'' then
            if coVolumeName cobj \<noteq> [] then ret (Some True)
            else go_bind (shouldProvision k ct cobj) (\<lambda>should. ret (if \<not> should then Some True else None))
          else if weType e = ''DELETED'' then ret (Some True)
          else if weType e = ''ERROR'' then ret (Some True)
          else ret None
      | EventSeen reason \<Rightarrow>
          if reason = ''ProvisioningSucceeded'' then ret (Some True)
          else if reason = ''ProvisioningFailed'' then ret (Some False)
          else ret None
      | OtherSeen \<Rightarrow> ret None)"

text \<open>
  Where the goroutines are: in their \<open>select\<close>, or sending. \<open>Run\<close> reads the verdicts while it tries to take the lock and while
  it renews it; when it has returned, the stop channel is closed.
\<close>

datatype forwarder = Selecting | Forwarding watch_event | Closed

datatype judge = Judging | Telling bool | Gone

datatype reader = Acquiring | Renewing | Returned | Stopped

record watching =
  waForwarder :: forwarder
  waJudge :: judge
  waReader :: reader
  waTaken :: "watch_event list" \<comment> \<open>the events that were judged\<close>
  waTold :: "bool list" \<comment> \<open>what \<open>Run\<close> was told\<close>

definition watching_init :: watching where
  "watching_init = \<lparr>waForwarder = Selecting, waJudge = Judging, waReader = Acquiring, waTaken = [], waTold = []\<rparr>"

inductive forward_step :: "watching \<Rightarrow> watching \<Rightarrow> bool" where
  delivered: "waForwarder s = Selecting \<Longrightarrow> forward_step s (s\<lparr>waForwarder := Forwarding e\<rparr>)"
| ended: "waForwarder s = Selecting \<Longrightarrow> forward_step s (s\<lparr>waForwarder := Closed\<rparr>)" \<comment> \<open>a watch has ended\<close>
| stopped: "waForwarder s = Selecting \<Longrightarrow> waJudge s = Gone \<Longrightarrow> forward_step s (s\<lparr>waForwarder := Closed\<rparr>)"

text \<open>A channel that is closed delivers the zero event, which has no object.\<close>

inductive judge_step :: "'a KubeAPI \<Rightarrow> 'c ProvisionController \<Rightarrow> watching \<Rightarrow> watching \<Rightarrow> bool" for k ct where
  judged: "waJudge s = Judging \<Longrightarrow> waForwarder s = Forwarding e \<Longrightarrow> watch_verdict k ct e cl = Some (Ok v, cl') \<Longrightarrow>
    judge_step k ct s (s\<lparr>waForwarder := Selecting, waTaken := waTaken s @ [e],
      waJudge := (case v of None \<Rightarrow> Judging | Some b \<Rightarrow> Telling b)\<rparr>)"
| spun: "waJudge s = Judging \<Longrightarrow> waForwarder s = Closed \<Longrightarrow> judge_step k ct s s"
| left: "waJudge s = Judging \<Longrightarrow> waReader s = Stopped \<Longrightarrow> judge_step k ct s (s\<lparr>waJudge := Gone\<rparr>)"

text \<open>While it tries to take the lock, \<open>Run\<close> goes on after a failure; while it renews the lock, any verdict ends it.\<close>

inductive reader_step :: "watching \<Rightarrow> watching \<Rightarrow> bool" where
  told_acquiring: "waReader s = Acquiring \<Longrightarrow> waJudge s = Telling b \<Longrightarrow>
    reader_step s (s\<lparr>waJudge := Judging, waTold := waTold s @ [b], waReader := (if b then Returned else Acquiring)\<rparr>)"
| acquired: "waReader s = Acquiring \<Longrightarrow> reader_step s (s\<lparr>waReader := Renewing\<rparr>)"
| told_renewing: "waReader s = Renewing \<Longrightarrow> waJudge s = Telling b \<Longrightarrow>
    reader_step s (s\<lparr>waJudge := Judging, waTold := waTold s @ [b], waReader := Returned\<rparr>)"
| gave_up: "waReader s = Renewing \<Longrightarrow> reader_step s (s\<lparr>waReader := Returned\<rparr>)" \<comment> \<open>the term is over, or the lock was not renewed\<close>
| closed_stop: "waReader s = Returned \<Longrightarrow> reader_step s (s\<lparr>waReader := Stopped\<rparr>)"

inductive watch_step :: "'a KubeAPI \<Rightarrow> 'c ProvisionController \<Rightarrow> watching \<Rightarrow> watching \<Rightarrow> bool" for k ct where
  forward: "forward_step s s' \<Longrightarrow> watch_step k ct s s'"
| judge: "judge_step k ct s s' \<Longrightarrow> watch_step k ct s s'"
| reader: "reader_step s s' \<Longrightarrow> watch_step k ct s s'"

inductive watch_run :: "'a KubeAPI \<Rightarrow> 'c ProvisionController \<Rightarrow> watching \<Rightarrow> watching \<Rightarrow> bool" for k ct where
  refl: "watch_run k ct s s"
| step: "watch_run k ct s t \<Longrightarrow> watch_step k ct t u \<Longrightarrow> watch_run k ct s u"

inductive_cases forward_stepE: "forward_step s s'"
inductive_cases judge_stepE: "judge_step k ct s s'"
inductive_cases reader_stepE: "reader_step s s'"
inductive_cases watch_stepE: "watch_step k ct s s'"

section \<open>What is told is true\<close>

definition verdict_of :: "'a KubeAPI \<Rightarrow> 'c ProvisionController \<Rightarrow> bool \<Rightarrow> watch_event \<Rightarrow> bool" where
  "verdict_of k ct b e \<longleftrightarrow> (\<exists>cl cl'. watch_verdict k ct e cl = Some (Ok (Some b), cl'))"

lemma verdict_ofI: "watch_verdict k ct e cl = Some (Ok (Some b), cl') \<Longrightarrow> verdict_of k ct b e"
  by (auto simp: verdict_of_def)

definition heard :: "'a KubeAPI \<Rightarrow> 'c ProvisionController \<Rightarrow> watch_event list \<Rightarrow> bool set" where
  "heard k ct es = {b. \<exists>e \<in> set es. verdict_of k ct b e}"

lemma heard_append: "heard k ct (es @ [e]) = heard k ct es \<union> {b. verdict_of k ct b e}"
  by (auto simp: heard_def)

definition watch_ok :: "'a KubeAPI \<Rightarrow> 'c ProvisionController \<Rightarrow> watching \<Rightarrow> bool" where
  "watch_ok k ct s \<longleftrightarrow> set (waTold s) \<subseteq> heard k ct (waTaken s) \<and>
     (case waJudge s of Judging \<Rightarrow> True | Telling b \<Rightarrow> b \<in> heard k ct (waTaken s) | Gone \<Rightarrow> waReader s = Stopped)"

lemma judge_step_ok: "judge_step k ct s s' \<Longrightarrow> watch_ok k ct s \<Longrightarrow> watch_ok k ct s'"
  by (erule judge_stepE) (auto simp: watch_ok_def heard_append split: option.split dest: verdict_ofI)

lemma watch_ok_step: "watch_step k ct s s' \<Longrightarrow> watch_ok k ct s \<Longrightarrow> watch_ok k ct s'"
proof (erule watch_stepE)
  assume "watch_ok k ct s" and "forward_step s s'"
  then show "watch_ok k ct s'" by (auto simp: watch_ok_def elim!: forward_stepE split: judge.splits)
next
  assume "watch_ok k ct s" and "reader_step s s'"
  then show "watch_ok k ct s'" by (auto simp: watch_ok_def elim!: reader_stepE split: judge.splits)
qed (rule judge_step_ok)

lemma watch_run_ok: "watch_run k ct s s' \<Longrightarrow> watch_ok k ct s \<Longrightarrow> watch_ok k ct s'"
  by (induction rule: watch_run.induct) (auto intro: watch_ok_step)

lemma watching_init_ok: "watch_ok k ct watching_init"
  by (simp add: watch_ok_def watching_init_def)

text \<open>What \<open>Run\<close> is told is the verdict on an event that the watches delivered.\<close>

lemma watch_tells_the_truth:
  assumes "watch_run k ct watching_init s" and "b \<in> set (waTold s)"
  shows "\<exists>e \<in> set (waTaken s). verdict_of k ct b e"
  using watch_run_ok [OF assms(1) watching_init_ok] assms(2) by (auto simp: watch_ok_def heard_def)

section \<open>Goroutines that stay behind\<close>

text \<open>When nobody reads any more, a verdict cannot be delivered, and nothing ends the goroutine that has it, nor stops the watches.\<close>

definition stranded :: "bool \<Rightarrow> watching \<Rightarrow> bool" where
  "stranded b s \<longleftrightarrow> waJudge s = Telling b \<and> waReader s \<in> {Returned, Stopped}"

lemma stranded_step: "watch_step k ct s s' \<Longrightarrow> stranded b s \<Longrightarrow> stranded b s'"
  by (auto simp: stranded_def elim!: watch_stepE forward_stepE judge_stepE reader_stepE)

lemma stranded_run: "watch_run k ct s s' \<Longrightarrow> stranded b s \<Longrightarrow> stranded b s'"
  by (induction rule: watch_run.induct) (auto intro: stranded_step)

text \<open>The event of the success, and the updates of the claim once it is bound: both count as the end, whatever the cluster is like.\<close>

definition success_event :: "watch_event \<Rightarrow> bool" where
  "success_event e \<longleftrightarrow> weObject e = EventSeen ''ProvisioningSucceeded''"

definition bound_event :: "watch_event \<Rightarrow> bool" where
  "bound_event e \<longleftrightarrow> weType e \<in> {''ADDED'', ''MODIFIED''} \<and> (\<exists>cobj. weObject e = ClaimSeen cobj \<and> coVolumeName cobj \<noteq> [])"

definition ends :: "watch_event \<Rightarrow> bool" where
  "ends e \<longleftrightarrow> success_event e \<or> bound_event e"

lemma ends_verdict: "ends e \<Longrightarrow> watch_verdict k ct e cl = Some (Ok (Some True), cl)"
  by (auto simp: ends_def success_event_def bound_event_def watch_verdict_def go_simps)

text \<open>
  \<open>Run\<close> is told of one success at most, since it returns then; and each event that counts as the end is one of which it
  was told, or one that the goroutine is about to tell.
\<close>

definition ends_ok :: "watching \<Rightarrow> bool" where
  "ends_ok s \<longleftrightarrow>
     length (filter ends (waTaken s)) \<le> length (filter id (waTold s)) + (if waJudge s = Telling True then 1 else 0) \<and>
     length (filter id (waTold s)) \<le> 1 \<and> (waReader s \<in> {Acquiring, Renewing} \<longrightarrow> True \<notin> set (waTold s))"

lemma told_none: "True \<notin> set bs \<Longrightarrow> filter id bs = []"
  by (auto simp: filter_empty_conv)

lemma ends_ok_step: "watch_step k ct s s' \<Longrightarrow> ends_ok s \<Longrightarrow> ends_ok s'"
proof (erule watch_stepE)
  assume "ends_ok s" and "forward_step s s'"
  then show "ends_ok s'" by (auto simp: ends_ok_def elim!: forward_stepE)
next
  assume ok: "ends_ok s" and "judge_step k ct s s'"
  from this(2) show "ends_ok s'"
  proof (cases rule: judge_step.cases)
    case (judged e cl v cl')
    then have "ends e \<Longrightarrow> v = Some True" using ends_verdict [of e k ct cl] by simp
    with judged ok show ?thesis by (auto simp: ends_ok_def split: option.split)
  qed (use ok in \<open>auto simp: ends_ok_def\<close>)
next
  assume "ends_ok s" and "reader_step s s'"
  then show "ends_ok s'" by (auto simp: ends_ok_def told_none elim!: reader_stepE split: if_splits)
qed

lemma ends_ok_run: "watch_run k ct s s' \<Longrightarrow> ends_ok s \<Longrightarrow> ends_ok s'"
  by (induction rule: watch_run.induct) (auto intro: ends_ok_step)

lemma two_ends:
  assumes "e \<in> set es" and "e' \<in> set es" and "e \<noteq> e'" and "ends e" and "ends e'"
  shows "2 \<le> length (filter ends es)"
proof -
  have "{e, e'} \<subseteq> set (filter ends es)" using assms by simp
  then have "card {e, e'} \<le> card (set (filter ends es))" by (rule card_mono [OF finite_set])
  also have "\<dots> \<le> length (filter ends es)" by (rule card_length)
  finally show ?thesis using assms(3) by simp
qed

lemma both_strand:
  assumes "watch_run k ct watching_init s" and "e \<in> set (waTaken s)" and "success_event e" and "e' \<in> set (waTaken s)" and "bound_event e'"
  shows "stranded True s" and "length (filter id (waTold s)) = 1"
proof -
  have "ends_ok watching_init" by (simp add: ends_ok_def watching_init_def)
  then have ok: "ends_ok s" by (rule ends_ok_run [OF assms(1)])
  have "e \<noteq> e'" using assms(3,5) by (auto simp: success_event_def bound_event_def)
  then have two: "2 \<le> length (filter ends (waTaken s))"
    using assms by (intro two_ends [of e _ e']) (simp_all add: ends_def)
  with ok show told: "length (filter id (waTold s)) = 1" by (auto simp: ends_ok_def split: if_splits)
  then have "waReader s \<notin> {Acquiring, Renewing}" using ok by (auto simp: ends_ok_def dest: told_none)
  with ok two told show "stranded True s" by (cases "waReader s") (auto simp: ends_ok_def stranded_def split: if_splits)
qed

text \<open>Both orders of the two events are possible: whichever the goroutine takes first, it can take the other one too.\<close>

lemma both_taken:
  assumes "ends e1" and "ends e2"
  shows "\<exists>s. watch_run k ct watching_init s \<and> waReader s = Stopped \<and> waTaken s = [e1, e2]"
proof -
  note v = ends_verdict [OF assms(1), of k ct] ends_verdict [OF assms(2), of k ct]
  define st where "st = (\<lambda>f j r taken told. \<lparr>waForwarder = f, waJudge = j, waReader = r, waTaken = taken, waTold = told\<rparr>)"
  let ?run = "watch_run k ct watching_init"
  have "?run (st Selecting Judging Acquiring [] [])" using refl [of k ct watching_init] by (simp add: watching_init_def st_def)
  then have "?run (st Selecting Judging Renewing [] [])"
    by (rule watch_run.step [OF _ watch_step.reader])
      (use reader_step.acquired [of "st Selecting Judging Acquiring [] []"] in \<open>simp add: st_def\<close>)
  then have "?run (st (Forwarding e1) Judging Renewing [] [])"
    by (rule watch_run.step [OF _ watch_step.forward])
      (use forward_step.delivered [of "st Selecting Judging Renewing [] []" e1] in \<open>simp add: st_def\<close>)
  then have "?run (st Selecting (Telling True) Renewing [e1] [])"
    by (rule watch_run.step [OF _ watch_step.judge])
      (use judge_step.judged [OF _ _ v(1), of "st (Forwarding e1) Judging Renewing [] []"] in \<open>simp add: st_def\<close>)
  then have "?run (st (Forwarding e2) (Telling True) Renewing [e1] [])"
    by (rule watch_run.step [OF _ watch_step.forward])
      (use forward_step.delivered [of "st Selecting (Telling True) Renewing [e1] []" e2] in \<open>simp add: st_def\<close>)
  then have "?run (st (Forwarding e2) Judging Returned [e1] [True])"
    by (rule watch_run.step [OF _ watch_step.reader])
      (use reader_step.told_renewing [of "st (Forwarding e2) (Telling True) Renewing [e1] []" True] in \<open>simp add: st_def\<close>)
  then have "?run (st Selecting (Telling True) Returned [e1, e2] [True])"
    by (rule watch_run.step [OF _ watch_step.judge])
      (use judge_step.judged [OF _ _ v(2), of "st (Forwarding e2) Judging Returned [e1] [True]"] in \<open>simp add: st_def\<close>)
  then have "?run (st Selecting (Telling True) Stopped [e1, e2] [True])"
    by (rule watch_run.step [OF _ watch_step.reader])
      (use reader_step.closed_stop [of "st Selecting (Telling True) Returned [e1, e2] [True]"] in \<open>simp add: st_def\<close>)
  then show ?thesis by (intro exI [of _ "st Selecting (Telling True) Stopped [e1, e2] [True]"]) (simp add: st_def)
qed

text \<open>
  C40: a provisioning that succeeds leaves goroutines behind. The event of the success and the update that binds the claim both
  count as the end. In every run in which the goroutine that judges takes one of each, in whatever order, whatever else it
  takes, and whether \<open>Run\<close> was taking the lock or renewing it, \<open>Run\<close> was told of one success and has returned, and the
  goroutine sends the other verdict to nobody: in no later state has it ended, also when the stop channel is closed, so that the
  watches of the claim are never told to stop. Such runs exist, for both orders.
\<close>

theorem watch_leaks:
  shows "(\<forall>s e e' s'. watch_run k ct watching_init s \<and> e \<in> set (waTaken s) \<and> success_event e \<and>
      e' \<in> set (waTaken s) \<and> bound_event e' \<and> watch_run k ct s s' \<longrightarrow>
      length (filter id (waTold s)) = 1 \<and> waReader s' \<in> {Returned, Stopped} \<and> waJudge s' = Telling True) \<and>
    (\<forall>e e'. success_event e \<and> bound_event e' \<longrightarrow>
      (\<exists>s. watch_run k ct watching_init s \<and> waReader s = Stopped \<and> waTaken s = [e, e']) \<and>
      (\<exists>s. watch_run k ct watching_init s \<and> waReader s = Stopped \<and> waTaken s = [e', e]))"
proof (intro conjI allI impI; elim conjE)
  fix s e e' s'
  assume run: "watch_run k ct watching_init s" "watch_run k ct s s'"
    and e: "e \<in> set (waTaken s)" "success_event e" "e' \<in> set (waTaken s)" "bound_event e'"
  note both = both_strand [OF run(1) e]
  have "stranded True s'" by (rule stranded_run [OF run(2) both(1)])
  then show "waReader s' \<in> {Returned, Stopped}" "waJudge s' = Telling True" by (simp_all add: stranded_def)
  show "length (filter id (waTold s)) = 1" by (rule both(2))
qed (rule both_taken, simp_all add: ends_def)+

theorem watch_leaks_witness:
  "\<exists>s. watch_run (list_server block_class) block_controller watching_init s \<and> waReader s = Stopped \<and>
    (\<forall>s'. watch_run (list_server block_class) block_controller s s' \<longrightarrow> waJudge s' = Telling True)"
proof -
  let ?k = "list_server block_class"
  let ?e = "\<lparr>weType = ''ADDED'', weObject = EventSeen ''ProvisioningSucceeded''\<rparr>"
  let ?e' = "\<lparr>weType = ''MODIFIED'', weObject = ClaimSeen (mock_object\<lparr>coVolumeName := ''pv''\<rparr>)\<rparr>"
  have e: "success_event ?e" "bound_event ?e'" by (simp_all add: success_event_def bound_event_def)
  note leaks = watch_leaks [of ?k block_controller]
  from leaks e obtain s where s: "watch_run ?k block_controller watching_init s" "waReader s = Stopped" "waTaken s = [?e, ?e']"
    by blast
  have "?e \<in> set (waTaken s)" "?e' \<in> set (waTaken s)" by (simp_all add: s(3))
  with leaks s(1) e have "waJudge s' = Telling True" if "watch_run ?k block_controller s s'" for s'
    using that by blast
  with s(1,2) show ?thesis by blast
qed

end
