(* ===== verification/End_To_End.thy ===== *)
theory End_To_End
  imports Controller Block_Protocol
begin

text \<open>
  From a claim to its saved volume, through all components: the controller's operation, the core's choice of an availability
  domain, and the block plugin. If the services and the API server work, the operation saves the object of an available volume.
\<close>

section \<open>What a call keeps\<close>

text \<open>As \<open>extends\<close>, and the configuration is unchanged.\<close>

definition steady :: "'c world \<Rightarrow> 'c world \<Rightarrow> bool" where
  "steady w w' \<longleftrightarrow> extends w w' \<and> config w' = config w"

interpretation ste: frame steady
  by unfold_locales (auto simp: steady_def ext.refl intro: ext.trans)

lemma steady_invoke: "keeps steady (invoke mk c f)"
  by (rule keepsI) (auto simp: invoke_def sent_def extends_def steady_def split: prod.splits)

lemma steady_runtime: "runtime_step w w' \<Longrightarrow> steady w w'"
  by (auto simp: runtime_step_def steady_def extends_def)

lemma steady_timeout: "keeps steady (go_WithTimeout c d)"
  by (simp add: go_WithTimeout_def ste.keeps_pure)

lemmas steady_rules = ste.keeps_rules steady_invoke steady_timeout

lemma steady_block_create: "keeps steady (block_create b d)"
  unfolding block_create_def waitForVolumeAvailable_def volume_condition_def isVolumeReady_def Let_def
  by (intro steady_rules keeps_PollImmediate [OF ste.frame_axioms steady_runtime]) (simp_all add: Second_def)

lemma steadyD: "steady w w' \<Longrightarrow> clock w \<le> clock w'" "steady w w' \<Longrightarrow> environ w' = environ w" "steady w w' \<Longrightarrow> config w' = config w"
  by (simp_all add: steady_def extends_def)

section \<open>The availability domain\<close>

definition lists_domains :: "'c Identity \<Rightarrow> AvailabilityDomain list \<Rightarrow> bool" where
  "lists_domains ids items \<longleftrightarrow> (\<forall>ctx c t cl. \<not> expired ctx t \<longrightarrow> (\<exists>d cl'. ListAvailabilityDomains ids ctx c t cl = (Inr items, d, cl')))"

lemma find_ad_match:
  assumes "first_match name ads ad"
  shows "find_ad name items ads w = Some (Ok ad, w)"
proof -
  from assms obtain pre post n where ads: "ads = pre @ ad # post" and ad: "adName ad = Some n" "HasSuffix n name"
    and pre: "\<forall>x \<in> set pre. \<exists>m. adName x = Some m \<and> \<not> HasSuffix m name" unfolding first_match_def by blast
  from pre have "find_ad name items (pre @ ad # post) w = Some (Ok ad, w)"
    by (induction pre) (use ad in \<open>auto simp: go_simps\<close>)
  then show ?thesis by (simp add: ads)
qed

text \<open>The zones that may be chosen for a claim.\<close>

definition possible_zones :: "Node list \<Rightarrow> PersistentVolumeClaim \<Rightarrow> string set" where
  "possible_zones nodes pvc = (case selected_zone pvc of Some z \<Rightarrow> {z} | None \<Rightarrow> node_zones nodes)"

lemma automatic_zone_steady: "keeps steady (automatic_zone p pvc)"
proof -
  have "keeps steady (ChooseZoneForVolume zones name)" for zones name
    by (rule keepsI, cases "stateful_name name")
      (auto simp: ChooseZoneForVolume_def getPVCNameHashAndIndexOffset_def rand_Uint32_def draw_def go_bind_def go_simps Let_def
        index_def steady_def extends_def split: if_splits)
  then show ?thesis unfolding automatic_zone_def Let_def by (intro steady_rules)
qed

lemma zone_chosen:
  assumes "\<And>w. opNodeLister p w = Inr nodes" and "possible_zones nodes pvc \<noteq> {}" and "card (possible_zones nodes pvc) < 2 ^ 32"
  shows "\<exists>z w1. (case selected_zone pvc of Some z \<Rightarrow> ret z | None \<Rightarrow> automatic_zone p pvc) w = Some (Ok z, w1) \<and>
    z \<in> possible_zones nodes pvc \<and> steady w w1"
proof (cases "selected_zone pvc")
  case None
  then have zones: "node_zones nodes \<noteq> {}" "card (node_zones nodes) < 2 ^ 32" using assms(2,3) by (simp_all add: possible_zones_def)
  from ChooseZoneForVolume_member [OF node_zones_finite this] obtain z w1 where
    z: "ChooseZoneForVolume (node_zones nodes) (pvcName pvc) w = Some (Ok z, w1)" "z \<in> node_zones nodes" by blast
  then have "automatic_zone p pvc w = Some (Ok z, w1)"
    using zones(1) by (simp add: automatic_zone_def go_simps assms(1) Let_def)
  with keepsD [OF automatic_zone_steady this] z(2) None show ?thesis by (auto simp: possible_zones_def)
qed (auto simp: go_simps possible_zones_def ste.refl)

lemma domain_found:
  assumes "opClient p = client_of c" and "cfgSet c" and "cfgCompartmentOCID (config w) \<noteq> []" and "0 < timeout c"
    and "lists_domains (identity c) items" and "first_match z items ad"
  shows "\<exists>w1. findADByName p Background z w = Some (Ok ad, w1) \<and> steady w w1"
proof -
  let ?o = "cfgCompartmentOCID (config w)" and ?ctx = "WithTimeout Background (clock w) (timeout c)"
  have comp: "CompartmentOCID c w = Some (Ok ?o, w)" by (rule CompartmentOCID_configured [OF assms(2,3)])
  have "\<not> expired ?ctx (clock w)" using assms(4) by (simp add: WithTimeout_def Background_def expired_def)
  then obtain d cl where ads: "ListAvailabilityDomains (identity c) ?ctx (Some ?o) (clock w) (cloud w) = (Inr items, d, cl)"
    using assms(5) unfolding lists_domains_def by blast
  let ?w1 = "sent ?ctx (CallListAvailabilityDomains (Some ?o) (Inr items)) d cl w"
  have "findADByName p Background z w = Some (Ok ad, ?w1)"
    by (simp add: findADByName_def assms(1) client_of_def go_bind_Ok [of "CompartmentOCID c", OF comp] go_simps
        go_bind_invoke [of "ListAvailabilityDomains _ _ _", OF ads] find_ad_match [OF assms(6)])
  moreover have "steady w ?w1" by (simp add: steady_def extends_def)
  ultimately show ?thesis by blast
qed

section \<open>The core\<close>

text \<open>
  A cloud that can serve the claims of a block provisioner in the state \<open>w\<close>: the configuration names a compartment and the
  environment the region, a domain is listed for every zone that may be chosen, and the volume \<open>ocid\<close> is available in time.
\<close>

definition block_cloud ::
  "'c OCIProvisioner \<Rightarrow> 'c provisionerClient \<Rightarrow> 'c blockProvisioner \<Rightarrow> PersistentVolumeClaim \<Rightarrow> 'c world \<Rightarrow> string \<Rightarrow> bool" where
  "block_cloud p c b pvc w ocid \<longleftrightarrow> cfgSet c \<and> cfgCompartmentOCID (config w) \<noteq> [] \<and> environ w ''OCI_SHORT_REGION'' \<noteq> None \<and>
     (\<exists>items nodes. lists_domains (identity c) items \<and> (\<forall>w. opNodeLister p w = Inr nodes) \<and>
       possible_zones nodes pvc \<noteq> {} \<and> card (possible_zones nodes pvc) < 2 ^ 32 \<and>
       (\<forall>z \<in> possible_zones nodes pvc. \<exists>ad. first_match z items ad)) \<and>
     (\<exists>ready dur. serves_volume (blockStorage c) ocid ready dur \<and> 0 \<le> dur \<and> dur < timeout c \<and> bpTimeout b \<noteq> 0 \<and>
       ready \<le> clock w + bpTimeout b \<and> ready + dur + 5 * Second \<le> clock w + timeout c)"

lemma block_cloud_steady: "block_cloud p c b pvc w ocid \<Longrightarrow> steady w w' \<Longrightarrow> block_cloud p c b pvc w' ocid"
  using steadyD [of w w'] unfolding block_cloud_def by (simp only: conj_assoc) (elim conjE exE, intro conjI exI, (assumption | simp | linarith)+)

lemma core_Provision_served:
  assumes "block_core p c b" and "block_cloud p c b pvc w ocid" and "block_accepts opts pvc q"
  shows "\<exists>pv w'. core_Provision p opts w = Some (Ok pv, w') \<and> pvName pv = ocid"
proof -
  let ?b = "b\<lparr>bpClient := client_of c\<rparr>"
  have client: "opClient p = client_of c" and plugin: "plProvision (opPlugin p) = block_Provision ?b"
    using assms(1) by (simp_all add: block_core_def)
  from assms(2) obtain items nodes ready dur where cfg: "cfgSet c" "cfgCompartmentOCID (config w) \<noteq> []" "environ w ''OCI_SHORT_REGION'' \<noteq> None"
    and ads: "lists_domains (identity c) items" "\<And>w. opNodeLister p w = Inr nodes" "possible_zones nodes pvc \<noteq> {}"
      "card (possible_zones nodes pvc) < 2 ^ 32" "\<And>z. z \<in> possible_zones nodes pvc \<Longrightarrow> \<exists>ad. first_match z items ad"
    and vol: "serves_volume (blockStorage c) ocid ready dur" "0 \<le> dur" "dur < timeout c" "bpTimeout b \<noteq> 0"
      "ready \<le> clock w + bpTimeout b" "ready + dur + 5 * Second \<le> clock w + timeout c"
    unfolding block_cloud_def by blast
  have pvc: "optPVC opts = Some pvc" using assms(3) by (simp add: block_accepts_def)
  from zone_chosen [OF ads(2-4)] obtain z w1 where
    z: "(case selected_zone pvc of Some z \<Rightarrow> ret z | None \<Rightarrow> automatic_zone p pvc) w = Some (Ok z, w1)" "z \<in> possible_zones nodes pvc" "steady w w1"
    by blast
  from ads(5) [OF z(2)] obtain ad where ad: "first_match z items ad" ..
  then obtain a where a: "adName ad = Some a" by (auto simp: first_match_def)
  have "cfgCompartmentOCID (config w1) \<noteq> []" "0 < timeout c" using cfg(2) steadyD(3) [OF z(3)] vol(2,3) by simp_all
  from domain_found [OF client cfg(1) this ads(1) ad] obtain w2 where w2: "findADByName p Background z w1 = Some (Ok ad, w2)" "steady w1 w2"
    by blast
  have w02: "steady w w2" by (rule ste.trans [OF z(3) w2(2)])
  obtain region where region: "environ w2 ''OCI_SHORT_REGION'' = Some region" using cfg(3) steadyD(2) [OF w02] by auto
  have comp: "CompartmentOCID c w' = Some (Ok (cfgCompartmentOCID (config w)), w')" if "steady w w'" for w'
    using CompartmentOCID_configured [OF cfg(1), of w'] cfg(2) steadyD(3) [OF that] by simp
  have comp2: "pcCompartmentOCID (bpClient ?b) w2 = Some (Ok (cfgCompartmentOCID (config w)), w2)"
    using comp [OF w02] by (simp add: client_of_def)
  let ?pv = "block_pv opts pvc a (snd (block_sizing ?b (optParameters opts) q)) ocid region"
  have "\<exists>w' details. block_Provision ?b opts ad w2 = Some (Ok ?pv, w') \<and> block_create ?b details w2 = Some (Ok ocid, w')"
    by (rule block_Provision_served [where ready = ready and dur = dur, OF _ assms(3) a comp2 region])
      (use vol steadyD(1) [OF w02] in \<open>simp_all add: client_of_def\<close>)
  then obtain w3 details where w3: "block_Provision ?b opts ad w2 = Some (Ok ?pv, w3)" "block_create ?b details w2 = Some (Ok ocid, w3)"
    by blast
  have "steady w w3" by (rule ste.trans [OF w02 keepsD [OF steady_block_create w3(2)]])
  then have mark: "\<exists>pv. mark p z ad ?pv w3 = Some (Ok pv, w3) \<and> pvName pv = ocid"
    by (simp add: mark_def block_pv_def map_put_def go_simps client client_of_def go_bind_Ok [of "CompartmentOCID c", OF comp] a)
  have "chooseAvailabilityDomain p Background (optPVC opts) w = Some (Ok (z, ad), w2)"
    by (simp add: chooseAvailabilityDomain_def pvc go_simps go_bind_def [of "case _ of None \<Rightarrow> _ | Some z \<Rightarrow> _ z"] z(1) go_bind_Ok [of "findADByName _ _ _", OF w2(1)])
  then have "core_Provision p opts w = go_bind (plProvision (opPlugin p) opts ad) (mark p z ad) w2"
    by (simp add: core_Provision_def go_bind_Ok [of "chooseAvailabilityDomain _ _ _"])
  then show ?thesis using mark by (auto simp: plugin go_bind_Ok [of "block_Provision _ _ _", OF w3(1)])
qed

section \<open>The controller\<close>

lemma same_world_steady: "same_world s s' \<Longrightarrow> steady (clWorld s) (clWorld s')"
  by (auto simp: same_world_def steady_def extends_def)

text \<open>
  An API server in which the claim can be served: it has no object of the name that the controller looks for, knows the storage class of
  the claim, which is one of this controller, and saves what it is given.
\<close>

definition serving_api :: "'a KubeAPI \<Rightarrow> 'c ProvisionController \<Rightarrow> ClaimObject \<Rightarrow> 'a \<Rightarrow> bool" where
  "serving_api k ct cobj a \<longleftrightarrow>
     (\<forall>t. \<exists>e. fst (kaGet k (getProvisionedVolumeNameForClaim cobj) t a) = Inl e) \<and>
     (\<exists>ref. kaReference k cobj = Inr ref) \<and> (\<forall>v t a. fst (kaCreate k v t a) = None) \<and>
     (\<exists>sc. (\<forall>a. kaClasses k (GetPersistentVolumeClaimClass cobj) a = Inr (Some sc)) \<and> scProvisioner sc = ctProvisionerName ct \<and>
       scReclaimPolicy sc \<noteq> None)"

lemma save_or_clean_saves:
  assumes "\<forall>v t a. fst (kaCreate k v t a) = None" and "0 < ctCreateProvisionedPVRetryCount ct"
  shows "\<exists>s'. save_or_clean k ct v s = Some (Ok (), s') \<and>
    clActs s' = clActs s @ [Created v None, Recorded ''Normal'' ''ProvisioningSucceeded'']"
proof -
  obtain n where n: "nat (ctCreateProvisionedPVRetryCount ct) = Suc n" using assms(2) by (cases "nat (ctCreateProvisionedPVRetryCount ct)") auto
  obtain s1 where "kube_call (Created v) (kaCreate k v) s = Some (Ok None, s1)" "clActs s1 = clActs s @ [Created v None]"
    using kube_call_goes [of "Created v" "kaCreate k v" s] assms(1) by metis
  then show ?thesis by (simp add: save_or_clean_def Let_def n go_bind_def go_simps)
qed

lemma provision_volume_served:
  assumes "core_Provision (ctProvisioner ct) opts (clWorld s) = Some (Ok pv, w)" and "\<forall>v t a. fst (kaCreate k v t a) = None"
    and "0 < ctCreateProvisionedPVRetryCount ct"
  shows "\<exists>s'. provision_volume k ct ref c opts s = Some (Ok (), s') \<and>
    clActs s' = clActs s @ [Recorded ''Normal'' ''Provisioning'', Provisioned opts (Inr pv), Created (claim_volume k ct ref c pv) None,
      Recorded ''Normal'' ''ProvisioningSucceeded'']"
proof -
  let ?s = "s\<lparr>clWorld := w, clActs := clActs s @ [Recorded ''Normal'' ''Provisioning'', Provisioned opts (Inr pv)]\<rparr>"
  have "provision_volume k ct ref c opts s = save_or_clean k ct (claim_volume k ct ref c pv) ?s"
    using assms(1) by (simp add: provision_volume_def call_Provision_def go_simps go_bind_def attempt_run zoom_def)
  with save_or_clean_saves [OF assms(2,3), of "claim_volume k ct ref c pv" ?s] show ?thesis by auto
qed

text \<open>
  C9: a claim gets its volume, end to end. Let the controller run with the block provisioner, the claim be one that it accepts, the API
  server and the services work, and the volume become available in time. Then the operation for the claim, whatever the names of the
  claim and the zones of the nodes, chooses a zone, creates the volume there, waits for it, saves its object, and says so; nothing fails.
\<close>

theorem claim_gets_volume:
  assumes "block_core (ctProvisioner ct) c b" and "0 < ctCreateProvisionedPVRetryCount ct"
    and "serving_api k ct cobj (clApi s)" and "canProvision cobj"
    and "set (pvcAccessModes (coClaim cobj)) \<subseteq> {ReadWriteOnce}" and "pvcRequests (coClaim cobj) ResourceStorage = Some q"
    and "block_cloud (ctProvisioner ct) c b (coClaim cobj) (clWorld s) ocid"
  shows "\<exists>s' e opts pv v. provisionClaimOperation k ct cobj s = Some (Ok (), s') \<and>
    clActs s' = clActs s @ [Got (getProvisionedVolumeNameForClaim cobj) (Inl e), Recorded ''Normal'' ''Provisioning'',
      Provisioned opts (Inr pv), Created v None, Recorded ''Normal'' ''ProvisioningSucceeded''] \<and>
    pvName pv = ocid \<and> pvName (poVolume v) = ocid"
proof -
  from assms(3) obtain e ref sc policy where api: "fst (kaGet k (getProvisionedVolumeNameForClaim cobj) (clock (clWorld s)) (clApi s)) = Inl e"
    "kaReference k cobj = Inr ref" "\<And>a. kaClasses k (GetPersistentVolumeClaimClass cobj) a = Inr (Some sc)"
    "scProvisioner sc = ctProvisionerName ct" "scReclaimPolicy sc = Some policy" "\<forall>v t a. fst (kaCreate k v t a) = None"
    unfolding serving_api_def by blast
  let ?policy = "if kaAtLeast k (ctKubeVersion ct) ''v1.8.0'' then policy else ''Delete''"
  let ?opts = "provision_options cobj ?policy sc"
  obtain s1 where s1: "provisionClaimOperation k ct cobj s =
      provision_volume k ct ref (GetPersistentVolumeClaimClass cobj) ?opts s1"
    "clActs s1 = clActs s @ [Got (getProvisionedVolumeNameForClaim cobj) (Inl e)]" "same_world s s1"
    by (rule provisionClaim_goes [where policy = ?policy, OF api(1-4) assms(4)]) (simp_all add: api(5))
  have cloud: "block_cloud (ctProvisioner ct) c b (coClaim cobj) (clWorld s1) ocid"
    by (rule block_cloud_steady [OF assms(7) same_world_steady [OF s1(3)]])
  have "block_accepts ?opts (coClaim cobj) q" using assms(5,6) by (simp add: block_accepts_def provision_options_def)
  from core_Provision_served [OF assms(1) cloud this] obtain pv w where
    pv: "core_Provision (ctProvisioner ct) ?opts (clWorld s1) = Some (Ok pv, w)" "pvName pv = ocid" by blast
  from provision_volume_served [OF pv(1) api(6) assms(2), of ref "GetPersistentVolumeClaimClass cobj"] s1(1,2) pv(2)
  show ?thesis by (fastforce simp: claim_volume_parts)
qed

lemma mock_cloud:
  "block_cloud mock_block_core mock_services (mock_block VolumeLifecycleStateAvailable (NewMock None) Minute) (coClaim mock_object)
     configured VolumeBackupID"
proof -
  let ?nodes = "[\<lparr>nodeLabels = [kubeLabelZoneFailureDomain \<mapsto> ''AD-1'']\<rparr>]"
  have zones: "possible_zones ?nodes (coClaim mock_object) = {''AD-1''}"
    by (simp add: possible_zones_def mock_object_def claim_def selected_zone_def node_zones_def List.map_filter_def)
  have "first_match ''AD-1'' [defaultAD] defaultAD"
    by (auto simp: first_match_def defaultAD_def HasSuffix_def intro: exI [of _ "[]"])
  then have domains: "\<exists>items nodes. lists_domains (identity mock_services) items \<and> (\<forall>w. opNodeLister mock_block_core w = Inr nodes) \<and>
       possible_zones nodes (coClaim mock_object) \<noteq> {} \<and> card (possible_zones nodes (coClaim mock_object)) < 2 ^ 32 \<and>
       (\<forall>z \<in> possible_zones nodes (coClaim mock_object). \<exists>ad. first_match z items ad)"
    by (intro exI [of _ "[defaultAD]"] exI [of _ ?nodes]) (auto simp: zones lists_domains_def mock_services_def mock_core_def)
  have "serves_volume (blockStorage mock_services) VolumeBackupID 0 0"
    by (simp add: serves_volume_def mock_services_def MockBlockStorageClient_def)
  then have "\<exists>ready dur. serves_volume (blockStorage mock_services) VolumeBackupID ready dur \<and> 0 \<le> dur \<and> dur < timeout mock_services \<and>
      bpTimeout (mock_block VolumeLifecycleStateAvailable (NewMock None) Minute) \<noteq> 0 \<and>
      ready \<le> clock configured + bpTimeout (mock_block VolumeLifecycleStateAvailable (NewMock None) Minute) \<and>
      ready + dur + 5 * Second \<le> clock configured + timeout mock_services"
    by (intro exI [of _ 0]) (simp add: mock_services_def mock_block_def configured_def Minute_def Second_def)
  with domains show ?thesis unfolding block_cloud_def by (intro conjI) (simp_all add: configured_def mock_services_def)
qed

theorem claim_gets_volume_witness:
  "\<exists>s'. provisionClaimOperation (list_server block_class) block_controller mock_object (mock_cluster []) = Some (Ok (), s') \<and>
    last (clActs s') = Recorded ''Normal'' ''ProvisioningSucceeded''"
proof -
  have api: "serving_api (list_server block_class) block_controller mock_object (clApi (mock_cluster []))"
    by (simp add: serving_api_def list_server_def mock_cluster_def listed_def)
  have parts: "canProvision mock_object" "set (pvcAccessModes (coClaim mock_object)) \<subseteq> {ReadWriteOnce}"
    "pvcRequests (coClaim mock_object) ResourceStorage = Some (GiB 20)"
    by (simp_all add: canProvision_def CheckPersistentVolumeClaimModeBlock_def mock_object_def claim_def)
  have "clWorld (mock_cluster []) = configured" by (simp add: mock_cluster_def)
  with claim_gets_volume [OF _ _ api parts, of mock_services _ VolumeBackupID] mock_cores(2) mock_cloud show ?thesis by fastforce
qed

end
