(* ===== verification/Spec2Isabelle.thy ===== *)
theory Spec2Isabelle
  imports Block_Protocol Fss_Protocol Retries Main_Program Leader_Election Watch End_To_End
begin

text \<open>
  A formal model of the OCI volume provisioner: the program of \<open>src/cmd\<close> and \<open>src/pkg\<close>, a Kubernetes
  dynamic provisioner that turns persistent volume claims into OCI block volumes or file systems,
  with the theorems that make it correct.

  \<^bold>\<open>The program.\<close> \<open>main\<close> reads the flags and the environment, connects to Kubernetes, constructs the
  provisioner and hands it to the provision controller of the vendored external-storage library,
  which calls \<open>Provision\<close> for a claim, when it has won the lock on it, and \<open>Delete\<close> for a released volume. The core provisioner
  (\<open>pkg/provisioner/core\<close>) chooses an availability domain, lets a plugin do the work and marks the
  result as its own. There are two plugins: block volumes (\<open>pkg/provisioner/block\<close>) and file systems
  with exports on a mount target (\<open>pkg/provisioner/fss\<close>). Both talk to the OCI services through
  \<open>pkg/oci/client\<close> and create resources whose readiness they poll for.

  \<^bold>\<open>How it is modelled.\<close> A Go function is a function \<open>('s, 'a) go\<close> from a state to an outcome (a value,
  a non-nil error, a panic, or the end of the process) and the next state, or \<open>None\<close> if it does not
  return. The state of the program is \<open>world\<close> of \<open>Client\<close>: clock, environment variables, the
  configuration, the state of the cloud, and the requests sent so far with their contexts and
  responses. The services are parameters: functions from the time and the state of the cloud to a
  response, a duration and the next state, without any assumption. Where a theorem needs one, it is a
  hypothesis about that service.

  \<^bold>\<open>Theories, in the order of the imports:\<close>

  \<^item> \<open>Go_Prelude\<close>, \<open>Go_Library\<close>: errors, outcomes, the sequencing of calls, what a function keeps of the state (locale
    \<open>frame\<close>) and that it returns; the functions of \<open>strings\<close>, \<open>strconv\<close>, \<open>time\<close> and \<open>context\<close> that the code
    uses, and the arithmetic of \<open>int64\<close>.
  \<^item> \<open>Errors\<close>: \<open>provisioner/errors.go\<close> (\<open>IsNotFound\<close>) with \<open>errors.Cause\<close>. \<open>Config\<close>: \<open>oci/client/config.go\<close> and
    \<open>config_validate.go\<close>, with the list of field errors. \<open>Quantity\<close>: the comparison and the integer value
    of \<open>resource.Quantity\<close>, which the sizing of volumes uses. \<open>Quantity_Parse\<close>: \<open>ParseQuantity\<close>, which reads the smallest
    size of a volume; its fast path and its decimals give the number that the text denotes.
  \<^item> \<open>Polling\<close>: \<open>wait.PollImmediate\<close> with its poller. The ticks and the timeout race; which of two that are due comes first is
    a choice of the runtime (\<open>choices\<close>), over which every theorem quantifies.
  \<^item> \<open>Api_Types\<close>, \<open>Client\<close>, \<open>Lifecycle\<close>: the data of the services and of Kubernetes, the client of \<open>oci/client/client.go\<close> and the
    requests; the pattern \<open>create, then poll until ready\<close>. \<open>Plugin\<close>: \<open>provisioner/plugin\<close>, and \<open>utils.go\<close>; its
    locale \<open>provisioner_plugin\<close> says what the core relies on, and \<open>Block\<close> and \<open>Fss\<close> interpret it. \<open>Mocks\<close>: the clients of
    \<open>mock_interfaces.go\<close>, on which the theorems are run.
  \<^item> \<open>Block\<close>: \<open>provisioner/block/block.go\<close>. The size that is asked for covers the claim (and where it wraps around), a
    returned volume was seen available, a volume that never became available is deleted, what a failure leaves behind,
    that every call returns, and what \<open>Delete\<close> does. \<open>Block_Protocol\<close>: the same function against two
    specifications, a state machine of one volume's life that every call refines, and progress.
  \<^item> \<open>Fss\<close>: \<open>provisioner/fss/fss.go\<close>. A returned volume rests on a mount target, file system and export seen active,
    at most one of each is created and only if none is found, the paging of \<open>findExport\<close>, and
    the order of \<open>Delete\<close>. \<open>Fss_Protocol\<close>: the same function against a protocol, a state machine of the target, the file system and
    its export that every call refines, and progress.
  \<^item> \<open>Zones\<close>: \<open>ChooseZoneForVolume\<close> of the vendored \<open>volume/util\<close>, which places the members of a stateful set. \<open>Core\<close>: \<open>provisioner/core\<close>,
    where a volume is placed, and the round trips: what \<open>Provision\<close> made is what \<open>Delete\<close> removes. \<open>Retries\<close>: histories of
    calls of the core on a service that keeps its file systems; none is created twice.
  \<^item> \<open>Metadata\<close>: \<open>oci/instancemeta\<close>. \<open>Client_Setup\<close>: \<open>FromConfig\<close> of \<open>client.go\<close>, with the credentials and the custom
    transport. \<open>Core_Setup\<close>: \<open>NewOCIProvisioner\<close>; every provisioner that it constructs satisfies what the theorems of \<open>Core\<close>
    assume of one.
  \<^item> \<open>Signals\<close>: \<open>pkg/signals\<close>, a step relation of signals and the goroutine, with its invariant. \<open>Logging\<close>: \<open>pkg/logging\<close> with
    the construction of a logger in \<open>zap\<close>. \<open>Flags\<close>: the flags and \<open>flag.Parse\<close>. \<open>Main_Program\<close>: \<open>cmd/main.go\<close>, its resync
    period in \<open>float64\<close> arithmetic and \<open>main\<close>; the informers and the controller are recorded with the world in which they are
    started, so that the order of the start is observable.
  \<^item> \<open>Work_Queue\<close>: the rate-limited queue of the vendored \<open>client-go\<close>, from which the workers of the controller take their keys, with
    workers, the informer and the delayed keys interleaved; two workers never have the same key, unless an object is deleted
    while its key waits, and a key stays pending until a worker has finished it.
  \<^item> \<open>Controller\<close>: the vendored \<open>ProvisionController\<close>, composed with the core: which claims and volumes it takes, the operations
    for both with every request they make of the API server, the handlers and the rounds of the workers. What becomes of a volume
    that was created for a claim, when an object is removed, why the guard against provisioning twice does not hold for either plugin, and how often a failed
    key is tried again.
  \<^item> \<open>Leader_Election\<close>: the lock that each controller takes on a claim before it provisions, as a step relation of all their
    requests. The lease is respected; with the term that \<open>main\<close> sets, two operations for one claim can run at once. \<open>Watch\<close>: the
    goroutines that watch for the end of a provisioning; what they tell is true, and one that takes both the event of the success
    and the update of the bound claim stays behind.
  \<^item> \<open>End_To_End\<close>: the controller, the core and the block plugin together; if the API server and the services work, a claim gets its
    volume.

  \<^bold>\<open>Loops.\<close> Loops over data are structural. The two that need not end, the poller and the pages of
    \<open>findExport\<close>, are \<open>partial_function (option)\<close>, so that not returning is the value \<open>None\<close>; no fuel is used. The rounds of a worker, and the
    attempts to save an object, are counted.
    The poller is proved to return if its condition does, and the paging if the listing ends. In \<open>Signals\<close>,
    \<open>run_goroutine\<close> takes at most so many steps; four are enough, because the goroutine has only four.

  \<^bold>\<open>Not modelled.\<close> Log messages, which no decision depends on, except that \<open>Fatal\<close> ends the process. The OCI SDK, the
  Kubernetes client, the informers with their caches, the requests that open a watch, the metrics, the HTTP client, the YAML and JSON
  parsers, the printing of quantities, the parsing of semantic versions, the token bucket of the rate limiter: third-party code that the program calls, a
  parameter of the model. Workers interleave on the queue
  and controllers on the lock, not inside a call of the provisioner: concurrent calls share only the configuration, whose compartment
  is filled in idempotently. Signals that arrive before
  the controller runs are taken to arrive while it runs. What the workers make of the world while \<open>Run\<close> blocks is a parameter of \<open>main\<close>; one
  operation of a worker is what \<open>Controller\<close> models.

  \<^bold>\<open>Where the model is wider than the code.\<close> Go computes the number of digits of a numeral (\<open>fast_precision\<close>), the distance of two scales
  (\<open>Amount_Cmp\<close>) and the shift of a decimal (\<open>rescale\<close>) in \<open>int32\<close>, the model without bound. They differ for numerals of
  more than \<open>2 ^ 31\<close> digits and for scales near \<open>2 ^ 31\<close> only, which the program does not meet.
\<close>

end
